(* ===== verification/Prelude.thy ===== *)
theory Prelude
  imports Complex_Main "HOL-Library.Multiset" "HOL-Library.AList"
    "HOL-Library.List_Lexorder" "HOL-Library.Char_ord"
begin

text \<open>
  The shared layer of the development: results with an error branch, Python dictionaries as
  insertion-ordered association lists, \<open>Counter\<close>, the stable descending sort, slices,
  \<open>round\<close> and the string operations that the modelled code uses, with the generic lemmas
  that carry the component proofs. Floats are modelled by exact real numbers.
\<close>

named_theorems dict_simps \<open>lookups in dictionaries after an update\<close>
named_theorems res_simps \<open>results with an error branch\<close>

section \<open>Results\<close>

definition ebind :: "'e + 'a \<Rightarrow> ('a \<Rightarrow> 'e + 'b) \<Rightarrow> 'e + 'b" where
  "ebind m f = (case m of Inl e \<Rightarrow> Inl e | Inr x \<Rightarrow> f x)"

lemma ebind_Inl [simp]: "ebind (Inl e) f = Inl e"
  by (simp add: ebind_def)

lemma ebind_Inr [simp]: "ebind (Inr x) f = f x"
  by (simp add: ebind_def)

lemma ebind_eq_Inr [res_simps]: "ebind m f = Inr y \<longleftrightarrow> (\<exists>x. m = Inr x \<and> f x = Inr y)"
  by (cases m) auto

lemma ebind_eq_Inl [res_simps]:
  "ebind m f = Inl e \<longleftrightarrow> m = Inl e \<or> (\<exists>x. m = Inr x \<and> f x = Inl e)"
  by (cases m) auto

text \<open>A loop that stops at the first error.\<close>

fun emap :: "('a \<Rightarrow> 'e + 'b) \<Rightarrow> 'a list \<Rightarrow> 'e + 'b list" where
  "emap f [] = Inr []"
| "emap f (x # xs) = ebind (f x) (\<lambda>y. ebind (emap f xs) (\<lambda>ys. Inr (y # ys)))"

lemma emap_total: "(\<And>x. x \<in> set xs \<Longrightarrow> f x = Inr (g x)) \<Longrightarrow> emap f xs = Inr (map g xs)"
  by (induction xs) auto

lemma emap_length: "emap f xs = Inr ys \<Longrightarrow> length ys = length xs"
  by (induction xs arbitrary: ys) (auto simp: res_simps)

section \<open>Dictionaries\<close>

text \<open>
  A Python dictionary keeps its keys in the order of their first insertion, and assigning to
  an existing key keeps the key's place: an association list with \<open>AList.update\<close>.
\<close>

type_synonym ('k, 'v) pydict = "('k \<times> 'v) list"

definition dict_mod :: "'k \<Rightarrow> ('v \<Rightarrow> 'v) \<Rightarrow> 'v \<Rightarrow> ('k, 'v) pydict \<Rightarrow> ('k, 'v) pydict" where
  \<comment> \<open>\<open>d[k] = f(d.setdefault(k, v0))\<close>\<close>
  "dict_mod k f v0 d = AList.update k (f (case map_of d k of None \<Rightarrow> v0 | Some v \<Rightarrow> v)) d"

definition dict_setdefault :: "'k \<Rightarrow> 'v \<Rightarrow> ('k, 'v) pydict \<Rightarrow> ('k, 'v) pydict" where
  "dict_setdefault k v d = (case map_of d k of None \<Rightarrow> AList.update k v d | Some _ \<Rightarrow> d)"

lemma map_of_dict_mod [dict_simps]:
  "map_of (dict_mod k f v0 d) k' =
     (if k' = k then Some (f (case map_of d k of None \<Rightarrow> v0 | Some v \<Rightarrow> v)) else map_of d k')"
  by (simp add: dict_mod_def update_conv')

lemma map_of_dict_setdefault [dict_simps]:
  "map_of (dict_setdefault k v d) k' =
     (if k' = k \<and> map_of d k = None then Some v else map_of d k')"
  by (auto simp: dict_setdefault_def update_conv' split: option.splits)

lemma keys_dict_mod [dict_simps]: "set (map fst (dict_mod k f v0 d)) = insert k (set (map fst d))"
  by (simp add: dict_mod_def dom_update)

lemma in_dict_mod:
  "(k', w) \<in> set (dict_mod k f v0 d) \<Longrightarrow>
     (k', w) \<in> set d \<or> k' = k \<and> w = f (case map_of d k of None \<Rightarrow> v0 | Some v \<Rightarrow> v)"
  unfolding dict_mod_def
  by (induction d) (auto split: if_splits)

lemma distinct_dict_mod [intro]: "distinct (map fst d) \<Longrightarrow> distinct (map fst (dict_mod k f v0 d))"
  by (simp add: dict_mod_def distinct_update)

lemma distinct_dict_setdefault [intro]:
  "distinct (map fst d) \<Longrightarrow> distinct (map fst (dict_setdefault k v d))"
  by (auto simp: dict_setdefault_def distinct_update split: option.splits)

text \<open>
  Building a dictionary in one pass, \<open>for x in xs: d[key(x)] = g(x, d.setdefault(key(x), v0))\<close>:
  the entry of \<open>k\<close> is the fold of \<open>g\<close> over the elements with that key, in their order.
\<close>

definition dict_fold :: "('a \<Rightarrow> 'k) \<Rightarrow> ('a \<Rightarrow> 'v \<Rightarrow> 'v) \<Rightarrow> 'v \<Rightarrow> 'a list \<Rightarrow> ('k, 'v) pydict \<Rightarrow> ('k, 'v) pydict" where
  "dict_fold key g v0 xs d = fold (\<lambda>x. dict_mod (key x) (g x) v0) xs d"

lemma dict_fold_Nil [simp]: "dict_fold key g v0 [] d = d"
  and dict_fold_Cons [simp]:
    "dict_fold key g v0 (x # xs) d = dict_fold key g v0 xs (dict_mod (key x) (g x) v0 d)"
  by (simp_all add: dict_fold_def)

lemma map_of_dict_fold_gen:
  "map_of (dict_fold key g v0 xs d) k =
     (if filter (\<lambda>x. key x = k) xs = [] then map_of d k
      else Some (fold g (filter (\<lambda>x. key x = k) xs)
                   (case map_of d k of None \<Rightarrow> v0 | Some v \<Rightarrow> v)))"
proof (induction xs arbitrary: d)
  case (Cons x xs)
  then show ?case by (cases "key x = k") (auto simp: dict_simps)
qed simp

lemma map_of_dict_fold:
  "map_of (dict_fold key g v0 xs []) k =
     (if k \<in> key ` set xs then Some (fold g (filter (\<lambda>x. key x = k) xs) v0) else None)"
  by (auto simp: map_of_dict_fold_gen filter_empty_conv)

lemma keys_dict_fold_gen:
  "set (map fst (dict_fold key g v0 xs d)) = set (map fst d) \<union> key ` set xs"
proof (induction xs arbitrary: d)
  case (Cons x xs)
  have "set (map fst (dict_mod (key x) (g x) v0 d)) = insert (key x) (set (map fst d))"
    by (rule keys_dict_mod)
  with Cons[of "dict_mod (key x) (g x) v0 d"] show ?case by simp
qed simp

lemma keys_dict_fold [simp]: "fst ` set (dict_fold key g v0 xs []) = key ` set xs"
  using keys_dict_fold_gen[of key g v0 xs "[]"] by simp

lemma distinct_dict_fold_gen:
  "distinct (map fst d) \<Longrightarrow> distinct (map fst (dict_fold key g v0 xs d))"
  by (induction xs arbitrary: d) auto

lemma distinct_dict_fold [simp]: "distinct (map fst (dict_fold key g v0 xs []))"
  by (simp add: distinct_dict_fold_gen)

lemma in_dict_fold:
  "(k, v) \<in> set (dict_fold key g v0 xs []) \<longleftrightarrow>
     k \<in> key ` set xs \<and> v = fold g (filter (\<lambda>x. key x = k) xs) v0"
  by (auto simp: map_of_eq_Some_iff[symmetric] map_of_dict_fold split: if_splits)

lemma dict_fold_eq_Nil [simp]: "dict_fold key g v0 xs [] = [] \<longleftrightarrow> xs = []"
  using keys_dict_fold[of key g v0 xs] by (auto simp del: keys_dict_fold)

lemma fold_append_filter: "fold (\<lambda>x l. l @ [f x]) xs acc = acc @ map f xs"
  by (induction xs arbitrary: acc) auto

lemma fold_count: "fold (\<lambda>x. Suc) xs n = n + length xs"
  by (induction xs arbitrary: n) auto

text \<open>
  The same pass when the default depends on the element that first brings the key:
  \<open>entry = d.setdefault(key(x), init(x))\<close>, then \<open>d[key(x)] = g(x, entry)\<close>.
\<close>

definition dict_build :: "('a \<Rightarrow> 'k) \<Rightarrow> ('a \<Rightarrow> 'v \<Rightarrow> 'v) \<Rightarrow> ('a \<Rightarrow> 'v) \<Rightarrow> 'a list \<Rightarrow> ('k, 'v) pydict \<Rightarrow> ('k, 'v) pydict" where
  "dict_build key g init xs d = fold (\<lambda>x. dict_mod (key x) (g x) (init x)) xs d"

lemma dict_build_Nil [simp]: "dict_build key g init [] d = d"
  and dict_build_Cons [simp]:
    "dict_build key g init (x # xs) d = dict_build key g init xs (dict_mod (key x) (g x) (init x) d)"
  by (simp_all add: dict_build_def)

lemma map_of_dict_build_gen:
  "map_of (dict_build key g init xs d) k =
     (case filter (\<lambda>x. key x = k) xs of [] \<Rightarrow> map_of d k
      | y # ys \<Rightarrow> Some (fold g (y # ys) (case map_of d k of None \<Rightarrow> init y | Some v \<Rightarrow> v)))"
proof (induction xs arbitrary: d)
  case (Cons x xs)
  then show ?case by (cases "key x = k") (auto simp: dict_simps split: list.split)
qed simp

lemma distinct_dict_build_gen:
  "distinct (map fst d) \<Longrightarrow> distinct (map fst (dict_build key g init xs d))"
  by (induction xs arbitrary: d) auto

lemma distinct_dict_build [simp]: "distinct (map fst (dict_build key g init xs []))"
  by (simp add: distinct_dict_build_gen)

lemma in_dict_build:
  "(k, v) \<in> set (dict_build key g init xs []) \<longleftrightarrow>
     (\<exists>y ys. filter (\<lambda>x. key x = k) xs = y # ys \<and> v = fold g (y # ys) (init y))"
proof -
  have "(k, v) \<in> set (dict_build key g init xs []) \<longleftrightarrow> map_of (dict_build key g init xs []) k = Some v"
    by (rule map_of_eq_Some_iff[symmetric]) simp
  then show ?thesis unfolding map_of_dict_build_gen by (cases "filter (\<lambda>x. key x = k) xs") auto
qed

lemma keys_dict_build [simp]: "fst ` set (dict_build key g init xs []) = key ` set xs"
proof -
  have "k \<in> fst ` set (dict_build key g init xs []) \<longleftrightarrow> k \<in> key ` set xs" for k
  proof -
    have "k \<in> fst ` set (dict_build key g init xs []) \<longleftrightarrow> map_of (dict_build key g init xs []) k \<noteq> None"
      by (simp add: map_of_eq_None_iff)
    also have "\<dots> \<longleftrightarrow> filter (\<lambda>x. key x = k) xs \<noteq> []"
      unfolding map_of_dict_build_gen by (cases "filter (\<lambda>x. key x = k) xs") auto
    finally show ?thesis by (auto simp: filter_empty_conv)
  qed
  then show ?thesis by blast
qed

lemma map_of_map_entry: "map_of (map (\<lambda>(k, v). (k, f v)) d) k = map_option f (map_of d k)"
  by (induction d) auto

lemma distinct_mset_eq: "mset xs = mset ys \<Longrightarrow> distinct xs \<Longrightarrow> distinct ys"
  using mset_eq_imp_distinct_iff by blast

section \<open>Counter\<close>

definition counter :: "'a list \<Rightarrow> ('a, nat) pydict" where
  "counter xs = dict_fold (\<lambda>x. x) (\<lambda>_. Suc) 0 xs []"

definition counter_get :: "('a, nat) pydict \<Rightarrow> 'a \<Rightarrow> nat" where
  \<comment> \<open>a missing element counts zero\<close>
  "counter_get c x = (case map_of c x of None \<Rightarrow> 0 | Some n \<Rightarrow> n)"

lemma length_filter_eq_count: "length (filter (\<lambda>y. y = x) xs) = count_list xs x"
  by (induction xs) auto

lemma counter_get_counter [simp]: "counter_get (counter xs) x = count_list xs x"
  by (auto simp: counter_get_def counter_def map_of_dict_fold fold_count length_filter_eq_count
      count_list_0_iff)

lemma in_counter: "(x, n) \<in> set (counter xs) \<longleftrightarrow> x \<in> set xs \<and> n = count_list xs x"
  by (auto simp: counter_def in_dict_fold fold_count length_filter_eq_count)

text \<open>Python's \<open>max\<close> with a key returns the first of the greatest elements.\<close>

fun max_by :: "('a \<Rightarrow> 'b::linorder) \<Rightarrow> 'a \<Rightarrow> 'a list \<Rightarrow> 'a" where
  "max_by f b [] = b"
| "max_by f b (x # xs) = max_by f (if f b < f x then x else b) xs"

lemma max_by_in: "max_by f b xs \<in> insert b (set xs)"
  by (induction xs arbitrary: b) (auto split: if_splits)

lemma max_by_ge: "x \<in> insert b (set xs) \<Longrightarrow> f x \<le> f (max_by f b xs)"
proof (induction xs arbitrary: b x)
  case (Cons y ys)
  let ?b = "if f b < f y then y else b"
  have "f b \<le> f ?b" "f y \<le> f ?b" by auto
  moreover have "f ?b \<le> f (max_by f ?b ys)" using Cons.IH[of ?b ?b] by blast
  ultimately show ?case using Cons.IH[of x ?b] Cons.prems by (auto intro: order_trans)
qed simp

text \<open>\<open>Counter(xs).most_common(1)[0][0]\<close>: an index error on an empty counter.\<close>

definition most_common1 :: "'a list \<Rightarrow> 'a option" where
  "most_common1 xs = (case counter xs of [] \<Rightarrow> None | p # ps \<Rightarrow> Some (fst (max_by snd p ps)))"

lemma most_common1_None [simp]: "most_common1 xs = None \<longleftrightarrow> xs = []"
  by (auto simp: most_common1_def counter_def split: list.splits)

lemma most_common1_mode:
  assumes "most_common1 xs = Some x"
  shows "x \<in> set xs" and "count_list xs y \<le> count_list xs x"
proof -
  obtain p ps where c: "counter xs = p # ps" and x: "x = fst (max_by snd p ps)"
    using assms by (auto simp: most_common1_def split: list.splits)
  let ?m = "max_by snd p ps"
  have "?m \<in> set (counter xs)" using max_by_in[of snd p ps] c by simp
  then have m: "x \<in> set xs" "snd ?m = count_list xs x"
    using in_counter[of "fst ?m" "snd ?m" xs] x by auto
  show "x \<in> set xs" by (rule m(1))
  show "count_list xs y \<le> count_list xs x"
  proof (cases "y \<in> set xs")
    case True
    then have "(y, count_list xs y) \<in> set (counter xs)" by (simp add: in_counter)
    then have "snd (y, count_list xs y) \<le> snd ?m"
      using max_by_ge[of "(y, count_list xs y)" p ps snd] c by simp
    then show ?thesis by (simp add: m(2))
  next
    case False
    then show ?thesis by (simp add: count_list_0_iff)
  qed
qed

section \<open>Sorting and slices\<close>

text \<open>
  \<open>xs.sort(key=f, reverse=True)\<close> is stable in the original order: Python reverses, sorts
  stably and reverses again.
\<close>

definition sort_desc :: "('a \<Rightarrow> 'b::linorder) \<Rightarrow> 'a list \<Rightarrow> 'a list" where
  "sort_desc f xs = rev (sort_key f (rev xs))"

lemma mset_sort_desc [simp]: "mset (sort_desc f xs) = mset xs"
  by (simp add: sort_desc_def)

lemma set_sort_desc [simp]: "set (sort_desc f xs) = set xs"
  by (simp add: sort_desc_def)

lemma length_sort_desc [simp]: "length (sort_desc f xs) = length xs"
  by (simp add: sort_desc_def)

lemma distinct_sort_desc [simp]: "distinct (sort_desc f xs) = distinct xs"
  by (simp add: sort_desc_def)

lemma sort_desc_Nil [simp]: "sort_desc f [] = []"
  by (simp add: sort_desc_def)

lemma sorted_sort_desc: "sorted_wrt (\<lambda>x y. f y \<le> f x) (sort_desc f xs)"
proof -
  have "sorted (map f (sort_key f (rev xs)))" by simp
  then show ?thesis by (simp add: sort_desc_def sorted_wrt_rev sorted_map)
qed

definition slice_to :: "int \<Rightarrow> 'a list \<Rightarrow> 'a list" where
  \<comment> \<open>\<open>xs[:n]\<close>; a negative bound counts from the end\<close>
  "slice_to n xs = (if 0 \<le> n then take (nat n) xs else take (nat (int (length xs) + n)) xs)"

lemma slice_to_nonneg: "0 \<le> n \<Longrightarrow> slice_to n xs = take (nat n) xs"
  by (simp add: slice_to_def)

lemma set_slice_to: "set (slice_to n xs) \<subseteq> set xs"
  by (auto simp: slice_to_def dest: in_set_takeD)

lemma sorted_wrt_slice_to: "sorted_wrt P xs \<Longrightarrow> sorted_wrt P (slice_to n xs)"
  by (simp add: slice_to_def sorted_wrt_take)

text \<open>The elements a slice keeps dominate the elements it drops.\<close>

lemma sorted_take_dominates:
  assumes "sorted_wrt P xs" "x \<in> set (take n xs)" "y \<in> set (drop n xs)"
  shows "P x y"
proof -
  have "sorted_wrt P (take n xs @ drop n xs)" using assms(1) by simp
  then show ?thesis using assms(2,3) by (auto simp only: sorted_wrt_append)
qed

section \<open>Rounding\<close>

text \<open>Python's \<open>round\<close> on exact numbers: to nearest, ties to even.\<close>

definition pyround :: "real \<Rightarrow> int" where
  "pyround x = (let f = \<lfloor>x\<rfloor>; d = x - of_int f
     in if d < 1/2 then f else if d > 1/2 then f + 1 else if even f then f else f + 1)"

definition round_nd :: "nat \<Rightarrow> real \<Rightarrow> real" where
  "round_nd n x = of_int (pyround (x * 10 ^ n)) / 10 ^ n"

lemma pyround_of_int [simp]: "pyround (of_int k) = k"
  by (simp add: pyround_def)

lemma pyround_cases: "pyround x = \<lfloor>x\<rfloor> \<or> pyround x = \<lfloor>x\<rfloor> + 1 \<and> x > of_int \<lfloor>x\<rfloor>"
  by (auto simp: pyround_def Let_def)

lemma pyround_ge: "of_int k \<le> x \<Longrightarrow> k \<le> pyround x"
  using pyround_cases[of x] by linarith

lemma pyround_le: "x \<le> of_int k \<Longrightarrow> pyround x \<le> k"
  using pyround_cases[of x] by linarith

lemma pyround_mono: "x \<le> y \<Longrightarrow> pyround x \<le> pyround y"
proof -
  assume xy: "x \<le> y"
  show ?thesis
  proof (cases "\<lfloor>x\<rfloor> = \<lfloor>y\<rfloor>")
    case True
    with xy show ?thesis by (auto simp: pyround_def Let_def)
  next
    case False
    with xy have "\<lfloor>x\<rfloor> + 1 \<le> \<lfloor>y\<rfloor>" by linarith
    moreover have "pyround x \<le> \<lfloor>x\<rfloor> + 1" "\<lfloor>y\<rfloor> \<le> pyround y"
      using pyround_cases[of x] pyround_cases[of y] by auto
    ultimately show ?thesis by linarith
  qed
qed

lemma round_nd_mono: "x \<le> y \<Longrightarrow> round_nd n x \<le> round_nd n y"
  by (simp add: round_nd_def divide_right_mono pyround_mono)

lemma round_nd_ge: "of_int k \<le> x * 10 ^ n \<Longrightarrow> of_int k / 10 ^ n \<le> round_nd n x"
  by (simp add: round_nd_def divide_right_mono pyround_ge)

lemma round_nd_le: "x * 10 ^ n \<le> of_int k \<Longrightarrow> round_nd n x \<le> of_int k / 10 ^ n"
  by (simp add: round_nd_def divide_right_mono pyround_le)

lemma round_nd_unit: "0 \<le> x \<Longrightarrow> 0 \<le> round_nd n x" "x \<le> 1 \<Longrightarrow> round_nd n x \<le> 1"
  using round_nd_ge[of 0 x n] round_nd_le[of x n "10 ^ n"] by (simp_all add: mult_left_le_one_le)

end
