(* ===== verification/Strings.thy ===== *)
theory Strings
  imports Prelude
begin

text \<open>
  The operations on Python strings that the code uses. A \<open>string\<close> is a list of characters
  and a character is a code point below 256, so the tables of \<open>str.lower\<close>,
  \<open>str.strip\<close> and of the regular expression class \<open>\w\<close> are those of the Latin-1
  range; code points above it are outside the model.
\<close>

section \<open>Characters\<close>

definition code :: "char \<Rightarrow> nat" where
  "code c = of_char c"

definition is_space :: "char \<Rightarrow> bool" where
  "is_space c = (let n = code c in 9 \<le> n \<and> n \<le> 13 \<or> 28 \<le> n \<and> n \<le> 32 \<or> n = 133 \<or> n = 160)"

definition is_digit :: "char \<Rightarrow> bool" where
  "is_digit c = (let n = code c in 48 \<le> n \<and> n \<le> 57)"

definition is_ascii_letter :: "char \<Rightarrow> bool" where
  "is_ascii_letter c = (let n = code c in 65 \<le> n \<and> n \<le> 90 \<or> 97 \<le> n \<and> n \<le> 122)"

definition is_word :: "char \<Rightarrow> bool" where
  \<comment> \<open>the regular expression class \<open>\w\<close>\<close>
  "is_word c = (is_ascii_letter c \<or> is_digit c \<or> c = CHR ''_'' \<or>
     (let n = code c in n \<in> {170, 178, 179, 181, 185, 186, 188, 189, 190} \<or>
        192 \<le> n \<and> n \<noteq> 215 \<and> n \<noteq> 247))"

definition lower_char :: "char \<Rightarrow> char" where
  "lower_char c = (let n = code c
     in if 65 \<le> n \<and> n \<le> 90 \<or> 192 \<le> n \<and> n \<le> 222 \<and> n \<noteq> 215 then char_of (n + 32) else c)"

lemma code_lt: "code c < 256"
  by (simp add: code_def)

lemma code_lower_char:
  "code (lower_char c) = (if 65 \<le> code c \<and> code c \<le> 90 \<or>
     192 \<le> code c \<and> code c \<le> 222 \<and> code c \<noteq> 215 then code c + 32 else code c)"
  using code_lt[of c] by (simp add: lower_char_def Let_def code_def)

lemma lower_char_idem [simp]: "lower_char (lower_char c) = lower_char c"
proof -
  have "code (lower_char (lower_char c)) = code (lower_char c)"
    by (simp add: code_lower_char)
  then show ?thesis by (simp add: code_def)
qed

lemma is_space_lower_char [simp]: "is_space (lower_char c) = is_space c"
  by (auto simp: is_space_def Let_def code_lower_char)

section \<open>Strings\<close>

definition str_lower :: "string \<Rightarrow> string" where
  "str_lower s = map lower_char s"

definition lstrip :: "string \<Rightarrow> string" where
  "lstrip s = dropWhile is_space s"

definition rstrip :: "string \<Rightarrow> string" where
  "rstrip s = rev (dropWhile is_space (rev s))"

definition strip :: "string \<Rightarrow> string" where
  "strip s = rstrip (lstrip s)"

definition rstrip_char :: "char \<Rightarrow> string \<Rightarrow> string" where
  \<comment> \<open>\<open>s.rstrip(c)\<close> for a single character\<close>
  "rstrip_char c s = rev (dropWhile (\<lambda>x. x = c) (rev s))"

fun starts_with :: "string \<Rightarrow> string \<Rightarrow> bool" where
  "starts_with [] s = True"
| "starts_with (p # ps) [] = False"
| "starts_with (p # ps) (c # s) = (p = c \<and> starts_with ps s)"

fun contains :: "string \<Rightarrow> string \<Rightarrow> bool" where
  \<comment> \<open>\<open>sub in s\<close>\<close>
  "contains sub [] = (sub = [])"
| "contains sub (c # s) = (starts_with sub (c # s) \<or> contains sub s)"

fun join :: "string \<Rightarrow> string list \<Rightarrow> string" where
  "join sep [] = []"
| "join sep [x] = x"
| "join sep (x # xs) = x @ sep @ join sep xs"

fun split_first :: "char \<Rightarrow> string \<Rightarrow> string \<times> string option" where
  \<comment> \<open>\<open>s.split(c, 1)\<close> and \<open>s.partition(c)\<close>: the text before the first
    separator, and the text after it when there is one\<close>
  "split_first c [] = ([], None)"
| "split_first c (x # xs) =
     (if x = c then ([], Some xs) else (let (a, b) = split_first c xs in (x # a, b)))"

fun split_on :: "char \<Rightarrow> string \<Rightarrow> string list" where
  \<comment> \<open>\<open>s.split(c)\<close>\<close>
  "split_on c [] = [[]]"
| "split_on c (x # xs) = (if x = c then [] # split_on c xs
     else (case split_on c xs of [] \<Rightarrow> [[x]] | y # ys \<Rightarrow> (x # y) # ys))"

fun split_ws_from :: "string \<Rightarrow> string \<Rightarrow> string list" where
  \<comment> \<open>\<open>s.split()\<close>, with the token read so far\<close>
  "split_ws_from t [] = (if t = [] then [] else [t])"
| "split_ws_from t (x # xs) =
     (if is_space x then (if t = [] then split_ws_from [] xs else t # split_ws_from [] xs)
      else split_ws_from (t @ [x]) xs)"

definition split_ws :: "string \<Rightarrow> string list" where
  "split_ws s = split_ws_from [] s"

fun replace_char :: "char \<Rightarrow> string \<Rightarrow> string \<Rightarrow> string" where
  \<comment> \<open>\<open>s.replace(c, t)\<close> for a single character\<close>
  "replace_char c t [] = []"
| "replace_char c t (x # xs) = (if x = c then t else [x]) @ replace_char c t xs"

section \<open>Decimal numbers\<close>

definition digit_char :: "nat \<Rightarrow> char" where
  "digit_char d = char_of (48 + d)"

fun show_nat :: "nat \<Rightarrow> string" where
  "show_nat n = (if n < 10 then [digit_char n] else show_nat (n div 10) @ [digit_char (n mod 10)])"

declare show_nat.simps [simp del]

definition show_int :: "int \<Rightarrow> string" where
  "show_int k = (if k < 0 then ''-'' @ show_nat (nat (- k)) else show_nat (nat k))"

definition zfill :: "nat \<Rightarrow> string \<Rightarrow> string" where
  \<comment> \<open>zero padding of a decimal number to a width\<close>
  "zfill w s = replicate (w - length s) (CHR ''0'') @ s"

section \<open>Lemmas\<close>

lemma starts_with_append [simp]: "starts_with p (p @ s)"
  by (induction p) auto

lemma starts_with_iff: "starts_with p s \<longleftrightarrow> (\<exists>t. s = p @ t)"
  by (induction p s rule: starts_with.induct) auto

lemma contains_iff: "contains sub s \<longleftrightarrow> (\<exists>a b. s = a @ sub @ b)"
proof (induction s)
  case (Cons c s)
  show ?case
  proof
    assume "contains sub (c # s)"
    then consider "starts_with sub (c # s)" | "contains sub s" by auto
    then show "\<exists>a b. c # s = a @ sub @ b"
    proof cases
      case 1
      then obtain t where "c # s = [] @ sub @ t" by (auto simp: starts_with_iff)
      then show ?thesis by blast
    next
      case 2
      then obtain a b where "c # s = (c # a) @ sub @ b" using Cons.IH by auto
      then show ?thesis by blast
    qed
  next
    assume "\<exists>a b. c # s = a @ sub @ b"
    then obtain a b where e: "c # s = a @ sub @ b" by blast
    show "contains sub (c # s)"
    proof (cases a)
      case Nil
      with e have "starts_with sub (c # s)" by (auto simp: starts_with_iff)
      then show ?thesis by simp
    next
      case (Cons x a')
      with e have "contains sub s" using Cons.IH by auto
      then show ?thesis by simp
    qed
  qed
qed auto

lemma str_lower_idem [simp]: "str_lower (str_lower s) = str_lower s"
  by (simp add: str_lower_def comp_def)

lemma str_lower_dropWhile: "str_lower (dropWhile is_space s) = dropWhile is_space (str_lower s)"
  by (induction s) (auto simp: str_lower_def)

lemma str_lower_rev: "str_lower (rev s) = rev (str_lower s)"
  by (simp add: str_lower_def rev_map)

lemma str_lower_strip: "str_lower (strip s) = strip (str_lower s)"
  by (simp add: strip_def lstrip_def rstrip_def str_lower_rev str_lower_dropWhile)

lemma dropWhile_idem [simp]: "dropWhile P (dropWhile P xs) = dropWhile P xs"
  by (induction xs) auto

lemma lstrip_fix: "lstrip s = s \<longleftrightarrow> s = [] \<or> \<not> is_space (hd s)"
  by (simp add: lstrip_def dropWhile_eq_self_iff)

lemma rstrip_prefix: "\<exists>t. s = rstrip s @ t"
proof -
  have "rev s = takeWhile is_space (rev s) @ dropWhile is_space (rev s)" by simp
  then have "s = rev (dropWhile is_space (rev s)) @ rev (takeWhile is_space (rev s))"
    by (metis rev_append rev_rev_ident)
  then show ?thesis unfolding rstrip_def by blast
qed

lemma strip_idem [simp]: "strip (strip s) = strip s"
proof -
  let ?t = "lstrip s"
  obtain u where u: "?t = rstrip ?t @ u" using rstrip_prefix by blast
  have "lstrip ?t = ?t" by (simp add: lstrip_def)
  then have t: "?t = [] \<or> \<not> is_space (hd ?t)" by (simp only: lstrip_fix)
  have "rstrip ?t = [] \<or> \<not> is_space (hd (rstrip ?t))"
  proof (cases "rstrip ?t")
    case (Cons c cs)
    with u have "hd ?t = c" "?t \<noteq> []" by (metis append_Cons list.sel(1), metis append_Cons list.discI)
    with t Cons show ?thesis by simp
  qed simp
  then have "lstrip (rstrip ?t) = rstrip ?t" by (simp only: lstrip_fix)
  then show ?thesis by (simp add: strip_def rstrip_def)
qed

lemma split_first_append: "c \<notin> set s \<Longrightarrow> split_first c (s @ c # t) = (s, Some t)"
  by (induction s) auto

lemma split_first_None: "c \<notin> set s \<Longrightarrow> split_first c s = (s, None)"
  by (induction s) auto

lemma split_ws_from_token:
  "(\<forall>c \<in> set w. \<not> is_space c) \<Longrightarrow> split_ws_from t (w @ s) = split_ws_from (t @ w) s"
  by (induction w arbitrary: t) auto

lemma replace_char_append [simp]:
  "replace_char c t (xs @ ys) = replace_char c t xs @ replace_char c t ys"
  by (induction xs) auto

lemma replace_char_notin: "c \<notin> set s \<Longrightarrow> replace_char c t s = s"
  by (induction s) auto

lemma show_nat_nonempty [simp]: "show_nat n \<noteq> []"
  by (subst show_nat.simps) simp

lemma is_digit_digit_char: "d < 10 \<Longrightarrow> is_digit (digit_char d)"
  by (simp add: is_digit_def digit_char_def code_def Let_def)

lemma digits_show_nat: "\<forall>c \<in> set (show_nat n). is_digit c"
proof (induction n rule: show_nat.induct)
  case (1 n)
  then show ?case
    by (cases "n < 10") (simp_all add: show_nat.simps[of n] is_digit_digit_char)
qed

fun read_digits :: "nat \<Rightarrow> string \<Rightarrow> nat" where
  "read_digits acc [] = acc"
| "read_digits acc (c # s) = read_digits (10 * acc + (code c - 48)) s"

lemma read_digits_append: "read_digits acc (s @ t) = read_digits (read_digits acc s) t"
  by (induction s arbitrary: acc) auto

lemma read_digit_char: "d < 10 \<Longrightarrow> read_digits acc [digit_char d] = 10 * acc + d"
  by (simp add: digit_char_def code_def)

lemma read_show_nat: "read_digits 0 (show_nat n) = n"
proof (induction n rule: show_nat.induct)
  case (1 n)
  show ?case
  proof (cases "n < 10")
    case True
    then show ?thesis using read_digit_char[of n 0] by (simp add: show_nat.simps[of n])
  next
    case False
    then have "read_digits 0 (show_nat n) = 10 * read_digits 0 (show_nat (n div 10)) + n mod 10"
      using read_digit_char[of "n mod 10"] by (simp add: show_nat.simps[of n] read_digits_append)
    then show ?thesis using 1 False by simp
  qed
qed

lemma show_nat_inj: "show_nat m = show_nat n \<longleftrightarrow> m = n"
  by (metis read_show_nat)

end
