(* ===== verification/Keywords.thy ===== *)
theory Keywords
  imports Strings
begin

text \<open>
  \<open>prediction/keyword_table.py\<close>: the keywords found in a trigger text, as the start of a
  word, and the action types each of them suggests.
\<close>

section \<open>Definitions\<close>

definition DEFAULT_MAPPINGS :: "(string \<times> string list) list" where
  "DEFAULT_MAPPINGS = [
    (''sprint'', [''view_sprint_board'', ''close_sprint'', ''create_sprint'']),
    (''review'', [''submit_performance_review'', ''view_performance_review'']),
    (''leave'', [''approve_leave_request'', ''submit_leave_request'', ''view_leave_balance'']),
    (''bug'', [''log_bug'', ''update_issue_status'', ''view_issue'']),
    (''timesheet'', [''submit_timesheet'', ''approve_timesheet'', ''view_timesheet'']),
    (''travel'', [''create_travel_request'', ''submit_expense_report'']),
    (''expense'', [''submit_expense_report'', ''approve_expense_report'']),
    (''hire'', [''create_requisition'', ''review_application'', ''schedule_interview'']),
    (''candidate'', [''review_application'', ''shortlist_candidate'']),
    (''deploy'', [''create_release'', ''merge_pull_request'']),
    (''incident'', [''create_incident'', ''escalate_incident'', ''resolve_incident''])]"

fun search_word_start :: "bool \<Rightarrow> string \<Rightarrow> string \<Rightarrow> bool" where
  \<comment> \<open>\<open>re.search\<close> of a boundary followed by the keyword and any word characters, with
    whether the character before is a word character\<close>
  "search_word_start prev kw [] = (kw = [] \<and> prev)"
| "search_word_start prev kw (c # s) =
     ((is_word c \<noteq> prev \<and> starts_with kw (c # s)) \<or> search_word_start (is_word c) kw s)"

definition keyword_found :: "string \<Rightarrow> string \<Rightarrow> bool" where
  "keyword_found kw lowered = search_word_start False kw lowered"

definition add_actions :: "string \<Rightarrow> string list \<Rightarrow> (string, string) pydict \<Rightarrow> (string, string) pydict" where
  "add_actions kw action_types d = fold (\<lambda>a. dict_setdefault a kw) action_types d"

definition match_keywords ::
  "(string \<times> string list) list \<Rightarrow> string option \<Rightarrow> (string, string) pydict" where
  "match_keywords mappings trigger_text = (case trigger_text of
     None \<Rightarrow> []
   | Some t \<Rightarrow> if t = [] then []
       else let lowered = str_lower t
            in fold (\<lambda>(kw, action_types) d.
                 if keyword_found kw lowered then add_actions kw action_types d else d) mappings [])"

section \<open>The search\<close>

lemma search_word_start_iff:
  assumes "kw \<noteq> []"
  shows "search_word_start prev kw s \<longleftrightarrow> (\<exists>a b. s = a @ kw @ b \<and>
    is_word (hd kw) \<noteq> (if a = [] then prev else is_word (last a)))"
  using assms
proof (induction prev kw s rule: search_word_start.induct)
  case (2 prev kw c s)
  note ne = "2.prems" and IH = "2.IH"[OF "2.prems"]
  show ?case (is "?L \<longleftrightarrow> ?R")
  proof
    assume ?L
    then consider "is_word c \<noteq> prev" "starts_with kw (c # s)" | "search_word_start (is_word c) kw s" by auto
    then show ?R
    proof cases
      case 1
      then obtain t where t: "c # s = kw @ t" by (auto simp: starts_with_iff)
      with ne have "hd kw = c" by (cases kw) simp_all
      then show ?thesis using 1 t by (intro exI[of _ "[]"] exI[of _ t]) simp
    next
      case 2
      then obtain a b where ab: "s = a @ kw @ b"
        "is_word (hd kw) \<noteq> (if a = [] then is_word c else is_word (last a))"
        using IH by auto
      then show ?thesis by (intro exI[of _ "c # a"] exI[of _ b]) auto
    qed
  next
    assume ?R
    then obtain a b where ab: "c # s = a @ kw @ b"
      "is_word (hd kw) \<noteq> (if a = [] then prev else is_word (last a))" by blast
    show ?L
    proof (cases a)
      case Nil
      with ab ne have "hd kw = c" by (cases kw) simp_all
      moreover have "starts_with kw (c # s)" using ab Nil by simp
      ultimately have "is_word c \<noteq> prev \<and> starts_with kw (c # s)" using ab Nil by simp
      then show ?thesis by simp
    next
      case (Cons x a')
      have "s = a' @ kw @ b" using ab(1) Cons by simp
      moreover have "is_word (hd kw) \<noteq> (if a' = [] then is_word c else is_word (last a'))"
        using ab Cons by (cases "a' = []") simp_all
      ultimately have "search_word_start (is_word c) kw s" unfolding IH by blast
      then show ?thesis by simp
    qed
  qed
qed auto

section \<open>The matches\<close>

lemma map_of_add_actions:
  "map_of (add_actions kw as d) a =
     (case map_of d a of Some k \<Rightarrow> Some k | None \<Rightarrow> if a \<in> set as then Some kw else None)"
  unfolding add_actions_def
  by (induction as arbitrary: d) (auto simp: dict_simps split: option.splits)

lemma map_of_match_fold:
  "map_of (fold (\<lambda>(kw, as) d. if P kw then add_actions kw as d else d) ms d) a =
     (case map_of d a of Some k \<Rightarrow> Some k
      | None \<Rightarrow> map_option fst (find (\<lambda>(kw, as). P kw \<and> a \<in> set as) ms))"
proof (induction ms arbitrary: d)
  case (Cons m ms)
  then show ?case by (cases m) (auto simp: map_of_add_actions split: option.splits)
qed (simp split: option.split)

lemma match_lookup:
  "map_of (match_keywords mappings (Some t)) a =
     (if t = [] then None else map_option fst
        (find (\<lambda>(kw, as). keyword_found kw (str_lower t) \<and> a \<in> set as) mappings))"
  by (simp add: match_keywords_def map_of_match_fold Let_def)

section \<open>Properties\<close>

text \<open>
  C21: the keyword reported for an action type is the first of the table that starts a word of
  the lowercased trigger text and lists the action type; a keyword is found exactly where a
  boundary between a word character and another one stands before it.
\<close>

theorem keyword_of_action:
  "(t \<noteq> [] \<longrightarrow> map_of (match_keywords mappings (Some t)) a = map_option fst
      (find (\<lambda>(kw, as). keyword_found kw (str_lower t) \<and> a \<in> set as) mappings)) \<and>
   (kw \<noteq> [] \<longrightarrow> keyword_found kw s = (\<exists>x y. s = x @ kw @ y \<and>
      is_word (hd kw) \<noteq> (x \<noteq> [] \<and> is_word (last x))))"
proof -
  have e: "(if x = [] then False else is_word (last x)) = (x \<noteq> [] \<and> is_word (last x))" for x by simp
  show ?thesis unfolding keyword_found_def
    using match_lookup[of mappings t a, unfolded keyword_found_def] search_word_start_iff[of kw False s, unfolded e] by simp
qed

theorem keyword_of_action_witness:
  "map_of (match_keywords DEFAULT_MAPPINGS (Some ''My Sprints'')) ''close_sprint''
   = map_option fst (find (\<lambda>(kw, as). keyword_found kw (str_lower ''My Sprints'') \<and> ''close_sprint'' \<in> set as)
       DEFAULT_MAPPINGS)
   \<and> map_of (match_keywords DEFAULT_MAPPINGS (Some ''My Sprints'')) ''close_sprint'' = Some ''sprint''"
proof -
  have "map_of (match_keywords DEFAULT_MAPPINGS (Some ''My Sprints'')) ''close_sprint'' = Some ''sprint''" by code_simp
  then show ?thesis
    using keyword_of_action[of "''My Sprints''" DEFAULT_MAPPINGS "''close_sprint''" "''sprint''" "''my sprints''"] by simp
qed

end
