(* ===== verification/PyValues.thy ===== *)
theory PyValues
  imports Strings
begin

text \<open>
  Python values as the code meets them: decoded JSON, truth values, item access with its
  exceptions, \<open>str()\<close>, and the exceptions of \<open>core/exceptions.py\<close> beside the built-in
  ones. A float is given by its shortest decimal, mantissa and exponent of ten, which is what
  its \<open>repr\<close> prints; infinities, NaN and negative zero are outside the model.
\<close>

section \<open>Exceptions\<close>

datatype py_error =
    KeyError string
  | TypeError
  | AttributeError
  | IndexError
  | ValueError string
  | NotImplementedError
  | AssertionError
  | OverflowError
  | UnicodeDecodeError
  | SchemaValidationError "string list"
  | DuplicateEventError string
  | TenantMismatchError
  | UserNotFoundError string
  | InsufficientDataError string int int
  | ServiceUnavailable
  | DatabaseError
  | ConstraintError
  | HTTPStatusError nat
  | TransportError
  | EventValidationError string
  | HTTPException nat string
  | RequestValidationError string
  | ModelValidationError
  | FileNotFoundError string
  | SystemExit string

definition is_context_engine_error :: "py_error \<Rightarrow> bool" where
  \<comment> \<open>the subclasses of \<open>ContextEngineError\<close>\<close>
  "is_context_engine_error e = (case e of
     SchemaValidationError _ \<Rightarrow> True | DuplicateEventError _ \<Rightarrow> True
   | TenantMismatchError \<Rightarrow> True | UserNotFoundError _ \<Rightarrow> True
   | InsufficientDataError _ _ _ \<Rightarrow> True | _ \<Rightarrow> False)"

definition error_message :: "py_error \<Rightarrow> string" where
  \<comment> \<open>the message each constructor of a domain error hands to \<open>Exception\<close>\<close>
  "error_message e = (case e of
     SchemaValidationError es \<Rightarrow> join ''; '' es
   | DuplicateEventError i \<Rightarrow> ''event '' @ [CHR 0x27] @ i @ [CHR 0x27] @ '' already exists''
   | UserNotFoundError u \<Rightarrow> ''user '' @ [CHR 0x27] @ u @ [CHR 0x27] @ '' not found''
   | InsufficientDataError u n m \<Rightarrow>
       ''user '' @ [CHR 0x27] @ u @ [CHR 0x27] @ '' has '' @ show_int n @
       '' events; profile generation requires at least '' @ show_int m
   | _ \<Rightarrow> [])"

section \<open>JSON values\<close>

datatype json =
    JNull
  | JBool bool
  | JInt int
  | JFloat int int
  | JStr string
  | JList "json list"
  | JObj "(string \<times> json) list"

fun truthy :: "json \<Rightarrow> bool" where
  "truthy JNull = False"
| "truthy (JBool b) = b"
| "truthy (JInt i) = (i \<noteq> 0)"
| "truthy (JFloat m e) = (m \<noteq> 0)"
| "truthy (JStr s) = (s \<noteq> [])"
| "truthy (JList xs) = (xs \<noteq> [])"
| "truthy (JObj d) = (d \<noteq> [])"

fun is_dict :: "json \<Rightarrow> bool" where
  "is_dict (JObj d) = True"
| "is_dict _ = False"

fun is_str :: "json \<Rightarrow> bool" where
  "is_str (JStr s) = True"
| "is_str _ = False"

definition py_or :: "json \<Rightarrow> json \<Rightarrow> json" where
  \<comment> \<open>\<open>a or b\<close>\<close>
  "py_or a b = (if truthy a then a else b)"

definition py_item :: "string \<Rightarrow> json \<Rightarrow> py_error + json" where
  \<comment> \<open>\<open>j[k]\<close> with a string key\<close>
  "py_item k j = (case j of
     JObj d \<Rightarrow> (case map_of d k of None \<Rightarrow> Inl (KeyError k) | Some v \<Rightarrow> Inr v)
   | _ \<Rightarrow> Inl TypeError)"

definition py_get :: "string \<Rightarrow> json \<Rightarrow> py_error + json" where
  \<comment> \<open>\<open>j.get(k)\<close>\<close>
  "py_get k j = (case j of
     JObj d \<Rightarrow> Inr (case map_of d k of None \<Rightarrow> JNull | Some v \<Rightarrow> v)
   | _ \<Rightarrow> Inl AttributeError)"

definition dget :: "string \<Rightarrow> (string \<times> json) list \<Rightarrow> json" where
  \<comment> \<open>\<open>d.get(k)\<close> on a dictionary\<close>
  "dget k d = (case map_of d k of None \<Rightarrow> JNull | Some v \<Rightarrow> v)"

definition py_iter :: "json \<Rightarrow> py_error + json list" where
  \<comment> \<open>the elements \<open>for x in j\<close> visits\<close>
  "py_iter j = (case j of
     JList xs \<Rightarrow> Inr xs
   | JObj d \<Rightarrow> Inr (map (\<lambda>p. JStr (fst p)) d)
   | JStr s \<Rightarrow> Inr (map (\<lambda>c. JStr [c]) s)
   | _ \<Rightarrow> Inl TypeError)"

definition py_len :: "json \<Rightarrow> py_error + nat" where
  "py_len j = (case j of
     JList xs \<Rightarrow> Inr (length xs) | JObj d \<Rightarrow> Inr (length d) | JStr s \<Rightarrow> Inr (length s)
   | _ \<Rightarrow> Inl TypeError)"

definition py_item0 :: "json \<Rightarrow> py_error + json" where
  \<comment> \<open>\<open>j[0]\<close>\<close>
  "py_item0 j = (case j of
     JList xs \<Rightarrow> (case xs of [] \<Rightarrow> Inl IndexError | x # _ \<Rightarrow> Inr x)
   | JStr s \<Rightarrow> (case s of [] \<Rightarrow> Inl IndexError | c # _ \<Rightarrow> Inr (JStr [c]))
   | JObj d \<Rightarrow> Inl (KeyError ''0'')
   | _ \<Rightarrow> Inl TypeError)"

lemma py_item_JObj [simp]:
  "py_item k (JObj d) = (case map_of d k of None \<Rightarrow> Inl (KeyError k) | Some v \<Rightarrow> Inr v)"
  by (simp add: py_item_def)

lemma py_get_JObj [simp]: "py_get k (JObj d) = Inr (dget k d)"
  by (simp add: py_get_def dget_def)

section \<open>Text of a value\<close>

definition hex_char :: "nat \<Rightarrow> char" where
  "hex_char d = (if d < 10 then char_of (48 + d) else char_of (87 + d))"

definition repr_char :: "char \<Rightarrow> char \<Rightarrow> string" where
  \<comment> \<open>one character inside a string literal delimited by \<open>q\<close>\<close>
  "repr_char q c = (let n = code c
     in if c = q \<or> n = 92 then [CHR 0x5C, c]
        else if n = 9 then [CHR 0x5C, CHR ''t'']
        else if n = 10 then [CHR 0x5C, CHR ''n'']
        else if n = 13 then [CHR 0x5C, CHR ''r'']
        else if n < 32 \<or> 127 \<le> n \<and> n \<le> 160 \<or> n = 173
          then [CHR 0x5C, CHR ''x'', hex_char (n div 16), hex_char (n mod 16)]
        else [c])"

definition repr_str :: "string \<Rightarrow> string" where
  "repr_str s = (let q = (if CHR 0x27 \<in> set s \<and> CHR 0x22 \<notin> set s then CHR 0x22 else CHR 0x27)
     in [q] @ concat (map (repr_char q) s) @ [q])"

definition repr_float :: "int \<Rightarrow> int \<Rightarrow> string" where
  "repr_float m e =
     (let sign = (if m < 0 then ''-'' else []); ds = show_nat (nat \<bar>m\<bar>);
          n = int (length ds); p = n + e
      in if m = 0 then ''0.0''
         else if - 4 < p \<and> p \<le> 16 then
           (if p \<le> 0 then sign @ ''0.'' @ replicate (nat (- p)) (CHR ''0'') @ ds
            else if n \<le> p then sign @ ds @ replicate (nat (p - n)) (CHR ''0'') @ ''.0''
            else sign @ take (nat p) ds @ ''.'' @ drop (nat p) ds)
         else sign @ take 1 ds @ (if n > 1 then ''.'' @ drop 1 ds else []) @ ''e'' @
           (if p - 1 < 0 then ''-'' else ''+'') @ zfill 2 (show_nat (nat \<bar>p - 1\<bar>)))"

fun py_repr :: "json \<Rightarrow> string" where
  "py_repr JNull = ''None''"
| "py_repr (JBool b) = (if b then ''True'' else ''False'')"
| "py_repr (JInt i) = show_int i"
| "py_repr (JFloat m e) = repr_float m e"
| "py_repr (JStr s) = repr_str s"
| "py_repr (JList xs) = ''['' @ join '', '' (map py_repr xs) @ '']''"
| "py_repr (JObj d) =
     ''{'' @ join '', '' (map (\<lambda>(k, v). repr_str k @ '': '' @ py_repr v) d) @ ''}''"

definition py_str :: "json \<Rightarrow> string" where
  "py_str j = (case j of JStr s \<Rightarrow> s | _ \<Rightarrow> py_repr j)"

lemma py_str_JStr [simp]: "py_str (JStr s) = s"
  by (simp add: py_str_def)

lemma repr_str_nonempty [simp]: "repr_str s \<noteq> []"
  by (simp add: repr_str_def Let_def)

lemma show_int_nonempty [simp]: "show_int k \<noteq> []"
  by (simp add: show_int_def)

lemma repr_float_nonempty [simp]: "repr_float m e \<noteq> []"
  by (auto simp: repr_float_def Let_def)

lemma py_str_nonempty: "truthy j \<Longrightarrow> py_str j \<noteq> []"
  by (cases j) (auto simp: py_str_def)

end
