(* ===== verification/Timestamps.thy ===== *)
theory Timestamps
  imports PyValues
begin

text \<open>
  Python's \<open>datetime\<close>: a wall-clock reading in microseconds since 1970-01-01T00:00 on that
  clock, with the offset of the clock from UTC when the value is aware and none when it is
  naive. Comparing an aware with a naive value raises \<open>TypeError\<close>.
\<close>

datatype pydatetime = DateTime (dt_local: int) (dt_offset: "int option")

definition us_per_second :: int where
  "us_per_second = 1000000"

definition us_per_minute :: int where
  "us_per_minute = 60000000"

definition us_per_hour :: int where
  "us_per_hour = 3600000000"

definition us_per_day :: int where
  "us_per_day = 86400000000"

lemmas us_defs = us_per_second_def us_per_minute_def us_per_hour_def us_per_day_def

definition utc :: "int \<Rightarrow> pydatetime" where
  \<comment> \<open>the aware value of an instant, as \<open>datetime.now(timezone.utc)\<close> returns\<close>
  "utc t = DateTime t (Some 0)"

definition is_aware :: "pydatetime \<Rightarrow> bool" where
  "is_aware d = (dt_offset d \<noteq> None)"

definition as_aware :: "pydatetime \<Rightarrow> pydatetime" where
  "as_aware d = (case dt_offset d of None \<Rightarrow> DateTime (dt_local d) (Some 0) | Some _ \<Rightarrow> d)"

definition dt_instant :: "pydatetime \<Rightarrow> int" where
  \<comment> \<open>microseconds since the epoch, a naive value read as UTC\<close>
  "dt_instant d = (case dt_offset d of None \<Rightarrow> dt_local d | Some z \<Rightarrow> dt_local d - z)"

definition dt_gt :: "pydatetime \<Rightarrow> pydatetime \<Rightarrow> py_error + bool" where
  \<comment> \<open>\<open>a > b\<close>\<close>
  "dt_gt a b = (if is_aware a = is_aware b then Inr (dt_instant a > dt_instant b)
     else Inl TypeError)"

definition dt_hour :: "pydatetime \<Rightarrow> nat" where
  "dt_hour d = nat (dt_local d div us_per_hour mod 24)"

definition seconds_between :: "pydatetime \<Rightarrow> pydatetime \<Rightarrow> real" where
  \<comment> \<open>\<open>(later - earlier).total_seconds()\<close>\<close>
  "seconds_between earlier later = of_int (dt_instant later - dt_instant earlier) / 1000000"

lemma dt_instant_utc [simp]: "dt_instant (utc t) = t"
  by (simp add: dt_instant_def utc_def)

lemma dt_instant_as_aware [simp]: "dt_instant (as_aware d) = dt_instant d"
  by (auto simp: dt_instant_def as_aware_def split: option.splits)

lemma is_aware_as_aware [simp]: "is_aware (as_aware d)"
  by (auto simp: is_aware_def as_aware_def split: option.splits)

lemma is_aware_utc [simp]: "is_aware (utc t)"
  by (simp add: is_aware_def utc_def)

lemma as_aware_idem [simp]: "as_aware (as_aware d) = as_aware d"
  by (auto simp: as_aware_def split: option.splits)

lemma as_aware_aware [simp]: "is_aware d \<Longrightarrow> as_aware d = d"
  by (auto simp: as_aware_def is_aware_def split: option.splits)

lemma dt_hour_lt: "dt_hour d < 24"
proof -
  have "0 \<le> dt_local d div us_per_hour mod 24 \<and> dt_local d div us_per_hour mod 24 < 24" by simp
  then show ?thesis unfolding dt_hour_def by linarith
qed

end
