(* ===== verification/GraphModel.thy ===== *)
theory GraphModel
  imports Timestamps
begin

text \<open>
  The data of the knowledge graph: the nodes and relationships that the Cypher text of
  \<open>core/graph_queries.py\<close> creates, the parameters of a write, the rows a history query
  returns, and the two update forms the queries use, \<open>MERGE\<close> on nodes and on
  relationships. Nodes are kept in lists in creation order; that their keys are distinct is an
  invariant proved later, not a property of the representation.
\<close>

section \<open>Nodes and relationships\<close>

type_synonym user_ref = "string \<times> string \<times> string"
  \<comment> \<open>tenantId, applicationId, nativeUserId\<close>
type_synonym app_ref = "string \<times> string \<times> string"
  \<comment> \<open>tenantId, applicationId, applicationInstanceId\<close>
type_synonym object_node_ref = "string \<times> string \<times> string \<times> string"
  \<comment> \<open>tenantId, applicationId, objectType, objectId\<close>

record user_node =
  u_tenantId :: string
  u_applicationId :: string
  u_nativeUserId :: string
  u_userIdType :: string
  u_canonicalUserId :: "string option"
  u_roles :: "string list"
  u_firstSeen :: pydatetime
  u_lastSeen :: pydatetime
  u_nlqProfile :: "string option"
  u_profileGeneratedAt :: "pydatetime option"
  u_profileVersion :: "int option"

record object_node =
  o_tenantId :: string
  o_applicationId :: string
  o_objectType :: string
  o_objectId :: string
  o_firstSeen :: pydatetime
  o_lastSeen :: pydatetime

record performed_edge =
  r_user :: user_ref
  r_object :: object_node_ref
  r_eventId :: string
  r_actionType :: string
  r_actionCategory :: string
  r_eventTimestamp :: pydatetime
  r_metadata :: "json option"
  r_environment :: string
  r_sessionId :: "string option"
  r_correlationId :: "string option"
  r_device :: "string option"

record same_person_edge =
  s_from :: user_ref
  s_to :: user_ref
  s_resolvedAt :: pydatetime
  s_confidence :: real
  s_method :: string

record graph =
  users :: "user_node list"
  apps :: "app_ref list"
  objects :: "object_node list"
  belongs_to :: "(user_ref \<times> app_ref) list"
  contains_obj :: "(app_ref \<times> object_node_ref) list"
  performed :: "performed_edge list"
  same_person :: "same_person_edge list"
  ddl :: "string list"  \<comment> \<open>names of the indexes and constraints created\<close>

definition empty_graph :: graph where
  "empty_graph = \<lparr>users = [], apps = [], objects = [], belongs_to = [], contains_obj = [],
     performed = [], same_person = [], ddl = []\<rparr>"

definition user_key :: "user_node \<Rightarrow> user_ref" where
  "user_key u = (u_tenantId u, u_applicationId u, u_nativeUserId u)"

definition object_key :: "object_node \<Rightarrow> object_node_ref" where
  "object_key ob = (o_tenantId ob, o_applicationId ob, o_objectType ob, o_objectId ob)"

definition event_ids :: "graph \<Rightarrow> string list" where
  "event_ids g = map r_eventId (performed g)"

section \<open>Parameters and rows\<close>

record write_params =
  p_applicationId :: string
  p_applicationInstanceId :: string
  p_nativeUserId :: string
  p_userIdType :: string
  p_canonicalUserId :: "string option"
  p_roles :: "string list"
  p_objectType :: string
  p_objectId :: string
  p_eventId :: string
  p_actionType :: string
  p_actionCategory :: string
  p_eventTimestamp :: string
  p_metadata :: "json option"
  p_environment :: string
  p_sessionId :: "string option"
  p_correlationId :: "string option"
  p_device :: "string option"

record history_row =
  h_eventId :: string
  h_actionType :: string
  h_actionCategory :: string
  h_eventTimestamp :: pydatetime
  h_metadata :: "json option"
  h_environment :: string
  h_sessionId :: "string option"
  h_correlationId :: "string option"
  h_device :: "string option"
  h_applicationId :: string
  h_objectType :: string
  h_objectId :: string

definition history_row_of :: "user_node \<Rightarrow> performed_edge \<Rightarrow> object_node \<Rightarrow> history_row" where
  \<comment> \<open>the \<open>RETURN\<close> clause shared by the history queries\<close>
  "history_row_of u r ob = \<lparr>h_eventId = r_eventId r, h_actionType = r_actionType r,
     h_actionCategory = r_actionCategory r, h_eventTimestamp = r_eventTimestamp r,
     h_metadata = r_metadata r, h_environment = r_environment r, h_sessionId = r_sessionId r,
     h_correlationId = r_correlationId r, h_device = r_device r,
     h_applicationId = u_applicationId u, h_objectType = o_objectType ob,
     h_objectId = o_objectId ob\<rparr>"

section \<open>MERGE\<close>

definition merge_node :: "('n \<Rightarrow> 'k) \<Rightarrow> 'k \<Rightarrow> ('n \<Rightarrow> 'n) \<Rightarrow> 'n \<Rightarrow> 'n list \<Rightarrow> 'n list" where
  \<comment> \<open>\<open>MERGE (n {key}) ON CREATE SET fresh ON MATCH SET on_match\<close>\<close>
  "merge_node key k on_match fresh ns =
     (if k \<in> key ` set ns then map (\<lambda>n. if key n = k then on_match n else n) ns
      else ns @ [fresh])"

definition merge_edge :: "'e \<Rightarrow> 'e list \<Rightarrow> 'e list" where
  "merge_edge e es = (if e \<in> set es then es else es @ [e])"

lemma set_merge_edge [simp]: "set (merge_edge e es) = insert e (set es)"
  by (auto simp: merge_edge_def)

lemma distinct_merge_edge [simp]: "distinct (merge_edge e es) = distinct es"
  by (auto simp: merge_edge_def)

lemma filter_merge_edge: "\<not> P e \<Longrightarrow> filter P (merge_edge e es) = filter P es"
  by (simp add: merge_edge_def)

lemma merge_edge_idem [simp]: "merge_edge e (merge_edge e es) = merge_edge e es"
  by (simp add: merge_edge_def)

text \<open>What \<open>MERGE\<close> promises when the update keeps the key and a fresh node has it.\<close>

locale merge_key =
  fixes key :: "'n \<Rightarrow> 'k" and k :: 'k and on_match :: "'n \<Rightarrow> 'n" and fresh :: 'n
  assumes keep [simp]: "key (on_match n) = key n" and key_fresh [simp]: "key fresh = k"
begin

lemma map_keys_merge:
  "map key (merge_node key k on_match fresh ns)
     = (if k \<in> key ` set ns then map key ns else map key ns @ [k])"
  by (simp add: merge_node_def)

lemma keys_merge: "key ` set (merge_node key k on_match fresh ns) = insert k (key ` set ns)"
proof -
  have "key ` set (merge_node key k on_match fresh ns)
      = set (map key (merge_node key k on_match fresh ns))" by simp
  then show ?thesis unfolding map_keys_merge by auto
qed

lemma distinct_merge:
  "distinct (map key (merge_node key k on_match fresh ns)) = distinct (map key ns)"
  unfolding map_keys_merge by auto

lemma filter_merge:
  assumes "\<And>n. key n = k \<Longrightarrow> \<not> P n"
  shows "filter P (merge_node key k on_match fresh ns) = filter P ns"
proof -
  have "filter P (map (\<lambda>n. if key n = k then on_match n else n) ns) = filter P ns"
    by (induction ns) (auto simp: assms)
  then show ?thesis by (simp add: merge_node_def assms)
qed

lemma in_merge:
  "n \<in> set (merge_node key k on_match fresh ns) \<longleftrightarrow>
     n \<in> set ns \<and> key n \<noteq> k \<or> (\<exists>m \<in> set ns. key m = k \<and> n = on_match m) \<or>
     n = fresh \<and> k \<notin> key ` set ns"
  by (auto simp: merge_node_def)

end

lemma distinct_key_unique:
  "distinct (map key ns) \<Longrightarrow> m \<in> set ns \<Longrightarrow> n \<in> set ns \<Longrightarrow> key m = key n \<Longrightarrow> m = n"
  by (auto simp: distinct_map dest: inj_onD)

lemma find_by_key:
  "distinct (map key ns) \<Longrightarrow> n \<in> set ns \<Longrightarrow> find (\<lambda>x. key x = key n) ns = Some n"
  by (induction ns) (auto simp: image_iff)

lemma find_key_None: "find (\<lambda>x. key x = k) ns = None \<longleftrightarrow> k \<notin> key ` set ns"
  by (auto simp: find_None_iff image_iff)

lemma find_key_Some: "find (\<lambda>x. key x = k) ns = Some n \<Longrightarrow> n \<in> set ns \<and> key n = k"
  by (metis (mono_tags, lifting) find_Some_iff nth_mem)

end
