(* ===== verification/GraphQueries.thy ===== *)
theory GraphQueries
  imports GraphModel
begin

text \<open>
  \<open>core/graph_queries.py\<close>: the Cypher text of each query, character for character, and
  what the text does to a graph or reads from it. Cypher leaves the order of rows open where a
  query has no \<open>ORDER BY\<close> and among rows that compare equal; the engine's order is a
  parameter (\<open>scan_users\<close>, \<open>scan_rows\<close>), and so is its parser of date-times
  (\<open>cypher_datetime\<close>, \<open>None\<close> when the server rejects the text).
\<close>

section \<open>Texts\<close>

definition newline :: string where
  "newline = [CHR 0x0A]"

definition cypher :: "string list \<Rightarrow> string" where
  "cypher ls = join newline ls"

definition WRITE_EVENT_text :: string where
  "WRITE_EVENT_text = cypher [[],
     ''MERGE (u:User {tenantId: $tenantId, applicationId: $applicationId, nativeUserId: $nativeUserId})'',
     ''ON CREATE SET'',
     ''    u.userIdType = $userIdType,'',
     ''    u.canonicalUserId = $canonicalUserId,'',
     ''    u.roles = $roles,'',
     ''    u.firstSeen = datetime($eventTimestamp),'',
     ''    u.lastSeen = datetime($eventTimestamp)'',
     ''ON MATCH SET'',
     ''    u.userIdType = $userIdType,'',
     ''    u.canonicalUserId = coalesce($canonicalUserId, u.canonicalUserId),'',
     ''    u.roles = $roles,'',
     ''    u.lastSeen = CASE'',
     ''        WHEN datetime($eventTimestamp) > u.lastSeen THEN datetime($eventTimestamp)'',
     ''        ELSE u.lastSeen'',
     ''    END'',
     ''WITH u'',
     ''MERGE (a:Application {'',
     ''    tenantId: $tenantId,'',
     ''    applicationId: $applicationId,'',
     ''    applicationInstanceId: $applicationInstanceId'',
     ''})'',
     ''MERGE (u)-[:BELONGS_TO]->(a)'',
     ''WITH u, a'',
     ''MERGE (o:BusinessObject {'',
     ''    tenantId: $tenantId,'',
     ''    applicationId: $applicationId,'',
     ''    objectType: $objectType,'',
     ''    objectId: $objectId'',
     ''})'',
     ''ON CREATE SET o.firstSeen = datetime($eventTimestamp), o.lastSeen = datetime($eventTimestamp)'',
     ''ON MATCH SET o.lastSeen = CASE'',
     ''    WHEN datetime($eventTimestamp) > o.lastSeen THEN datetime($eventTimestamp)'',
     ''    ELSE o.lastSeen'',
     ''END'',
     ''MERGE (a)-[:CONTAINS]->(o)'',
     ''WITH u, o'',
     ''CREATE (u)-[r:PERFORMED {'',
     ''    eventId: $eventId,'',
     ''    actionType: $actionType,'',
     ''    actionCategory: $actionCategory,'',
     ''    eventTimestamp: datetime($eventTimestamp),'',
     ''    metadata: $metadata,'',
     ''    environment: $environment,'',
     ''    sessionId: $sessionId,'',
     ''    correlationId: $correlationId,'',
     ''    device: $device'',
     ''}]->(o)'',
     ''RETURN r.eventId AS eventId'',
     []]"

definition USER_HISTORY_text :: string where
  "USER_HISTORY_text = cypher [[],
     ''MATCH (u:User {tenantId: $tenantId, nativeUserId: $userId})-[r:PERFORMED]->(o:BusinessObject)'',
     ''WHERE r.eventTimestamp >= datetime() - duration({days: $days})'',
     ''RETURN'',
     ''    r.eventId AS eventId,'',
     ''    r.actionType AS actionType,'',
     ''    r.actionCategory AS actionCategory,'',
     ''    r.eventTimestamp AS eventTimestamp,'',
     ''    r.metadata AS metadata,'',
     ''    r.environment AS environment,'',
     ''    r.sessionId AS sessionId,'',
     ''    r.correlationId AS correlationId,'',
     ''    r.device AS device,'',
     ''    u.applicationId AS applicationId,'',
     ''    o.objectType AS objectType,'',
     ''    o.objectId AS objectId'',
     ''ORDER BY r.eventTimestamp DESC'',
     []]"

definition USER_HISTORY_LIMITED_text :: string where
  "USER_HISTORY_LIMITED_text = USER_HISTORY_text @ ''LIMIT $limit'' @ newline"

definition CROSS_APP_HISTORY_text :: string where
  "CROSS_APP_HISTORY_text = cypher [[],
     ''MATCH (u:User {tenantId: $tenantId, canonicalUserId: $canonicalUserId})'',
     ''MATCH (u)-[r:PERFORMED]->(o:BusinessObject)'',
     ''WHERE r.eventTimestamp >= datetime() - duration({days: $days})'',
     ''RETURN'',
     ''    r.eventId AS eventId,'',
     ''    r.actionType AS actionType,'',
     ''    r.actionCategory AS actionCategory,'',
     ''    r.eventTimestamp AS eventTimestamp,'',
     ''    r.metadata AS metadata,'',
     ''    r.environment AS environment,'',
     ''    r.sessionId AS sessionId,'',
     ''    r.correlationId AS correlationId,'',
     ''    r.device AS device,'',
     ''    u.applicationId AS applicationId,'',
     ''    o.objectType AS objectType,'',
     ''    o.objectId AS objectId'',
     ''ORDER BY r.eventTimestamp DESC'',
     []]"

definition USER_ACTION_PATTERN_text :: string where
  "USER_ACTION_PATTERN_text = cypher [[],
     ''MATCH (u:User {tenantId: $tenantId, nativeUserId: $userId})'',
     ''MATCH (u)-[r:PERFORMED {actionType: $actionType}]->(o:BusinessObject)'',
     ''RETURN count(r) AS occurrenceCount, max(r.eventTimestamp) AS lastOccurred'',
     []]"

definition CANONICAL_USER_ID_text :: string where
  "CANONICAL_USER_ID_text = cypher [[],
     ''MATCH (u:User {tenantId: $tenantId, nativeUserId: $userId})'',
     ''WHERE u.canonicalUserId IS NOT NULL'',
     ''RETURN u.canonicalUserId AS canonicalUserId'',
     ''LIMIT 1'',
     []]"

definition LINK_IDENTITIES_text :: string where
  "LINK_IDENTITIES_text = cypher [[],
     ''MATCH (a:User {tenantId: $tenantId, applicationId: $appA, nativeUserId: $userA})'',
     ''MATCH (b:User {tenantId: $tenantId, applicationId: $appB, nativeUserId: $userB})'',
     ''MERGE (a)-[r:SAME_PERSON]->(b)'',
     ''SET r.resolvedAt = datetime(), r.confidence = $confidence, r.method = $method'',
     ''SET a.canonicalUserId = coalesce(a.canonicalUserId, b.canonicalUserId, a.nativeUserId)'',
     ''SET b.canonicalUserId = a.canonicalUserId'',
     ''RETURN a.canonicalUserId AS canonicalUserId'',
     []]"

definition ACTIVE_USERS_text :: string where
  "ACTIVE_USERS_text = cypher [[],
     ''MATCH (u:User {tenantId: $tenantId})'',
     ''WHERE u.lastSeen >= datetime() - duration({days: $days})'',
     ''RETURN DISTINCT u.nativeUserId AS userId'',
     ''ORDER BY userId'',
     []]"

definition UPDATE_USER_PROFILE_text :: string where
  "UPDATE_USER_PROFILE_text = cypher [[],
     ''MATCH (u:User {tenantId: $tenantId, nativeUserId: $userId})'',
     ''SET u.nlqProfile = $profileText,'',
     ''    u.profileGeneratedAt = datetime(),'',
     ''    u.profileVersion = $version'',
     ''RETURN count(u) AS updated'',
     []]"

definition GET_USER_PROFILE_text :: string where
  "GET_USER_PROFILE_text = cypher [[],
     ''MATCH (u:User {tenantId: $tenantId, nativeUserId: $userId})'',
     ''WHERE u.nlqProfile IS NOT NULL'',
     ''RETURN'',
     ''    u.nlqProfile AS nlqProfile,'',
     ''    u.profileGeneratedAt AS profileGeneratedAt,'',
     ''    u.profileVersion AS profileVersion'',
     ''LIMIT 1'',
     []]"

definition USER_EVENT_COUNT_text :: string where
  "USER_EVENT_COUNT_text = cypher [[],
     ''MATCH (u:User {tenantId: $tenantId, nativeUserId: $userId})-[r:PERFORMED]->(:BusinessObject)'',
     ''RETURN count(r) AS eventCount'',
     []]"

definition INIT_STATEMENTS :: "(string \<times> string) list" where
  \<comment> \<open>the name a statement creates, and its text\<close>
  "INIT_STATEMENTS =
    [(''user_tenant'', ''CREATE INDEX user_tenant IF NOT EXISTS FOR (u:User) ON (u.tenantId, u.nativeUserId)''),
     (''object_tenant'', ''CREATE INDEX object_tenant IF NOT EXISTS FOR (o:BusinessObject) ON (o.tenantId, o.objectId)''),
     (''app_tenant'', ''CREATE INDEX app_tenant IF NOT EXISTS FOR (a:Application) ON (a.tenantId, a.applicationId)''),
     (''performed_timestamp'', ''CREATE INDEX performed_timestamp IF NOT EXISTS FOR ()-[r:PERFORMED]-() ON (r.eventTimestamp)''),
     (''unique_event'', ''CREATE CONSTRAINT unique_event IF NOT EXISTS FOR ()-[r:PERFORMED]-() '' @
       ''REQUIRE r.eventId IS UNIQUE'')]"

lemma newline_sep: "contains sub x \<Longrightarrow> x \<in> set ls \<Longrightarrow> contains sub (join sep ls)"
proof (induction sep ls rule: join.induct)
  case (3 sep x y ys)
  then consider "contains sub x" | "contains sub (join sep (y # ys))" by auto
  then show ?case
  proof cases
    case 1
    then obtain a b where "x = a @ sub @ b" by (auto simp: contains_iff)
    then have "join sep (x # y # ys) = a @ sub @ (b @ sep @ join sep (y # ys))" by simp
    then show ?thesis unfolding contains_iff by blast
  next
    case 2
    then obtain a b where "join sep (y # ys) = a @ sub @ b" by (auto simp: contains_iff)
    then have "join sep (x # y # ys) = (x @ sep @ a) @ sub @ b" by simp
    then show ?thesis unfolding contains_iff by blast
  qed
qed auto

lemma contains_append_left: "contains sub a \<Longrightarrow> contains sub (a @ b)"
  unfolding contains_iff by (metis append.assoc)

section \<open>The engine\<close>

record engine =
  scan_users :: "user_node list \<Rightarrow> user_node list"
  scan_rows :: "history_row list \<Rightarrow> history_row list"
  cypher_datetime :: "string \<Rightarrow> pydatetime option"

text \<open>
  What Cypher documents: a scan returns every matching row once, in some order, and
  \<open>datetime()\<close> of a text is a zoned date-time.
\<close>

definition engine_ok :: "engine \<Rightarrow> bool" where
  "engine_ok E = ((\<forall>us. mset (scan_users E us) = mset us) \<and> (\<forall>rs. mset (scan_rows E rs) = mset rs) \<and>
     (\<forall>s t. cypher_datetime E s = Some t \<longrightarrow> is_aware t))"

section \<open>Writes\<close>

definition later :: "pydatetime \<Rightarrow> pydatetime \<Rightarrow> pydatetime" where
  \<comment> \<open>\<open>CASE WHEN t > prev THEN t ELSE prev END\<close>, compared as instants\<close>
  "later t prev = (if dt_instant t > dt_instant prev then t else prev)"

definition create_user :: "string \<Rightarrow> write_params \<Rightarrow> pydatetime \<Rightarrow> user_node" where
  "create_user tenant p t = \<lparr>u_tenantId = tenant, u_applicationId = p_applicationId p,
     u_nativeUserId = p_nativeUserId p, u_userIdType = p_userIdType p,
     u_canonicalUserId = p_canonicalUserId p, u_roles = p_roles p, u_firstSeen = t, u_lastSeen = t,
     u_nlqProfile = None, u_profileGeneratedAt = None, u_profileVersion = None\<rparr>"

definition match_user :: "write_params \<Rightarrow> pydatetime \<Rightarrow> user_node \<Rightarrow> user_node" where
  "match_user p t u = u\<lparr>u_userIdType := p_userIdType p,
     u_canonicalUserId := (case p_canonicalUserId p of None \<Rightarrow> u_canonicalUserId u | Some c \<Rightarrow> Some c),
     u_roles := p_roles p, u_lastSeen := later t (u_lastSeen u)\<rparr>"

definition create_object :: "string \<Rightarrow> write_params \<Rightarrow> pydatetime \<Rightarrow> object_node" where
  "create_object tenant p t = \<lparr>o_tenantId = tenant, o_applicationId = p_applicationId p,
     o_objectType = p_objectType p, o_objectId = p_objectId p, o_firstSeen = t, o_lastSeen = t\<rparr>"

definition match_object :: "pydatetime \<Rightarrow> object_node \<Rightarrow> object_node" where
  "match_object t ob = ob\<lparr>o_lastSeen := later t (o_lastSeen ob)\<rparr>"

definition p_user_key :: "string \<Rightarrow> write_params \<Rightarrow> user_ref" where
  "p_user_key tenant p = (tenant, p_applicationId p, p_nativeUserId p)"

definition p_app_key :: "string \<Rightarrow> write_params \<Rightarrow> app_ref" where
  "p_app_key tenant p = (tenant, p_applicationId p, p_applicationInstanceId p)"

definition p_object_key :: "string \<Rightarrow> write_params \<Rightarrow> object_node_ref" where
  "p_object_key tenant p = (tenant, p_applicationId p, p_objectType p, p_objectId p)"

definition create_performed :: "string \<Rightarrow> write_params \<Rightarrow> pydatetime \<Rightarrow> performed_edge" where
  "create_performed tenant p t = \<lparr>r_user = p_user_key tenant p, r_object = p_object_key tenant p,
     r_eventId = p_eventId p, r_actionType = p_actionType p, r_actionCategory = p_actionCategory p,
     r_eventTimestamp = t, r_metadata = p_metadata p, r_environment = p_environment p,
     r_sessionId = p_sessionId p, r_correlationId = p_correlationId p, r_device = p_device p\<rparr>"

definition WRITE_EVENT :: "engine \<Rightarrow> string \<Rightarrow> write_params \<Rightarrow> graph \<Rightarrow> py_error + graph" where
  \<comment> \<open>one transaction: an error leaves the graph as it was\<close>
  "WRITE_EVENT E tenant p g = (case cypher_datetime E (p_eventTimestamp p) of
     None \<Rightarrow> Inl DatabaseError
   | Some t \<Rightarrow>
       if ''unique_event'' \<in> set (ddl g) \<and> p_eventId p \<in> set (event_ids g) then Inl ConstraintError
       else Inr (g\<lparr>
         users := merge_node user_key (p_user_key tenant p) (match_user p t)
                    (create_user tenant p t) (users g),
         apps := merge_edge (p_app_key tenant p) (apps g),
         belongs_to := merge_edge (p_user_key tenant p, p_app_key tenant p) (belongs_to g),
         objects := merge_node object_key (p_object_key tenant p) (match_object t)
                      (create_object tenant p t) (objects g),
         contains_obj := merge_edge (p_app_key tenant p, p_object_key tenant p) (contains_obj g),
         performed := performed g @ [create_performed tenant p t]\<rparr>))"

definition coalesce :: "'a option \<Rightarrow> 'a option \<Rightarrow> 'a option" where
  "coalesce a b = (case a of None \<Rightarrow> b | Some x \<Rightarrow> Some x)"

definition set_canonical :: "user_ref list \<Rightarrow> string option \<Rightarrow> user_node \<Rightarrow> user_node" where
  "set_canonical ks c u = (if user_key u \<in> set ks then u\<lparr>u_canonicalUserId := c\<rparr> else u)"

definition LINK_IDENTITIES ::
  "pydatetime \<Rightarrow> string \<Rightarrow> string \<Rightarrow> string \<Rightarrow> string \<Rightarrow> string \<Rightarrow> string \<Rightarrow> real \<Rightarrow> graph \<Rightarrow> graph" where
  \<comment> \<open>no row, and so no change, unless both users exist\<close>
  "LINK_IDENTITIES now tenant userA appA userB appB method confidence g =
     (let ka = (tenant, appA, userA); kb = (tenant, appB, userB)
      in case (find (\<lambda>u. user_key u = ka) (users g), find (\<lambda>u. user_key u = kb) (users g)) of
        (Some a, Some b) \<Rightarrow>
          let c = coalesce (u_canonicalUserId a)
                    (coalesce (u_canonicalUserId b) (Some (u_nativeUserId a)));
              e = \<lparr>s_from = ka, s_to = kb, s_resolvedAt = now, s_confidence = confidence,
                   s_method = method\<rparr>
          in g\<lparr>users := map (set_canonical [ka, kb] c) (users g),
               same_person := filter (\<lambda>s. (s_from s, s_to s) \<noteq> (ka, kb)) (same_person g) @ [e]\<rparr>
      | _ \<Rightarrow> g)"

definition is_native :: "string \<Rightarrow> string \<Rightarrow> user_node \<Rightarrow> bool" where
  \<comment> \<open>\<open>MATCH (u:User {tenantId: $tenantId, nativeUserId: $userId})\<close>\<close>
  "is_native tenant user u = (u_tenantId u = tenant \<and> u_nativeUserId u = user)"

definition set_profile :: "string \<Rightarrow> pydatetime \<Rightarrow> int \<Rightarrow> user_node \<Rightarrow> user_node" where
  "set_profile txt now version u =
     u\<lparr>u_nlqProfile := Some txt, u_profileGeneratedAt := Some now, u_profileVersion := Some version\<rparr>"

definition UPDATE_USER_PROFILE ::
  "pydatetime \<Rightarrow> string \<Rightarrow> string \<Rightarrow> string \<Rightarrow> int \<Rightarrow> graph \<Rightarrow> graph" where
  "UPDATE_USER_PROFILE now tenant user txt version g =
     g\<lparr>users := map (\<lambda>u. if is_native tenant user u then set_profile txt now version u else u)
                  (users g)\<rparr>"

section \<open>Reads\<close>

definition edges_of :: "graph \<Rightarrow> (user_node \<Rightarrow> bool) \<Rightarrow> (user_node \<times> performed_edge \<times> object_node) list" where
  \<comment> \<open>\<open>MATCH (u:User)-[r:PERFORMED]->(o:BusinessObject)\<close> for the users that satisfy \<open>P\<close>\<close>
  "edges_of g P = [(u, r, ob). u \<leftarrow> filter P (users g),
      r \<leftarrow> filter (\<lambda>r. r_user r = user_key u) (performed g),
      ob \<leftarrow> filter (\<lambda>ob. object_key ob = r_object r) (objects g)]"

definition since :: "pydatetime \<Rightarrow> int \<Rightarrow> pydatetime \<Rightarrow> bool" where
  \<comment> \<open>\<open>t >= datetime() - duration({days: $days})\<close>\<close>
  "since now days t = (dt_instant t \<ge> dt_instant now - days * us_per_day)"

definition history_rows :: "graph \<Rightarrow> pydatetime \<Rightarrow> int \<Rightarrow> (user_node \<Rightarrow> bool) \<Rightarrow> history_row list" where
  "history_rows g now days P = map (\<lambda>(u, r, ob). history_row_of u r ob)
     (filter (\<lambda>(u, r, ob). since now days (r_eventTimestamp r)) (edges_of g P))"

definition USER_HISTORY ::
  "engine \<Rightarrow> pydatetime \<Rightarrow> string \<Rightarrow> string \<Rightarrow> int \<Rightarrow> graph \<Rightarrow> history_row list" where
  "USER_HISTORY E now tenant user days g =
     sort_desc (\<lambda>h. dt_instant (h_eventTimestamp h))
       (scan_rows E (history_rows g now days (is_native tenant user)))"

definition USER_HISTORY_LIMITED ::
  "engine \<Rightarrow> pydatetime \<Rightarrow> string \<Rightarrow> string \<Rightarrow> int \<Rightarrow> nat \<Rightarrow> graph \<Rightarrow> history_row list" where
  "USER_HISTORY_LIMITED E now tenant user days limit g =
     take limit (USER_HISTORY E now tenant user days g)"

definition CROSS_APP_HISTORY ::
  "engine \<Rightarrow> pydatetime \<Rightarrow> string \<Rightarrow> string \<Rightarrow> int \<Rightarrow> graph \<Rightarrow> history_row list" where
  "CROSS_APP_HISTORY E now tenant canonical days g =
     sort_desc (\<lambda>h. dt_instant (h_eventTimestamp h))
       (scan_rows E (history_rows g now days
         (\<lambda>u. u_tenantId u = tenant \<and> u_canonicalUserId u = Some canonical)))"

definition latest :: "pydatetime list \<Rightarrow> pydatetime option" where
  "latest ts = (case ts of [] \<Rightarrow> None | t # ts' \<Rightarrow> Some (max_by dt_instant t ts'))"

definition USER_ACTION_PATTERN ::
  "string \<Rightarrow> string \<Rightarrow> string \<Rightarrow> graph \<Rightarrow> nat \<times> pydatetime option" where
  "USER_ACTION_PATTERN tenant user action_type g =
     (let rs = filter (\<lambda>(u, r, ob). r_actionType r = action_type) (edges_of g (is_native tenant user))
      in (length rs, latest (map (\<lambda>(u, r, ob). r_eventTimestamp r) rs)))"

definition CANONICAL_USER_ID :: "engine \<Rightarrow> string \<Rightarrow> string \<Rightarrow> graph \<Rightarrow> string option" where
  "CANONICAL_USER_ID E tenant user g =
     (case scan_users E (filter (\<lambda>u. is_native tenant user u \<and> u_canonicalUserId u \<noteq> None) (users g)) of
        [] \<Rightarrow> None | u # _ \<Rightarrow> u_canonicalUserId u)"

definition ACTIVE_USERS :: "pydatetime \<Rightarrow> string \<Rightarrow> int \<Rightarrow> graph \<Rightarrow> string list" where
  "ACTIVE_USERS now tenant days g = sort (remdups (map u_nativeUserId
     (filter (\<lambda>u. u_tenantId u = tenant \<and> since now days (u_lastSeen u)) (users g))))"

record stored_profile =
  nlqProfile :: string
  profileGeneratedAt :: "pydatetime option"
  profileVersion :: "int option"

definition profile_of :: "user_node \<Rightarrow> stored_profile option" where
  "profile_of u = map_option (\<lambda>txt. \<lparr>nlqProfile = txt, profileGeneratedAt = u_profileGeneratedAt u,
     profileVersion = u_profileVersion u\<rparr>) (u_nlqProfile u)"

definition GET_USER_PROFILE :: "engine \<Rightarrow> string \<Rightarrow> string \<Rightarrow> graph \<Rightarrow> stored_profile option" where
  "GET_USER_PROFILE E tenant user g =
     (case scan_users E (filter (\<lambda>u. is_native tenant user u \<and> u_nlqProfile u \<noteq> None) (users g)) of
        [] \<Rightarrow> None | u # _ \<Rightarrow> profile_of u)"

definition USER_EVENT_COUNT :: "string \<Rightarrow> string \<Rightarrow> graph \<Rightarrow> nat" where
  "USER_EVENT_COUNT tenant user g = length (edges_of g (is_native tenant user))"

section \<open>Schema statements\<close>

definition run_ddl :: "string \<times> string \<Rightarrow> graph \<Rightarrow> py_error + graph" where
  \<comment> \<open>\<open>IF NOT EXISTS\<close>; a uniqueness constraint is refused while the data violate it\<close>
  "run_ddl st g = (if fst st \<in> set (ddl g) then Inr g
     else if fst st = ''unique_event'' \<and> \<not> distinct (event_ids g) then Inl DatabaseError
     else Inr (g\<lparr>ddl := ddl g @ [fst st]\<rparr>))"

end
