(* ===== verification/Interfaces.thy ===== *)
theory Interfaces
  imports GraphQueries
begin

text \<open>
  \<open>core/interfaces.py\<close>: the slices of the graph store its clients depend on, as locales.
  The protocols name the operations; the laws written beside them are what the clients rely
  on. A state is any type with an invariant that says the store is up and consistent.
\<close>

section \<open>HistoryReader\<close>

definition newest_first :: "history_row list \<Rightarrow> bool" where
  "newest_first hs = sorted_wrt (\<lambda>x y. dt_instant (h_eventTimestamp y) \<le> dt_instant (h_eventTimestamp x)) hs"

definition history_ok :: "history_row list \<Rightarrow> bool" where
  \<comment> \<open>what a reader promises of the rows: most recent first, an event once, zoned times\<close>
  "history_ok hs = (newest_first hs \<and> distinct (map h_eventId hs) \<and>
     (\<forall>h \<in> set hs. is_aware (h_eventTimestamp h)))"

locale history_reader =
  fixes inv :: "'s \<Rightarrow> bool"
    and user_history :: "'s \<Rightarrow> string \<Rightarrow> string \<Rightarrow> int \<Rightarrow> py_error + history_row list"
    and canonical_user_id :: "'s \<Rightarrow> string \<Rightarrow> string \<Rightarrow> py_error + string option"
    and cross_app_history :: "'s \<Rightarrow> string \<Rightarrow> string \<Rightarrow> int \<Rightarrow> py_error + history_row list"
  assumes user_history_total: "inv s \<Longrightarrow> \<exists>hs. user_history s tenant user days = Inr hs \<and> history_ok hs"
    and canonical_total: "inv s \<Longrightarrow> \<exists>c. canonical_user_id s tenant user = Inr c"
    and cross_app_total: "inv s \<Longrightarrow> \<exists>hs. cross_app_history s tenant c days = Inr hs \<and> history_ok hs"

section \<open>EventWriter\<close>

locale event_writer =
  fixes inv :: "'s \<Rightarrow> bool"
    and writable :: "'s \<Rightarrow> json \<Rightarrow> string \<Rightarrow> bool"
    and ids :: "'s \<Rightarrow> string set"
    and write_event :: "'s \<Rightarrow> json \<Rightarrow> py_error + 's"
  assumes write_new: "inv s \<Longrightarrow> writable s event i \<Longrightarrow> i \<notin> ids s \<Longrightarrow>
      \<exists>s'. write_event s event = Inr s' \<and> inv s' \<and> ids s' = insert i (ids s)"
    and write_duplicate: "inv s \<Longrightarrow> writable s event i \<Longrightarrow> i \<in> ids s \<Longrightarrow>
      write_event s event = Inl (DuplicateEventError i)"
    and writable_stable: "write_event s event = Inr s' \<Longrightarrow> writable s' other j = writable s other j"

section \<open>PatternReader and ProfileStore\<close>

locale pattern_reader =
  fixes inv :: "'s \<Rightarrow> bool"
    and user_history :: "'s \<Rightarrow> string \<Rightarrow> string \<Rightarrow> int \<Rightarrow> py_error + history_row list"
    and event_count :: "'s \<Rightarrow> string \<Rightarrow> string \<Rightarrow> py_error + nat"
  assumes pattern_history: "inv s \<Longrightarrow> \<exists>hs. user_history s tenant user days = Inr hs \<and> history_ok hs"
    and pattern_count: "inv s \<Longrightarrow> \<exists>n. event_count s tenant user = Inr n"

locale profile_store =
  fixes inv :: "'s \<Rightarrow> bool"
    and known :: "'s \<Rightarrow> string \<Rightarrow> string \<Rightarrow> bool"
    and active_users :: "'s \<Rightarrow> string \<Rightarrow> int \<Rightarrow> py_error + string list"
    and update_profile :: "'s \<Rightarrow> string \<Rightarrow> string \<Rightarrow> string \<Rightarrow> int \<Rightarrow> py_error + 's"
    and get_profile :: "'s \<Rightarrow> string \<Rightarrow> string \<Rightarrow> py_error + stored_profile option"
  assumes active_total: "inv s \<Longrightarrow> \<exists>us. active_users s tenant days = Inr us \<and> distinct us \<and>
      (\<forall>u \<in> set us. known s tenant u)"
    and update_total: "inv s \<Longrightarrow> \<exists>s'. update_profile s tenant user ptext version = Inr s' \<and> inv s'"
    and get_total: "inv s \<Longrightarrow> \<exists>p. get_profile s tenant user = Inr p"
    and get_updated: "inv s \<Longrightarrow> known s tenant user \<Longrightarrow>
      update_profile s tenant user ptext version = Inr s' \<Longrightarrow>
      \<exists>t. get_profile s' tenant user =
        Inr (Some \<lparr>nlqProfile = ptext, profileGeneratedAt = t, profileVersion = Some version\<rparr>)"
    and get_other: "inv s \<Longrightarrow> update_profile s tenant user ptext version = Inr s' \<Longrightarrow>
      (tenant', user') \<noteq> (tenant, user) \<Longrightarrow> get_profile s' tenant' user' = get_profile s tenant' user'"
    and known_stable: "update_profile s tenant user ptext version = Inr s' \<Longrightarrow>
      known s' tenant' user' = known s tenant' user'"

text \<open>\<open>ProfilingGraph\<close>: the scheduler reads patterns and stores profiles.\<close>

locale profiling_graph =
  pattern_reader inv user_history event_count +
  profile_store inv known active_users update_profile get_profile
  for inv :: "'s \<Rightarrow> bool" and user_history event_count known active_users update_profile get_profile +
  assumes history_stable: "update_profile s tenant user ptext version = Inr s' \<Longrightarrow>
      user_history s' tenant' user' days = user_history s tenant' user' days"
    and count_stable: "update_profile s tenant user ptext version = Inr s' \<Longrightarrow>
      event_count s' tenant' user' = event_count s tenant' user'"

end
