(* ===== verification/Scorer.thy ===== *)
theory Scorer
  imports Keywords Interfaces
begin

text \<open>
  \<open>prediction/scorer.py\<close>: candidate intents from the history of a user, their confidence,
  and the ranked answer. The scorer sees the graph through the three operations of
  \<open>HistoryReader\<close>, which its definitions take as arguments.
\<close>

section \<open>Constants and records\<close>

definition KEYWORD_WEIGHT :: real where
  "KEYWORD_WEIGHT = 4/10"

definition RECENCY_WEIGHT :: real where
  "RECENCY_WEIGHT = 3/10"

definition FREQUENCY_WEIGHT :: real where
  "FREQUENCY_WEIGHT = 3/10"

definition RECENCY_HALF_LIFE_DAYS :: real where
  "RECENCY_HALF_LIFE_DAYS = 3"

definition FREQUENCY_SATURATION_COUNT :: real where
  "FREQUENCY_SATURATION_COUNT = 5"

lemmas weights = KEYWORD_WEIGHT_def RECENCY_WEIGHT_def FREQUENCY_WEIGHT_def
  RECENCY_HALF_LIFE_DAYS_def FREQUENCY_SATURATION_COUNT_def

record candidate =
  c_count :: nat
  c_mostRecent :: history_row
  c_applicationId :: string
  c_objectType :: string

record signal =
  sig_type :: string
  sig_detail :: string

record prediction =
  pr_applicationId :: string
  pr_actionType :: string
  pr_objectType :: string
  pr_confidence :: real
  pr_signals :: "signal list"

section \<open>Candidates\<close>

definition collect_history ::
  "(string \<Rightarrow> string \<Rightarrow> int \<Rightarrow> py_error + history_row list) \<Rightarrow> (string \<Rightarrow> string \<Rightarrow> py_error + string option) \<Rightarrow>
   (string \<Rightarrow> string \<Rightarrow> int \<Rightarrow> py_error + history_row list) \<Rightarrow> string \<Rightarrow> string \<Rightarrow> int \<Rightarrow> py_error + history_row list" where
  "collect_history get_user_history get_canonical get_cross_app tenant user days =
     ebind (get_user_history tenant user days) (\<lambda>history.
     ebind (get_canonical tenant user) (\<lambda>canonical_id. case canonical_id of
       None \<Rightarrow> Inr history
     | Some c \<Rightarrow> ebind (get_cross_app tenant c days) (\<lambda>cross.
         let seen_event_ids = set (map h_eventId history)
         in Inr (history @ filter (\<lambda>r. h_eventId r \<notin> seen_event_ids) cross))))"

definition new_candidate :: "history_row \<Rightarrow> candidate" where
  "new_candidate r = \<lparr>c_count = 0, c_mostRecent = r, c_applicationId = h_applicationId r,
     c_objectType = h_objectType r\<rparr>"

definition move_to :: "history_row \<Rightarrow> candidate \<Rightarrow> candidate" where
  "move_to r c = c\<lparr>c_mostRecent := r, c_applicationId := h_applicationId r,
     c_objectType := h_objectType r\<rparr>"

fun group_from :: "history_row list \<Rightarrow> (string, candidate) pydict \<Rightarrow> py_error + (string, candidate) pydict" where
  "group_from [] d = Inr d"
| "group_from (r # rs) d =
     (let c0 = (case map_of d (h_actionType r) of None \<Rightarrow> new_candidate r | Some c \<Rightarrow> c);
          c1 = c0\<lparr>c_count := c_count c0 + 1\<rparr>
      in ebind (dt_gt (h_eventTimestamp r) (h_eventTimestamp (c_mostRecent c1))) (\<lambda>newer.
           group_from rs (AList.update (h_actionType r) (if newer then move_to r c1 else c1) d)))"

definition group_by_action_type :: "history_row list \<Rightarrow> py_error + (string, candidate) pydict" where
  "group_by_action_type history = group_from history []"

section \<open>Scores\<close>

definition one_decimal :: "real \<Rightarrow> string" where
  \<comment> \<open>the format \<open>.1f\<close> of a number that is not negative\<close>
  "one_decimal x = (let k = pyround (x * 10) in show_int (k div 10) @ ''.'' @ show_int (k mod 10))"

definition quoted :: "string \<Rightarrow> string" where
  "quoted s = [CHR 0x27] @ s @ [CHR 0x27]"

definition age_in_days :: "pydatetime \<Rightarrow> pydatetime \<Rightarrow> real" where
  "age_in_days now last_seen = max (seconds_between (as_aware last_seen) now / 86400) 0"

definition score_candidate ::
  "string \<Rightarrow> candidate \<Rightarrow> (string, string) pydict \<Rightarrow> pydatetime \<Rightarrow> int \<Rightarrow> prediction" where
  "score_candidate action_type cand keyword_matches now history_days =
     (let (keyword_score, keyword_signals) = (case map_of keyword_matches action_type of
            None \<Rightarrow> (0, [])
          | Some k \<Rightarrow> (KEYWORD_WEIGHT, [\<lparr>sig_type = ''keyword_match'',
              sig_detail = ''trigger text matched '' @ quoted k\<rparr>]));
          age_days = age_in_days now (h_eventTimestamp (c_mostRecent cand));
          recency_score = RECENCY_WEIGHT * ((1/2) powr (age_days / RECENCY_HALF_LIFE_DAYS));
          frequency_score = FREQUENCY_WEIGHT * min (real (c_count cand) / FREQUENCY_SATURATION_COUNT) 1;
          confidence = round_nd 4 (keyword_score + recency_score + frequency_score)
      in \<lparr>pr_applicationId = c_applicationId cand, pr_actionType = action_type,
          pr_objectType = c_objectType cand, pr_confidence = min confidence 1,
          pr_signals = keyword_signals @
            [\<lparr>sig_type = ''recency'', sig_detail = ''last performed on '' @ c_applicationId cand @
                '' '' @ one_decimal age_days @ '' day(s) ago''\<rparr>,
             \<lparr>sig_type = ''behavior_pattern'', sig_detail = ''performed '' @ show_nat (c_count cand) @
                '' time(s) in the last '' @ show_int history_days @ '' days''\<rparr>]\<rparr>)"

definition rank_candidates ::
  "(string, candidate) pydict \<Rightarrow> (string, string) pydict \<Rightarrow> pydatetime \<Rightarrow> int \<Rightarrow> prediction list" where
  "rank_candidates candidates keyword_matches now history_days =
     sort_desc pr_confidence (filter (\<lambda>p. pr_confidence p > 0)
       (map (\<lambda>(action_type, c). score_candidate action_type c keyword_matches now history_days) candidates))"

definition score ::
  "(string \<Rightarrow> string \<Rightarrow> int \<Rightarrow> py_error + history_row list) \<Rightarrow> (string \<Rightarrow> string \<Rightarrow> py_error + string option) \<Rightarrow>
   (string \<Rightarrow> string \<Rightarrow> int \<Rightarrow> py_error + history_row list) \<Rightarrow> (string \<times> string list) list \<Rightarrow> pydatetime \<Rightarrow>
   string \<Rightarrow> string \<Rightarrow> string option \<Rightarrow> int \<Rightarrow> int \<Rightarrow> py_error + prediction list" where
  "score get_user_history get_canonical get_cross_app mappings now tenant user trigger_text max_results history_days =
     ebind (collect_history get_user_history get_canonical get_cross_app tenant user history_days) (\<lambda>history.
     if history = [] then Inr []
     else ebind (group_by_action_type history) (\<lambda>candidates.
       Inr (slice_to max_results
         (rank_candidates candidates (match_keywords mappings trigger_text) now history_days))))"

section \<open>Grouping\<close>

definition count_row :: "history_row \<Rightarrow> candidate \<Rightarrow> candidate" where
  "count_row r c = (let c1 = c\<lparr>c_count := c_count c + 1\<rparr>
     in if dt_instant (h_eventTimestamp r) > dt_instant (h_eventTimestamp (c_mostRecent c1))
        then move_to r c1 else c1)"

definition aware_rows :: "history_row list \<Rightarrow> bool" where
  "aware_rows hs = (\<forall>h \<in> set hs. is_aware (h_eventTimestamp h))"

lemma group_from_aware:
  "aware_rows hs \<Longrightarrow> (\<forall>(k, c) \<in> set d. is_aware (h_eventTimestamp (c_mostRecent c))) \<Longrightarrow>
     group_from hs d = Inr (dict_build h_actionType count_row new_candidate hs d)"
proof (induction hs arbitrary: d)
  case (Cons r rs)
  let ?c0 = "case map_of d (h_actionType r) of None \<Rightarrow> new_candidate r | Some c \<Rightarrow> c"
  have r: "is_aware (h_eventTimestamp r)" using Cons.prems(1) by (simp add: aware_rows_def)
  have c0: "is_aware (h_eventTimestamp (c_mostRecent ?c0))"
    using Cons.prems(2) r by (auto simp: new_candidate_def split: option.splits dest: map_of_SomeD)
  then have c1: "is_aware (h_eventTimestamp (c_mostRecent (count_row r ?c0)))"
    using r by (simp add: count_row_def move_to_def Let_def)
  have step: "group_from (r # rs) d = group_from rs (dict_mod (h_actionType r) (count_row r) (new_candidate r) d)"
    using r c0 by (simp add: dt_gt_def Let_def dict_mod_def count_row_def)
  have "\<forall>(k, c) \<in> set (dict_mod (h_actionType r) (count_row r) (new_candidate r) d).
      is_aware (h_eventTimestamp (c_mostRecent c))"
    using Cons.prems(2) c1 in_dict_mod by fastforce
  then show ?case using Cons step by (simp add: aware_rows_def)
qed simp

definition candidate_of :: "history_row list \<Rightarrow> string \<Rightarrow> candidate \<Rightarrow> bool" where
  \<comment> \<open>what a candidate says of the rows of its action type\<close>
  "candidate_of hs a c = (c_count c = length (filter (\<lambda>h. h_actionType h = a) hs) \<and>
     c_mostRecent c \<in> set hs \<and> h_actionType (c_mostRecent c) = a \<and>
     (\<forall>h \<in> set hs. h_actionType h = a \<longrightarrow>
        dt_instant (h_eventTimestamp h) \<le> dt_instant (h_eventTimestamp (c_mostRecent c))) \<and>
     c_applicationId c = h_applicationId (c_mostRecent c) \<and> c_objectType c = h_objectType (c_mostRecent c))"

lemma fold_count_row:
  "c_applicationId c = h_applicationId (c_mostRecent c) \<Longrightarrow> c_objectType c = h_objectType (c_mostRecent c) \<Longrightarrow>
   (let c' = fold count_row hs c in c_count c' = c_count c + length hs \<and>
     c_mostRecent c' \<in> insert (c_mostRecent c) (set hs) \<and>
     (\<forall>h \<in> insert (c_mostRecent c) (set hs).
        dt_instant (h_eventTimestamp h) \<le> dt_instant (h_eventTimestamp (c_mostRecent c'))) \<and>
     c_applicationId c' = h_applicationId (c_mostRecent c') \<and> c_objectType c' = h_objectType (c_mostRecent c'))"
proof (induction hs arbitrary: c)
  case (Cons h hs)
  let ?c = "count_row h c"
  have s: "c_applicationId ?c = h_applicationId (c_mostRecent ?c)" "c_objectType ?c = h_objectType (c_mostRecent ?c)"
    "c_count ?c = c_count c + 1" "c_mostRecent ?c \<in> {c_mostRecent c, h}"
    "dt_instant (h_eventTimestamp (c_mostRecent c)) \<le> dt_instant (h_eventTimestamp (c_mostRecent ?c))"
    "dt_instant (h_eventTimestamp h) \<le> dt_instant (h_eventTimestamp (c_mostRecent ?c))"
    using Cons.prems by (auto simp: count_row_def move_to_def Let_def)
  show ?case using Cons.IH[OF s(1,2)] s(3-6) by (auto simp: Let_def intro: order_trans)
qed (simp add: Let_def)

lemma group_candidate:
  assumes "(a, c) \<in> set (dict_build h_actionType count_row new_candidate hs [])"
  shows "candidate_of hs a c"
proof -
  obtain y ys where y: "filter (\<lambda>h. h_actionType h = a) hs = y # ys" "c = fold count_row (y # ys) (new_candidate y)"
    using assms unfolding in_dict_build by blast
  have rows: "set (y # ys) = {h \<in> set hs. h_actionType h = a}"
    using arg_cong[OF y(1), of set] by auto
  have n: "c_applicationId (new_candidate y) = h_applicationId (c_mostRecent (new_candidate y))"
    "c_objectType (new_candidate y) = h_objectType (c_mostRecent (new_candidate y))"
    "c_mostRecent (new_candidate y) = y" "c_count (new_candidate y) = 0"
    by (simp_all add: new_candidate_def)
  note f = fold_count_row[OF n(1,2), of "y # ys", folded y(2), unfolded Let_def n(3,4)]
  have m: "c_mostRecent c \<in> set (y # ys)" and n2: "c_count c = length (y # ys)"
    and le: "\<forall>h \<in> set (y # ys). dt_instant (h_eventTimestamp h) \<le> dt_instant (h_eventTimestamp (c_mostRecent c))"
    and s: "c_applicationId c = h_applicationId (c_mostRecent c)" "c_objectType c = h_objectType (c_mostRecent c)"
    using f by auto
  show ?thesis using m n2 le s unfolding candidate_of_def y(1) rows by blast
qed

section \<open>Bounds\<close>

lemma half_powr: "0 \<le> x \<Longrightarrow> 0 < (1/2::real) powr x" "0 \<le> x \<Longrightarrow> (1/2::real) powr x \<le> 1"
  by (simp_all add: powr_le1)

lemma score_candidate_sel [simp]:
  "pr_applicationId (score_candidate a c kw now days) = c_applicationId c"
  "pr_actionType (score_candidate a c kw now days) = a"
  "pr_objectType (score_candidate a c kw now days) = c_objectType c"
  by (simp_all add: score_candidate_def Let_def split: prod.splits)

lemma confidence_eq:
  "pr_confidence (score_candidate a c kw now days) = min (round_nd 4
     ((if map_of kw a = None then 0 else 4/10) +
      3/10 * ((1/2) powr (age_in_days now (h_eventTimestamp (c_mostRecent c)) / 3)) +
      3/10 * min (real (c_count c) / 5) 1)) 1"
  by (simp add: score_candidate_def Let_def weights split: option.splits prod.splits)

lemma age_nonneg: "0 \<le> age_in_days now t"
  by (simp add: age_in_days_def)

lemma confidence_bounds:
  assumes "1 \<le> c_count c"
  shows "6/100 \<le> pr_confidence (score_candidate a c kw now days)"
    "pr_confidence (score_candidate a c kw now days) \<le> 1"
proof -
  let ?s = "(if map_of kw a = None then 0 else 4/10) +
      3/10 * ((1/2) powr (age_in_days now (h_eventTimestamp (c_mostRecent c)) / 3)) +
      3/10 * min (real (c_count c) / 5) 1"
  have p: "0 < (1/2::real) powr (age_in_days now (h_eventTimestamp (c_mostRecent c)) / 3)"
    by (rule half_powr) (simp add: age_nonneg)
  have f: "(1/5::real) \<le> min (real (c_count c) / 5) 1" using assms by simp
  have k: "(0::real) \<le> (if map_of kw a = None then 0 else 4/10)" by simp
  have "(6/100::real) \<le> ?s" using p f k by linarith
  then have "6/100 \<le> round_nd 4 ?s"
    using round_nd_ge[of 600 ?s 4] by simp
  then show "6/100 \<le> pr_confidence (score_candidate a c kw now days)"
    unfolding confidence_eq by simp
  show "pr_confidence (score_candidate a c kw now days) \<le> 1"
    unfolding confidence_eq by simp
qed

section \<open>The ranking\<close>

definition candidates_of :: "history_row list \<Rightarrow> (string, candidate) pydict" where
  "candidates_of hs = dict_build h_actionType count_row new_candidate hs []"

lemma group_by_action_type_aware:
  "aware_rows hs \<Longrightarrow> group_by_action_type hs = Inr (candidates_of hs)"
  by (simp add: group_by_action_type_def candidates_of_def group_from_aware)

lemma candidate_count: "(a, c) \<in> set (candidates_of hs) \<Longrightarrow> candidate_of hs a c \<and> 1 \<le> c_count c"
proof -
  assume c: "(a, c) \<in> set (candidates_of hs)"
  then have k: "candidate_of hs a c" unfolding candidates_of_def by (rule group_candidate)
  then have "c_mostRecent c \<in> set (filter (\<lambda>h. h_actionType h = a) hs)" by (simp add: candidate_of_def)
  then have "filter (\<lambda>h. h_actionType h = a) hs \<noteq> []" by (metis empty_iff set_empty)
  then show ?thesis using k by (simp add: candidate_of_def Suc_le_eq)
qed

text \<open>The filter on the confidence never drops a candidate.\<close>

lemma rank_candidates_all:
  "rank_candidates (candidates_of hs) kw now days = sort_desc pr_confidence
     (map (\<lambda>(a, c). score_candidate a c kw now days) (candidates_of hs))"
proof -
  have "pr_confidence p > 0" if m: "p \<in> set (map (\<lambda>(a, c). score_candidate a c kw now days) (candidates_of hs))" for p
  proof -
    obtain a c where p: "p = score_candidate a c kw now days" "(a, c) \<in> set (candidates_of hs)"
      using m by auto
    show ?thesis using confidence_bounds(1)[of c a kw now days] candidate_count[OF p(2)] p(1) by simp
  qed
  then show ?thesis unfolding rank_candidates_def by (metis filter_True)
qed

lemma distinct_ranked: "distinct (map pr_actionType (rank_candidates (candidates_of hs) kw now days))"
proof -
  have "mset (map pr_actionType (rank_candidates (candidates_of hs) kw now days))
      = mset (map fst (candidates_of hs))"
    unfolding rank_candidates_all mset_map mset_sort_desc
    by (simp add: multiset.map_comp comp_def case_prod_beta flip: mset_map)
  moreover have "distinct (map fst (candidates_of hs))" by (simp add: candidates_of_def)
  ultimately show ?thesis using distinct_mset_eq by metis
qed

lemma ranked_actions: "pr_actionType ` set (rank_candidates (candidates_of hs) kw now days) = h_actionType ` set hs"
proof -
  have "pr_actionType ` set (rank_candidates (candidates_of hs) kw now days) = fst ` set (candidates_of hs)"
    unfolding rank_candidates_all by (force simp: image_iff)
  then show ?thesis by (simp add: candidates_of_def)
qed

definition grounded :: "history_row list \<Rightarrow> prediction \<Rightarrow> bool" where
  \<comment> \<open>the prediction repeats the most recent row of its action type\<close>
  "grounded hs p = (\<exists>h \<in> set hs. h_actionType h = pr_actionType p \<and> h_applicationId h = pr_applicationId p \<and>
     h_objectType h = pr_objectType p \<and>
     (\<forall>g \<in> set hs. h_actionType g = pr_actionType p \<longrightarrow>
        dt_instant (h_eventTimestamp g) \<le> dt_instant (h_eventTimestamp h)))"

lemma ranked_grounded:
  assumes "p \<in> set (rank_candidates (candidates_of hs) kw now days)"
  shows "grounded hs p" "6/100 \<le> pr_confidence p" "pr_confidence p \<le> 1"
proof -
  obtain a c where p: "p = score_candidate a c kw now days" "(a, c) \<in> set (candidates_of hs)"
    using assms unfolding rank_candidates_all by auto
  note c = candidate_count[OF p(2)]
  show "grounded hs p"
    using c unfolding grounded_def p(1) candidate_of_def by (intro bexI[of _ "c_mostRecent c"]) simp_all
  show "6/100 \<le> pr_confidence p" "pr_confidence p \<le> 1"
    using confidence_bounds c unfolding p(1) by blast+
qed

lemma ranked_sorted: "sorted_wrt (\<lambda>p q. pr_confidence q \<le> pr_confidence p) (rank_candidates C kw now days)"
  unfolding rank_candidates_def by (rule sorted_sort_desc)

text \<open>What a history reader gives the scorer.\<close>

context history_reader begin

lemma collect_total:
  assumes "inv s"
  shows "\<exists>hs. collect_history (user_history s) (canonical_user_id s) (cross_app_history s) tenant user days = Inr hs
    \<and> distinct (map h_eventId hs) \<and> aware_rows hs"
proof -
  obtain hs where hs: "user_history s tenant user days = Inr hs" "history_ok hs"
    using user_history_total[OF assms] by blast
  obtain c where c: "canonical_user_id s tenant user = Inr c" using canonical_total[OF assms] by blast
  show ?thesis
  proof (cases c)
    case None
    then show ?thesis using hs c by (simp add: collect_history_def history_ok_def aware_rows_def)
  next
    case (Some k)
    obtain cs where cs: "cross_app_history s tenant k days = Inr cs" "history_ok cs"
      using cross_app_total[OF assms] by blast
    have "distinct (map h_eventId (filter (\<lambda>r. h_eventId r \<notin> h_eventId ` set hs) cs))"
      using cs(2) by (intro distinct_map_filter) (simp add: history_ok_def)
    then have "distinct (map h_eventId (hs @ filter (\<lambda>r. h_eventId r \<notin> h_eventId ` set hs) cs))"
      using hs(2) by (auto simp: history_ok_def image_iff)
    moreover have "aware_rows (hs @ filter (\<lambda>r. h_eventId r \<notin> h_eventId ` set hs) cs)"
      using hs(2) cs(2) by (auto simp: history_ok_def aware_rows_def)
    ultimately show ?thesis using hs c Some cs by (simp add: collect_history_def Let_def)
  qed
qed

lemma score_total:
  assumes "inv s"
  shows "\<exists>hs. collect_history (user_history s) (canonical_user_id s) (cross_app_history s) tenant user days = Inr hs
    \<and> aware_rows hs \<and> distinct (map h_eventId hs) \<and>
    score (user_history s) (canonical_user_id s) (cross_app_history s) mappings now tenant user trigger n days
      = Inr (slice_to n (rank_candidates (candidates_of hs) (match_keywords mappings trigger) now days))"
proof -
  obtain hs where hs: "collect_history (user_history s) (canonical_user_id s) (cross_app_history s) tenant user days = Inr hs"
    "distinct (map h_eventId hs)" "aware_rows hs"
    using collect_total[OF assms] by blast
  have "slice_to n (rank_candidates (candidates_of []) kw now days) = []" for kw
    by (simp add: candidates_of_def rank_candidates_def slice_to_def)
  then show ?thesis using hs by (auto simp: score_def group_by_action_type_aware)
qed

end

end
