(* ===== verification/Temporal.thy ===== *)
theory Temporal
  imports Timestamps
begin

text \<open>
  \<open>profiler/temporal.py\<close>: the cadence of a list of timestamps with its confidence, the
  most common hour of day, and the median gap of a sequence.
\<close>

section \<open>Definitions\<close>

datatype frequency = Daily | Weekly | Monthly | Sporadic

definition frequency_label :: "frequency \<Rightarrow> string" where
  "frequency_label f = (case f of Daily \<Rightarrow> ''daily'' | Weekly \<Rightarrow> ''weekly''
     | Monthly \<Rightarrow> ''monthly'' | Sporadic \<Rightarrow> ''sporadic'')"

definition DAILY_MAX_GAP_DAYS :: real where
  "DAILY_MAX_GAP_DAYS = 3/2"

definition WEEKLY_MAX_GAP_DAYS :: real where
  "WEEKLY_MAX_GAP_DAYS = 10"

definition MONTHLY_MAX_GAP_DAYS :: real where
  "MONTHLY_MAX_GAP_DAYS = 45"

lemmas gap_limits =
  DAILY_MAX_GAP_DAYS_def WEEKLY_MAX_GAP_DAYS_def MONTHLY_MAX_GAP_DAYS_def

text \<open>\<open>[f(a, b) for a, b in zip(xs, xs[1:])]\<close>\<close>

definition adjacent :: "('a \<Rightarrow> 'a \<Rightarrow> 'b) \<Rightarrow> 'a list \<Rightarrow> 'b list" where
  "adjacent f xs = map (\<lambda>(a, b). f a b) (zip xs (drop 1 xs))"

definition regularity_confidence :: "pydatetime list \<Rightarrow> real" where
  "regularity_confidence ordered =
     (let gaps = adjacent seconds_between ordered;
          mean_gap = sum_list gaps / real (length gaps)
      in if mean_gap \<le> 0 then 1/2
         else let variance = sum_list (map (\<lambda>gap. (gap - mean_gap)\<^sup>2) gaps) / real (length gaps);
                  coefficient_of_variation = sqrt variance / mean_gap;
                  regularity = max 0 (1 - coefficient_of_variation);
                  sample_factor = min (real (length ordered) / 8) 1
              in round_nd 2 (regularity * sample_factor))"

definition classify_gap :: "real \<Rightarrow> frequency" where
  "classify_gap average_gap_days =
     (if average_gap_days \<le> DAILY_MAX_GAP_DAYS then Daily
      else if average_gap_days \<le> WEEKLY_MAX_GAP_DAYS then Weekly
      else if average_gap_days \<le> MONTHLY_MAX_GAP_DAYS then Monthly
      else Sporadic)"

definition classify_frequency :: "pydatetime list \<Rightarrow> frequency \<times> real" where
  "classify_frequency timestamps =
     (if length timestamps < 2 then (Sporadic, if timestamps \<noteq> [] then 3/10 else 0)
      else let ordered = sort_key dt_instant (map as_aware timestamps);
               span_days = seconds_between (ordered ! 0) (ordered ! (length ordered - 1)) / 86400
           in if span_days \<le> 0 then (Sporadic, 3/10)
              else (classify_gap (span_days / real (length ordered - 1)),
                    regularity_confidence ordered))"

definition format_hour_range :: "nat \<Rightarrow> string" where
  "format_hour_range hour =
     (let end_hour = (hour + 1) mod 24;
          start_suffix = (if hour < 12 then ''AM'' else ''PM'');
          end_suffix = (if end_hour < 12 then ''AM'' else ''PM'');
          start_12 = (if hour mod 12 = 0 then 12 else hour mod 12);
          end_12 = (if end_hour mod 12 = 0 then 12 else end_hour mod 12)
      in if start_suffix = end_suffix
         then show_nat start_12 @ ''-'' @ show_nat end_12 @ '' '' @ start_suffix
         else show_nat start_12 @ '' '' @ start_suffix @ ''-'' @ show_nat end_12 @ '' '' @ end_suffix)"

definition describe_time_of_day :: "pydatetime list \<Rightarrow> string" where
  "describe_time_of_day timestamps =
     (if timestamps = [] then ''no typical time''
      else case most_common1 (map (\<lambda>t. dt_hour (as_aware t)) timestamps) of
             None \<Rightarrow> [] | Some h \<Rightarrow> format_hour_range h)"

definition median_gap :: "real list \<Rightarrow> py_error + real" where
  \<comment> \<open>\<open>sorted(gaps)[len(gaps) // 2]\<close>\<close>
  "median_gap gaps = (if gaps = [] then Inl IndexError else Inr (sort gaps ! (length gaps div 2)))"

definition describe_gap :: "real list \<Rightarrow> py_error + string" where
  "describe_gap gap_minutes = ebind (median_gap gap_minutes) (\<lambda>median.
     Inr (''within '' @ show_int (max 1 (pyround median)) @ '' minutes''))"

section \<open>Adjacent pairs\<close>

lemma adjacent_Cons: "adjacent f (a # b # xs) = f a b # adjacent f (b # xs)"
  by (simp add: adjacent_def)

lemma adjacent_short [simp]: "adjacent f [] = []" "adjacent f [a] = []"
  by (simp_all add: adjacent_def)

lemma length_adjacent [simp]: "length (adjacent f xs) = length xs - 1"
  by (simp add: adjacent_def)

text \<open>The gaps telescope: their sum is the span.\<close>

lemma seconds_between_trans: "seconds_between a b + seconds_between b c = seconds_between a c"
  by (simp add: seconds_between_def diff_divide_distrib)

lemma sum_adjacent_gaps:
  "xs \<noteq> [] \<Longrightarrow> sum_list (adjacent seconds_between xs) = seconds_between (xs ! 0) (xs ! (length xs - 1))"
proof (induction xs rule: induct_list012)
  case (3 a b xs)
  then have "sum_list (adjacent seconds_between (b # xs)) = seconds_between b ((b # xs) ! length xs)"
    by simp
  then show ?case by (simp add: adjacent_Cons seconds_between_trans)
qed (simp_all add: seconds_between_def)

text \<open>Only the instants of the timestamps matter.\<close>

lemma adjacent_map: "adjacent f (map g xs) = adjacent (\<lambda>a b. f (g a) (g b)) xs"
  by (simp add: adjacent_def drop_map zip_map_map comp_def case_prod_beta)

lemma map_sort_key: "map f (sort_key f xs) = sort (map f xs)"
  by (intro properties_for_sort[symmetric]) simp_all

lemma seconds_between_instants:
  "map dt_instant xs = map dt_instant ys \<Longrightarrow> adjacent seconds_between xs = adjacent seconds_between ys"
proof -
  let ?d = "\<lambda>a b. real_of_int (b - a) / 1000000"
  assume "map dt_instant xs = map dt_instant ys"
  then have "adjacent ?d (map dt_instant xs) = adjacent ?d (map dt_instant ys)" by simp
  moreover have "seconds_between = (\<lambda>a b. ?d (dt_instant a) (dt_instant b))"
    by (intro ext) (simp add: seconds_between_def)
  ultimately show ?thesis by (simp only: adjacent_map)
qed

lemma nth_instants:
  "map dt_instant xs = map dt_instant ys \<Longrightarrow> i < length xs \<Longrightarrow> dt_instant (xs ! i) = dt_instant (ys ! i)"
  by (metis length_map nth_map)

lemma classify_frequency_instants:
  assumes "mset (map dt_instant ts) = mset (map dt_instant us)"
  shows "classify_frequency ts = classify_frequency us"
proof -
  let ?o = "\<lambda>l. sort_key dt_instant (map as_aware l)"
  have len: "length ts = length us" using assms by (metis length_map size_mset)
  have "sort (map dt_instant ts) = sort (map dt_instant us)"
    by (intro properties_for_sort) (simp_all add: assms[simplified])
  then have m: "map dt_instant (?o ts) = map dt_instant (?o us)"
    by (simp add: map_sort_key comp_def)
  have l: "length (?o ts) = length (?o us)" using len by simp
  have r: "regularity_confidence (?o ts) = regularity_confidence (?o us)"
    unfolding regularity_confidence_def seconds_between_instants[OF m] l ..
  have "seconds_between (?o ts ! 0) (?o ts ! (length ts - 1))
      = seconds_between (?o us ! 0) (?o us ! (length us - 1))" if "ts \<noteq> []"
  proof -
    have "us \<noteq> []" using that len by auto
    then show ?thesis
      using len nth_instants[OF m, of 0] nth_instants[OF m, of "length ts - 1"]
      by (simp add: seconds_between_def)
  qed
  with r len show ?thesis by (cases "ts = []") (auto simp: classify_frequency_def Let_def)
qed

section \<open>Bounds\<close>

lemma regularity_product_range:
  "0 \<le> round_nd 2 (max 0 (1 - c) * min (real n / 8) 1)"
  "0 \<le> c \<Longrightarrow> round_nd 2 (max 0 (1 - c) * min (real n / 8) 1) \<le> 1"
  by (intro round_nd_unit mult_le_one mult_nonneg_nonneg; simp)+

lemma regularity_confidence_range:
  "0 \<le> regularity_confidence ordered \<and> regularity_confidence ordered \<le> 1"
proof -
  define gs where "gs = adjacent seconds_between ordered"
  define m where "m = sum_list gs / real (length gs)"
  define c where "c = sqrt (sum_list (map (\<lambda>gap. (gap - m)\<^sup>2) gs) / real (length gs)) / m"
  have e: "regularity_confidence ordered = (if m \<le> 0 then 1/2
      else round_nd 2 (max 0 (1 - c) * min (real (length ordered) / 8) 1))"
    unfolding regularity_confidence_def Let_def gs_def m_def c_def ..
  have "0 \<le> c" if "0 < m"
    unfolding c_def using that
    by (intro divide_nonneg_nonneg real_sqrt_ge_zero sum_list_nonneg) auto
  then show ?thesis unfolding e using regularity_product_range[of c "length ordered"] by auto
qed

lemma classify_frequency_range:
  "0 \<le> snd (classify_frequency ts) \<and> snd (classify_frequency ts) \<le> 1"
  using regularity_confidence_range
  by (simp add: classify_frequency_def Let_def)

section \<open>Hours\<close>

lemma describe_time_of_day_mode:
  assumes "ts \<noteq> []"
  obtains h where "describe_time_of_day ts = format_hour_range h"
    and "h \<in> set (map (\<lambda>t. dt_hour (as_aware t)) ts)"
    and "\<And>h'. count_list (map (\<lambda>t. dt_hour (as_aware t)) ts) h'
           \<le> count_list (map (\<lambda>t. dt_hour (as_aware t)) ts) h"
proof -
  let ?hs = "map (\<lambda>t. dt_hour (as_aware t)) ts"
  obtain h where h: "most_common1 ?hs = Some h"
    using assms by (cases "most_common1 ?hs") auto
  show ?thesis
    using that[of h] most_common1_mode[OF h] assms h by (simp add: describe_time_of_day_def)
qed

section \<open>Gaps\<close>

lemma median_gap_in: "median_gap gaps = Inr m \<Longrightarrow> m \<in> set gaps"
proof -
  assume m: "median_gap gaps = Inr m"
  then have g: "gaps \<noteq> []" by (auto simp: median_gap_def)
  then have "sort gaps ! (length gaps div 2) \<in> set (sort gaps)" by (intro nth_mem) simp
  with m g show ?thesis by (simp add: median_gap_def)
qed

lemma describe_gap_total: "gaps \<noteq> [] \<Longrightarrow> \<exists>s. describe_gap gaps = Inr s"
  by (simp add: describe_gap_def median_gap_def)

section \<open>Properties\<close>

text \<open>
  The confidence lies between zero and one, and with at least two distinct instants the label is
  the one of the mean gap.
\<close>

lemma classify_frequency_bounds:
  "0 \<le> snd (classify_frequency ts) \<and> snd (classify_frequency ts) \<le> 1 \<and>
   (let o' = sort_key dt_instant (map as_aware ts);
        gaps = adjacent seconds_between o'
    in length ts < 2 \<or> sum_list gaps \<le> 0 \<or>
       fst (classify_frequency ts) = classify_gap (sum_list gaps / 86400 / real (length gaps)))"
proof -
  let ?o = "sort_key dt_instant (map as_aware ts)"
  have "fst (classify_frequency ts) = classify_gap (sum_list (adjacent seconds_between ?o) / 86400 / real (length ts - 1))"
    if "\<not> length ts < 2" "0 < sum_list (adjacent seconds_between ?o)"
  proof -
    have "ts \<noteq> []" using that(1) by auto
    then have "length ?o \<noteq> 0" by simp
    then have o': "?o \<noteq> []" by (metis length_0_conv)
    show ?thesis
      using that sum_adjacent_gaps[OF o'] by (simp add: classify_frequency_def Let_def)
  qed
  then show ?thesis using classify_frequency_range[of ts] by (fastforce simp: Let_def)
qed

text \<open>
  C22: the cadence and its confidence depend only on which instants occurred, not on the order
  of the events nor on the offsets the timestamps are written in; the confidence lies between zero
  and one, and with at least two distinct instants the label is the one of the mean gap: the span
  over the number of gaps.
\<close>

theorem classify_frequency_spec:
  assumes "mset (map dt_instant ts) = mset (map dt_instant us)"
  shows "classify_frequency us = classify_frequency ts \<and>
    0 \<le> snd (classify_frequency ts) \<and> snd (classify_frequency ts) \<le> 1 \<and>
    (let o' = sort_key dt_instant (map as_aware ts);
         gaps = adjacent seconds_between o'
     in length ts < 2 \<or> sum_list gaps \<le> 0 \<or>
        fst (classify_frequency ts) = classify_gap (sum_list gaps / 86400 / real (length gaps)))"
  using classify_frequency_instants[OF assms] classify_frequency_bounds[of ts] by simp

theorem classify_frequency_spec_witness:
  "classify_frequency [utc 170000000000, DateTime 3600000000 (Some 3600000000), DateTime 90000000000 None]
   = classify_frequency [utc 0, utc 90000000000, utc 170000000000]"
  using classify_frequency_spec[of "[utc 0, utc 90000000000, utc 170000000000]"
    "[utc 170000000000, DateTime 3600000000 (Some 3600000000), DateTime 90000000000 None]"]
  by (simp add: dt_instant_def utc_def)

end
