(* ===== verification/Patterns.thy ===== *)
theory Patterns
  imports Temporal Interfaces "HOL-Library.Product_Lexorder"
begin

text \<open>
  \<open>profiler/pattern_detector.py\<close>: recurring actions per application, sequences across
  applications, active objects and parameter defaults, from the history of a user.
\<close>

section \<open>Constants and records\<close>

definition PROFILING_WINDOW_DAYS :: int where
  "PROFILING_WINDOW_DAYS = 180"

definition SEQUENCE_GAP_MINUTES :: real where
  "SEQUENCE_GAP_MINUTES = 30"

definition MIN_SEQUENCE_OCCURRENCES :: nat where
  "MIN_SEQUENCE_OCCURRENCES = 2"

definition ACTIVE_OBJECT_WINDOW_DAYS :: int where
  "ACTIVE_OBJECT_WINDOW_DAYS = 14"

definition MIN_ACTIVE_OBJECT_INTERACTIONS :: nat where
  "MIN_ACTIVE_OBJECT_INTERACTIONS = 2"

definition MAX_ACTIVE_OBJECTS :: int where
  "MAX_ACTIVE_OBJECTS = 10"

record action_pattern =
  ap_action_type :: string
  ap_frequency :: frequency
  ap_typical_time :: string
  ap_count_in_period :: nat
  ap_confidence :: real

record sequence_pattern =
  sq_trigger_app :: string
  sq_trigger_action :: string
  sq_follow_app :: string
  sq_follow_action :: string
  sq_typical_gap :: string
  sq_confidence :: real

record active_object =
  ao_application_id :: string
  ao_object_type :: string
  ao_object_id :: string
  ao_interaction_count :: nat
  ao_last_activity :: pydatetime

record user_patterns =
  up_user_id :: string
  up_total_events :: nat
  up_by_application :: "(string, action_pattern list) pydict"
  up_cross_app_sequences :: "sequence_pattern list"
  up_active_objects :: "active_object list"
  up_parameter_defaults :: "(string, (string, string) pydict) pydict"

section \<open>Recurring actions\<close>

definition build_action_pattern :: "string \<Rightarrow> pydatetime list \<Rightarrow> action_pattern" where
  "build_action_pattern action_type timestamps =
     (let (freq, confidence) = classify_frequency timestamps
      in \<lparr>ap_action_type = action_type, ap_frequency = freq,
          ap_typical_time = describe_time_of_day timestamps,
          ap_count_in_period = length timestamps, ap_confidence = confidence\<rparr>)"

definition group_timestamps :: "history_row list \<Rightarrow> (string, (string, pydatetime list) pydict) pydict" where
  "group_timestamps events = dict_fold h_applicationId
     (\<lambda>e. dict_mod (h_actionType e) (\<lambda>ts. ts @ [h_eventTimestamp e]) []) [] events []"

definition detect_action_patterns :: "history_row list \<Rightarrow> (string, action_pattern list) pydict" where
  "detect_action_patterns events =
     map (\<lambda>(app, actions). (app, sort_desc ap_count_in_period
           (map (\<lambda>(a, ts). build_action_pattern a ts) actions)))
       (group_timestamps events)"

section \<open>Sequences\<close>

type_synonym transition = "string \<times> string \<times> string \<times> string"

definition cross_app_gap_minutes :: "history_row \<Rightarrow> history_row \<Rightarrow> real option" where
  "cross_app_gap_minutes previous current =
     (if h_applicationId previous = h_applicationId current then None
      else let gap_minutes = seconds_between (as_aware (h_eventTimestamp previous))
                 (as_aware (h_eventTimestamp current)) / 60
           in if 0 \<le> gap_minutes \<and> gap_minutes \<le> SEQUENCE_GAP_MINUTES then Some gap_minutes else None)"

definition transition_key :: "history_row \<Rightarrow> history_row \<Rightarrow> transition" where
  "transition_key p c = (h_applicationId p, h_actionType p, h_applicationId c, h_actionType c)"

definition add_transition ::
  "history_row \<times> history_row \<Rightarrow> (transition, real list) pydict \<Rightarrow> (transition, real list) pydict" where
  "add_transition pc d = (case cross_app_gap_minutes (fst pc) (snd pc) of
     None \<Rightarrow> d
   | Some g \<Rightarrow> dict_mod (transition_key (fst pc) (snd pc)) (\<lambda>gs. gs @ [g]) [] d)"

definition ordered_events :: "history_row list \<Rightarrow> history_row list" where
  "ordered_events events = sort_key (\<lambda>e. dt_instant (as_aware (h_eventTimestamp e))) events"

definition transitions :: "history_row list \<Rightarrow> (transition, real list) pydict" where
  "transitions ordered = fold add_transition (zip ordered (drop 1 ordered)) []"

definition build_sequence :: "transition \<Rightarrow> real list \<Rightarrow> nat \<Rightarrow> py_error + sequence_pattern" where
  "build_sequence k gaps trigger_total = (case k of (ta, tx, fa, fx) \<Rightarrow>
     ebind (describe_gap gaps) (\<lambda>gap.
     Inr \<lparr>sq_trigger_app = ta, sq_trigger_action = tx, sq_follow_app = fa, sq_follow_action = fx,
       sq_typical_gap = gap,
       sq_confidence = (if trigger_total = 0 then 0
         else round_nd 2 (min (real (length gaps) / real trigger_total) 1))\<rparr>))"

definition detect_sequences :: "history_row list \<Rightarrow> py_error + sequence_pattern list" where
  "detect_sequences events =
     (let action_totals = counter (map (\<lambda>e. (h_applicationId e, h_actionType e)) events)
      in ebind (emap (\<lambda>(k, gaps). build_sequence k gaps (counter_get action_totals (fst k, fst (snd k))))
             (filter (\<lambda>(k, gaps). length gaps \<ge> MIN_SEQUENCE_OCCURRENCES)
               (transitions (ordered_events events))))
           (\<lambda>seqs. Inr (sort_desc sq_confidence seqs)))"

section \<open>Active objects\<close>

type_synonym object_triple = "string \<times> string \<times> string"

definition object_ref :: "history_row \<Rightarrow> object_triple" where
  "object_ref e = (h_applicationId e, h_objectType e, h_objectId e)"

definition touch_object :: "history_row \<Rightarrow> nat \<times> pydatetime \<Rightarrow> nat \<times> pydatetime" where
  \<comment> \<open>\<open>max(last, timestamp)\<close> keeps the first of equal values\<close>
  "touch_object e entry = (let t = as_aware (h_eventTimestamp e)
     in (fst entry + 1, if dt_instant t > dt_instant (snd entry) then t else snd entry))"

definition object_stats :: "history_row list \<Rightarrow> (object_triple, nat \<times> pydatetime) pydict" where
  "object_stats events =
     dict_build object_ref touch_object (\<lambda>e. (0, as_aware (h_eventTimestamp e))) events []"

definition detect_active_objects :: "pydatetime \<Rightarrow> history_row list \<Rightarrow> active_object list" where
  "detect_active_objects now events =
     (let cutoff = dt_instant now - ACTIVE_OBJECT_WINDOW_DAYS * us_per_day;
          active = map (\<lambda>((app, ty, i), n, lt). \<lparr>ao_application_id = app, ao_object_type = ty,
              ao_object_id = i, ao_interaction_count = n, ao_last_activity = lt\<rparr>)
            (filter (\<lambda>(k, n, lt). dt_instant lt \<ge> cutoff \<and> n \<ge> MIN_ACTIVE_OBJECT_INTERACTIONS)
              (object_stats events))
      in slice_to MAX_ACTIVE_OBJECTS
           (sort_desc (\<lambda>ob. (ao_interaction_count ob, dt_instant (ao_last_activity ob))) active))"

section \<open>Parameter defaults\<close>

definition scalar :: "json \<Rightarrow> bool" where
  \<comment> \<open>\<open>isinstance(value, (str, int, float, bool))\<close>\<close>
  "scalar v = (case v of JStr _ \<Rightarrow> True | JInt _ \<Rightarrow> True | JFloat _ _ \<Rightarrow> True | JBool _ \<Rightarrow> True | _ \<Rightarrow> False)"

definition parameters_of :: "history_row \<Rightarrow> (string \<times> string \<times> string) list" where
  \<comment> \<open>action type, parameter name and text of each scalar entry of the metadata\<close>
  "parameters_of e = (case h_metadata e of
     Some (JObj d) \<Rightarrow> map (\<lambda>(name, v). (h_actionType e, name, py_str v)) (filter (\<lambda>(name, v). scalar v) d)
   | _ \<Rightarrow> [])"

definition count_parameters ::
  "(string \<times> string \<times> string) list \<Rightarrow> (string, (string, (string, nat) pydict) pydict) pydict" where
  "count_parameters ps = dict_fold fst
     (\<lambda>(a, name, text). dict_mod name (dict_mod text Suc 0) []) [] ps []"

definition top_of_counter :: "('a, nat) pydict \<Rightarrow> 'a option" where
  "top_of_counter c = (case c of [] \<Rightarrow> None | p # ps \<Rightarrow> Some (fst (max_by snd p ps)))"

definition detect_parameter_defaults :: "history_row list \<Rightarrow> (string, (string, string) pydict) pydict" where
  \<comment> \<open>every counter has an element, so \<open>most_common(1)[0]\<close> exists\<close>
  "detect_parameter_defaults events =
     map (\<lambda>(a, params). (a, map (\<lambda>(name, c). (name, case top_of_counter c of None \<Rightarrow> [] | Some v \<Rightarrow> v)) params))
       (count_parameters (concat (map parameters_of events)))"

section \<open>The detector\<close>

definition detect ::
  "(string \<Rightarrow> string \<Rightarrow> int \<Rightarrow> py_error + history_row list) \<Rightarrow> (string \<Rightarrow> string \<Rightarrow> py_error + nat) \<Rightarrow>
   pydatetime \<Rightarrow> string \<Rightarrow> string \<Rightarrow> py_error + user_patterns" where
  "detect get_user_history get_event_count now tenant user =
     ebind (get_user_history tenant user PROFILING_WINDOW_DAYS) (\<lambda>events.
     ebind (get_event_count tenant user) (\<lambda>total_events.
     ebind (detect_sequences events) (\<lambda>sequences.
     Inr \<lparr>up_user_id = user, up_total_events = total_events,
       up_by_application = detect_action_patterns events,
       up_cross_app_sequences = sequences,
       up_active_objects = detect_active_objects now events,
       up_parameter_defaults = detect_parameter_defaults events\<rparr>)))"

section \<open>Recurring actions: what a pattern says\<close>

lemma group_timestamps_lookup:
  "map_of (group_timestamps events) app =
     (if app \<in> h_applicationId ` set events
      then Some (dict_fold h_actionType (\<lambda>e ts. ts @ [h_eventTimestamp e]) []
        (filter (\<lambda>e. h_applicationId e = app) events) [])
      else None)"
  unfolding group_timestamps_def map_of_dict_fold dict_fold_def[of h_actionType] by (rule refl)

definition timestamps_of :: "string \<Rightarrow> string \<Rightarrow> history_row list \<Rightarrow> pydatetime list" where
  "timestamps_of app act events = map h_eventTimestamp
     (filter (\<lambda>e. h_applicationId e = app \<and> h_actionType e = act) events)"

lemma in_group_timestamps:
  "(app, actions) \<in> set (group_timestamps events) \<Longrightarrow>
     app \<in> h_applicationId ` set events \<and>
     actions = dict_fold h_actionType (\<lambda>e ts. ts @ [h_eventTimestamp e]) []
        (filter (\<lambda>e. h_applicationId e = app) events) []"
  using group_timestamps_lookup[of events app]
  by (auto simp: group_timestamps_def dest!: map_of_is_SomeI[OF distinct_dict_fold] split: if_splits)

lemma in_actions:
  "(act, ts) \<in> set (dict_fold h_actionType (\<lambda>e ts. ts @ [h_eventTimestamp e]) []
        (filter (\<lambda>e. h_applicationId e = app) events) []) \<longleftrightarrow>
     (\<exists>e \<in> set events. h_applicationId e = app \<and> h_actionType e = act) \<and> ts = timestamps_of app act events"
proof -
  have f: "filter (\<lambda>e. h_actionType e = act) (filter (\<lambda>e. h_applicationId e = app) events)
      = filter (\<lambda>e. h_applicationId e = app \<and> h_actionType e = act) events"
    by (simp add: conj_commute)
  show ?thesis
    unfolding in_dict_fold f fold_append_filter timestamps_of_def by auto
qed

lemma detect_action_patterns_lookup:
  "map_of (detect_action_patterns events) app = map_option (\<lambda>actions. sort_desc ap_count_in_period
     (map (\<lambda>(a, ts). build_action_pattern a ts) actions)) (map_of (group_timestamps events) app)"
  unfolding detect_action_patterns_def by (rule map_of_map_entry)

lemma sum_counts:
  "sum_list (map (\<lambda>(a, ts). length ts) (dict_fold key (\<lambda>e ts. ts @ [f e]) [] xs d))
     = sum_list (map (\<lambda>(a, ts). length ts) d) + length xs"
proof (induction xs arbitrary: d)
  case (Cons x xs)
  have "sum_list (map (\<lambda>(a, ts). length ts) (dict_mod (key x) (\<lambda>ts. ts @ [f x]) [] d))
      = Suc (sum_list (map (\<lambda>(a, ts). length ts) d))"
    unfolding dict_mod_def by (induction d) auto
  then show ?case using Cons by simp
qed simp

section \<open>Sequences: what a sequence says\<close>

text \<open>The pairs of consecutive events that make a transition, with their gap.\<close>

definition handoffs :: "history_row list \<Rightarrow> (transition \<times> real) list" where
  "handoffs ordered = List.map_filter (\<lambda>(p, c). map_option (Pair (transition_key p c)) (cross_app_gap_minutes p c))
     (zip ordered (drop 1 ordered))"

lemma fold_add_transition:
  "fold add_transition ps d = dict_fold fst (\<lambda>kg gs. gs @ [snd kg]) []
     (List.map_filter (\<lambda>(p, c). map_option (Pair (transition_key p c)) (cross_app_gap_minutes p c)) ps) d"
proof (induction ps arbitrary: d)
  case (Cons x ps)
  obtain p c where x: "x = (p, c)" by (cases x)
  show ?case using Cons
    by (cases "cross_app_gap_minutes p c") (simp_all add: x add_transition_def List.map_filter_simps)
qed (simp add: List.map_filter_simps)

lemma transitions_eq: "transitions ordered = dict_fold fst (\<lambda>kg gs. gs @ [snd kg]) [] (handoffs ordered) []"
  by (simp add: transitions_def handoffs_def fold_add_transition)

definition gaps_of :: "transition \<Rightarrow> history_row list \<Rightarrow> real list" where
  "gaps_of k ordered = map snd (filter (\<lambda>x. fst x = k) (handoffs ordered))"

lemma in_transitions:
  "(k, gaps) \<in> set (transitions ordered) \<longleftrightarrow> k \<in> fst ` set (handoffs ordered) \<and> gaps = gaps_of k ordered"
  unfolding transitions_eq in_dict_fold gaps_of_def by (simp add: fold_append_filter)

lemma in_map_filter: "y \<in> set (List.map_filter f xs) \<longleftrightarrow> (\<exists>x \<in> set xs. f x = Some y)"
  by (induction xs) (auto simp: List.map_filter_simps split: option.splits)

lemma in_handoffs: "(k, g) \<in> set (handoffs ordered) \<longleftrightarrow>
    (\<exists>(p, c) \<in> set (zip ordered (drop 1 ordered)). k = transition_key p c \<and> cross_app_gap_minutes p c = Some g)"
  unfolding handoffs_def in_map_filter by (intro bex_cong refl) (auto split: prod.splits)

lemma handoff_gap: "(k, g) \<in> set (handoffs ordered) \<Longrightarrow> 0 \<le> g \<and> g \<le> 30"
  by (auto simp: in_handoffs cross_app_gap_minutes_def SEQUENCE_GAP_MINUTES_def Let_def split: if_splits)

lemma handoff_apps: "((ta, tx, fa, fx), g) \<in> set (handoffs ordered) \<Longrightarrow> ta \<noteq> fa"
  by (auto simp: in_handoffs cross_app_gap_minutes_def transition_key_def split: if_splits)

text \<open>
  A trigger is counted at least as often as it starts a transition, so the quotient that the
  code clips at one never exceeds one.
\<close>

lemma map_filter_mono: "length (filter P (List.map_filter f xs)) \<le> length (filter (\<lambda>x. \<exists>y. f x = Some y \<and> P y) xs)"
  by (induction xs) (auto simp: List.map_filter_simps split: option.splits)

lemma filter_fst_zip: "length (filter (\<lambda>pc. Q (fst pc)) (zip xs ys)) \<le> length (filter Q xs)"
  by (induction xs ys rule: list_induct2') auto

lemma length_filter_mono: "(\<And>x. P x \<Longrightarrow> Q x) \<Longrightarrow> length (filter P xs) \<le> length (filter Q xs)"
  by (induction xs) auto

lemma gaps_le_total:
  "length (gaps_of (ta, tx, fa, fx) ordered) \<le>
     length (filter (\<lambda>e. h_applicationId e = ta \<and> h_actionType e = tx) ordered)"
proof -
  let ?k = "(ta, tx, fa, fx)"
  let ?f = "\<lambda>(p, c). map_option (Pair (transition_key p c)) (cross_app_gap_minutes p c)"
  let ?z = "zip ordered (drop 1 ordered)"
  have "length (gaps_of ?k ordered) \<le> length (filter (\<lambda>x. \<exists>y. ?f x = Some y \<and> fst y = ?k) ?z)"
    unfolding gaps_of_def handoffs_def length_map by (rule map_filter_mono)
  also have "\<dots> \<le> length (filter (\<lambda>pc. h_applicationId (fst pc) = ta \<and> h_actionType (fst pc) = tx) ?z)"
    by (rule length_filter_mono) (auto simp: transition_key_def)
  also have "\<dots> \<le> length (filter (\<lambda>e. h_applicationId e = ta \<and> h_actionType e = tx) ordered)"
    by (rule filter_fst_zip)
  finally show ?thesis .
qed

lemma mset_ordered [simp]: "mset (ordered_events events) = mset events"
  by (simp add: ordered_events_def)

lemma length_filter_ordered: "length (filter P (ordered_events events)) = length (filter P events)"
proof -
  have "mset (filter P (ordered_events events)) = mset (filter P events)" by simp
  then show ?thesis by (rule mset_eq_length)
qed

lemma count_trigger: "count_list (map (\<lambda>e. (h_applicationId e, h_actionType e)) events) (ta, tx)
    = length (filter (\<lambda>e. h_applicationId e = ta \<and> h_actionType e = tx) (ordered_events events))"
proof -
  have "count_list (map (\<lambda>e. (h_applicationId e, h_actionType e)) es) (ta, tx)
    = length (filter (\<lambda>e. h_applicationId e = ta \<and> h_actionType e = tx) es)" for es
    by (induction es) auto
  then show ?thesis by (simp add: length_filter_ordered)
qed

definition sequence_of :: "history_row list \<Rightarrow> sequence_pattern \<Rightarrow> bool" where
  \<comment> \<open>what a sequence says of the events: at least two handoffs between different applications
    within half an hour, and the share of the trigger's occurrences they make\<close>
  "sequence_of events q =
     (let gaps = gaps_of (sq_trigger_app q, sq_trigger_action q, sq_follow_app q, sq_follow_action q)
            (ordered_events events);
          total = length (filter (\<lambda>e. h_applicationId e = sq_trigger_app q \<and> h_actionType e = sq_trigger_action q) events)
      in sq_trigger_app q \<noteq> sq_follow_app q \<and> 2 \<le> length gaps \<and> length gaps \<le> total \<and>
         (\<forall>g \<in> set gaps. 0 \<le> g \<and> g \<le> 30) \<and>
         sq_confidence q = round_nd 2 (real (length gaps) / real total))"

lemma describe_gap_ok: "gaps \<noteq> [] \<Longrightarrow> \<exists>t. describe_gap gaps = Inr t"
  by (simp add: describe_gap_def median_gap_def)

definition sequence_pattern_of :: "history_row list \<Rightarrow> transition \<times> real list \<Rightarrow> sequence_pattern" where
  "sequence_pattern_of events kg = (case build_sequence (fst kg) (snd kg)
       (counter_get (counter (map (\<lambda>e. (h_applicationId e, h_actionType e)) events)) (fst (fst kg), fst (snd (fst kg)))) of
     Inr q \<Rightarrow> q | Inl _ \<Rightarrow> undefined)"

lemma build_sequence_ok:
  assumes "(k, gaps) \<in> set (transitions (ordered_events events))" "length gaps \<ge> 2"
  shows "\<exists>q. build_sequence k gaps (counter_get (counter (map (\<lambda>e. (h_applicationId e, h_actionType e)) events))
      (fst k, fst (snd k))) = Inr q \<and> sequence_of events q \<and>
      (sq_trigger_app q, sq_trigger_action q, sq_follow_app q, sq_follow_action q) = k"
proof -
  obtain ta tx fa fx where k: "k = (ta, tx, fa, fx)" by (metis prod.exhaust)
  have g: "gaps = gaps_of k (ordered_events events)" and in_h: "k \<in> fst ` set (handoffs (ordered_events events))"
    using assms(1) by (simp_all add: in_transitions)
  obtain t where t: "describe_gap gaps = Inr t" using describe_gap_ok[of gaps] assms(2) by fastforce
  have len: "length (filter (\<lambda>e. h_applicationId e = ta \<and> h_actionType e = tx) (ordered_events events))
      = length (filter (\<lambda>e. h_applicationId e = ta \<and> h_actionType e = tx) events)" (is "_ = ?n")
    by (rule length_filter_ordered)
  have le: "length gaps \<le> ?n" using gaps_le_total[of ta tx fa fx "ordered_events events"] g k len by simp
  have c: "counter_get (counter (map (\<lambda>e. (h_applicationId e, h_actionType e)) events)) (ta, tx) = ?n"
    by (simp add: count_trigger len)
  have ne: "ta \<noteq> fa" using in_h k handoff_apps by fastforce
  have gs: "\<forall>x \<in> set gaps. 0 \<le> x \<and> x \<le> 30"
    unfolding g gaps_of_def using handoff_gap by (auto simp del: split_paired_All)
  have q2: "?n \<noteq> 0" using le assms(2) by linarith
  have q1: "real (length gaps) / real ?n \<le> 1" using le q2 by (simp add: divide_le_eq)
  have g': "gaps_of (ta, tx, fa, fx) (ordered_events events) = gaps" by (simp only: g k)
  let ?q = "\<lparr>sq_trigger_app = ta, sq_trigger_action = tx, sq_follow_app = fa, sq_follow_action = fx,
    sq_typical_gap = t, sq_confidence = round_nd 2 (real (length gaps) / real ?n)\<rparr>"
  have m: "min (real (length gaps) / real ?n) 1 = real (length gaps) / real ?n" using q1 by (rule min_absorb1)
  have "build_sequence k gaps ?n = Inr ?q"
    using q2 m by (simp only: build_sequence_def k prod.case t ebind_Inr if_False m)
  moreover have "sequence_of events ?q"
    unfolding sequence_of_def Let_def sequence_pattern.simps g' using ne le assms(2) gs by blast
  moreover have "counter_get (counter (map (\<lambda>e. (h_applicationId e, h_actionType e)) events)) (fst k, fst (snd k)) = ?n"
    using c by (simp only: k fst_conv snd_conv)
  ultimately show ?thesis by (auto simp: k simp del: counter_get_counter)
qed

lemma detect_sequences_total:
  "\<exists>qs. detect_sequences events = Inr qs \<and> sorted_wrt (\<lambda>x y. sq_confidence y \<le> sq_confidence x) qs \<and>
     (\<forall>q \<in> set qs. sequence_of events q) \<and>
     (\<lambda>q. (sq_trigger_app q, sq_trigger_action q, sq_follow_app q, sq_follow_action q)) ` set qs
       = {k. 2 \<le> length (gaps_of k (ordered_events events))}"
proof -
  let ?b = "\<lambda>(k, gaps). build_sequence k gaps (counter_get (counter
     (map (\<lambda>e. (h_applicationId e, h_actionType e)) events)) (fst k, fst (snd k)))"
  let ?ts = "filter (\<lambda>(k, gaps). length gaps \<ge> MIN_SEQUENCE_OCCURRENCES) (transitions (ordered_events events))"
  let ?key = "\<lambda>q. (sq_trigger_app q, sq_trigger_action q, sq_follow_app q, sq_follow_action q)"
  have b: "?b x = Inr (sequence_pattern_of events x) \<and> sequence_of events (sequence_pattern_of events x)
      \<and> ?key (sequence_pattern_of events x) = fst x" if m: "x \<in> set ?ts" for x
  proof -
    obtain k gaps where x: "x = (k, gaps)" by (rule prod.exhaust)
    have kg: "(k, gaps) \<in> set (transitions (ordered_events events))" "length gaps \<ge> 2"
      using m x by (auto simp: MIN_SEQUENCE_OCCURRENCES_def)
    show ?thesis using build_sequence_ok[OF kg] unfolding x sequence_pattern_of_def
      by (auto simp del: counter_get_counter)
  qed
  have e: "emap ?b ?ts = Inr (map (sequence_pattern_of events) ?ts)"
    using b by (intro emap_total) blast
  have keys: "?key ` set (map (sequence_pattern_of events) ?ts) = fst ` set ?ts"
    using b unfolding set_map image_image by (intro image_cong) auto
  have "fst ` set ?ts = {k. 2 \<le> length (gaps_of k (ordered_events events))}"
  proof -
    have "k \<in> fst ` set (handoffs (ordered_events events))" if "2 \<le> length (gaps_of k (ordered_events events))" for k
    proof -
      have "gaps_of k (ordered_events events) \<noteq> []" using that by auto
      then show ?thesis by (auto simp: gaps_of_def filter_empty_conv)
    qed
    then show ?thesis by (force simp: in_transitions MIN_SEQUENCE_OCCURRENCES_def image_iff)
  qed
  then show ?thesis
    using e b keys unfolding detect_sequences_def Let_def
    by (auto simp: sorted_sort_desc intro!: exI[of _ "sort_desc sq_confidence (map (sequence_pattern_of events) ?ts)"])
qed

section \<open>Active objects: what an entry says\<close>

lemma fold_touch_object:
  "let e' = fold touch_object hs e in fst e' = fst e + length hs \<and>
     dt_instant (snd e') \<in> insert (dt_instant (snd e)) ((\<lambda>h. dt_instant (h_eventTimestamp h)) ` set hs) \<and>
     dt_instant (snd e) \<le> dt_instant (snd e') \<and>
     (\<forall>h \<in> set hs. dt_instant (h_eventTimestamp h) \<le> dt_instant (snd e'))"
proof (induction hs arbitrary: e)
  case (Cons h hs)
  have "fst (touch_object h e) = fst e + 1"
    "dt_instant (snd (touch_object h e)) = max (dt_instant (snd e)) (dt_instant (h_eventTimestamp h))"
    by (auto simp: touch_object_def Let_def)
  then show ?case using Cons[of "touch_object h e"] by (auto simp: Let_def max_def split: if_splits)
qed (simp add: Let_def)

lemma in_object_stats:
  assumes "(k, n, lt) \<in> set (object_stats events)"
  shows "n = length (filter (\<lambda>e. object_ref e = k) events)"
    and "\<exists>e \<in> set events. object_ref e = k \<and> dt_instant (h_eventTimestamp e) = dt_instant lt"
    and "e \<in> set events \<Longrightarrow> object_ref e = k \<Longrightarrow> dt_instant (h_eventTimestamp e) \<le> dt_instant lt"
proof -
  obtain y ys where y: "filter (\<lambda>e. object_ref e = k) events = y # ys"
    "(n, lt) = fold touch_object (y # ys) (0, as_aware (h_eventTimestamp y))"
    using assms unfolding object_stats_def in_dict_build by blast
  have rows: "set (y # ys) = {e \<in> set events. object_ref e = k}"
    using arg_cong[OF y(1), of set] by auto
  note f = fold_touch_object[of "y # ys" "(0, as_aware (h_eventTimestamp y))", folded y(2), unfolded Let_def]
  show "n = length (filter (\<lambda>e. object_ref e = k) events)" using f y(1) by simp
  have "dt_instant lt \<in> (\<lambda>h. dt_instant (h_eventTimestamp h)) ` set (y # ys)" using f by auto
  then show "\<exists>e \<in> set events. object_ref e = k \<and> dt_instant (h_eventTimestamp e) = dt_instant lt"
    unfolding rows by auto
  show "dt_instant (h_eventTimestamp e) \<le> dt_instant lt" if "e \<in> set events" "object_ref e = k"
    using f that rows by auto
qed

lemma object_stats_keys: "fst ` set (object_stats events) = object_ref ` set events"
  by (simp add: object_stats_def)

definition active_of :: "pydatetime \<Rightarrow> history_row list \<Rightarrow> object_triple \<Rightarrow> bool" where
  \<comment> \<open>touched at least twice, and in the last fourteen days\<close>
  "active_of now events k = (2 \<le> length (filter (\<lambda>e. object_ref e = k) events) \<and>
     (\<exists>e \<in> set events. object_ref e = k \<and> dt_instant (h_eventTimestamp e) \<ge> dt_instant now - 14 * us_per_day))"

definition ao_ref :: "active_object \<Rightarrow> object_triple" where
  "ao_ref ob = (ao_application_id ob, ao_object_type ob, ao_object_id ob)"

definition ao_rank :: "active_object \<Rightarrow> nat \<times> int" where
  "ao_rank ob = (ao_interaction_count ob, dt_instant (ao_last_activity ob))"

definition all_active :: "pydatetime \<Rightarrow> history_row list \<Rightarrow> active_object list" where
  "all_active now events = map (\<lambda>((app, ty, i), n, lt). \<lparr>ao_application_id = app, ao_object_type = ty,
      ao_object_id = i, ao_interaction_count = n, ao_last_activity = lt\<rparr>)
    (filter (\<lambda>(k, n, lt). dt_instant lt \<ge> dt_instant now - ACTIVE_OBJECT_WINDOW_DAYS * us_per_day \<and>
       n \<ge> MIN_ACTIVE_OBJECT_INTERACTIONS) (object_stats events))"

lemma detect_active_objects_eq:
  "detect_active_objects now events = take 10 (sort_desc ao_rank (all_active now events))"
  by (simp add: detect_active_objects_def all_active_def Let_def slice_to_def MAX_ACTIVE_OBJECTS_def
      ao_rank_def[abs_def])

lemma all_active_stat:
  assumes "ob \<in> set (all_active now events)"
  shows "(ao_ref ob, ao_interaction_count ob, ao_last_activity ob) \<in> set (object_stats events)"
    "2 \<le> ao_interaction_count ob" "dt_instant (ao_last_activity ob) \<ge> dt_instant now - 14 * us_per_day"
  using assms
  by (auto simp: all_active_def ao_ref_def MIN_ACTIVE_OBJECT_INTERACTIONS_def ACTIVE_OBJECT_WINDOW_DAYS_def)

lemma all_active_refs: "ao_ref ` set (all_active now events) = {k. active_of now events k}"
proof -
  have "k \<in> ao_ref ` set (all_active now events) \<longleftrightarrow> active_of now events k" for k
  proof
    assume "k \<in> ao_ref ` set (all_active now events)"
    then obtain ob where ob: "ob \<in> set (all_active now events)" "k = ao_ref ob" by auto
    note s = all_active_stat[OF ob(1)]
    show "active_of now events k"
      using in_object_stats(1,2)[OF s(1)] s(2,3) unfolding active_of_def ob(2) by force
  next
    assume a: "active_of now events k"
    then obtain e where e: "e \<in> set events" "object_ref e = k"
      "dt_instant (h_eventTimestamp e) \<ge> dt_instant now - 14 * us_per_day"
      by (auto simp: active_of_def)
    then have "k \<in> fst ` set (object_stats events)" unfolding object_stats_keys by auto
    then obtain n lt where s: "(k, n, lt) \<in> set (object_stats events)" by force
    obtain app ty i where k: "k = (app, ty, i)" by (metis prod.exhaust)
    have "2 \<le> n" using in_object_stats(1)[OF s] a by (simp add: active_of_def)
    moreover have "dt_instant lt \<ge> dt_instant now - 14 * us_per_day"
      using in_object_stats(3)[OF s e(1,2)] e(3) by linarith
    ultimately have "\<lparr>ao_application_id = app, ao_object_type = ty, ao_object_id = i,
        ao_interaction_count = n, ao_last_activity = lt\<rparr> \<in> set (all_active now events)"
      using s unfolding all_active_def k
      by (force simp: MIN_ACTIVE_OBJECT_INTERACTIONS_def ACTIVE_OBJECT_WINDOW_DAYS_def)
    then have "ao_ref \<lparr>ao_application_id = app, ao_object_type = ty, ao_object_id = i,
        ao_interaction_count = n, ao_last_activity = lt\<rparr> \<in> ao_ref ` set (all_active now events)"
      by (rule imageI)
    then show "k \<in> ao_ref ` set (all_active now events)" by (simp add: ao_ref_def k)
  qed
  then show ?thesis by blast
qed

lemma distinct_all_active: "distinct (map ao_ref (all_active now events))"
proof -
  have d: "distinct (map fst (object_stats events))" by (simp add: object_stats_def distinct_dict_build)
  have "map ao_ref (all_active now events) = map fst (filter (\<lambda>(k, n, lt).
      dt_instant lt \<ge> dt_instant now - ACTIVE_OBJECT_WINDOW_DAYS * us_per_day \<and> n \<ge> MIN_ACTIVE_OBJECT_INTERACTIONS)
      (object_stats events))"
    by (auto simp: all_active_def ao_ref_def)
  then show ?thesis using distinct_map_filter[OF d] by simp
qed

lemma card_active: "card {k. active_of now events k} = length (all_active now events)"
  using distinct_card[OF distinct_all_active, of now events] by (simp add: all_active_refs[symmetric])

lemma distinct_map_sort_desc: "distinct (map g (sort_desc f xs)) = distinct (map g xs)"
  by (metis mset_map mset_sort_desc mset_eq_imp_distinct_iff)

lemma detect_active_objects_shape:
  "length (detect_active_objects now events) = min 10 (card {k. active_of now events k})"
  "distinct (map ao_ref (detect_active_objects now events))"
  "sorted_wrt (\<lambda>x y. ao_rank y \<le> ao_rank x) (detect_active_objects now events)"
proof -
  let ?s = "sort_desc ao_rank (all_active now events)"
  show "length (detect_active_objects now events) = min 10 (card {k. active_of now events k})"
    by (simp add: detect_active_objects_eq card_active)
  have "distinct (map ao_ref ?s)" using distinct_all_active by (simp add: distinct_map_sort_desc)
  then show "distinct (map ao_ref (detect_active_objects now events))"
    unfolding detect_active_objects_eq take_map[symmetric] by (rule distinct_take)
  have "sorted_wrt (\<lambda>x y. ao_rank y \<le> ao_rank x) (take 10 ?s @ drop 10 ?s)"
    unfolding append_take_drop_id by (rule sorted_sort_desc)
  then show "sorted_wrt (\<lambda>x y. ao_rank y \<le> ao_rank x) (detect_active_objects now events)"
    unfolding detect_active_objects_eq sorted_wrt_append by blast
qed

section \<open>Parameter defaults: what a default says\<close>

definition values_of :: "string \<Rightarrow> string \<Rightarrow> history_row list \<Rightarrow> string list" where
  \<comment> \<open>the texts a parameter of an action took, in the order of the events\<close>
  "values_of a name events = map (\<lambda>(a, n, v). v)
     (filter (\<lambda>(a', n, v). a' = a \<and> n = name) (concat (map parameters_of events)))"

definition default_of :: "history_row list \<Rightarrow> string \<Rightarrow> string \<Rightarrow> string option" where
  "default_of events a name =
     Option.bind (map_of (detect_parameter_defaults events) a) (\<lambda>params. map_of params name)"

lemma counter_map: "fold (\<lambda>x. dict_mod (f x) Suc 0) xs d = fold (\<lambda>x. dict_mod x Suc 0) (map f xs) d"
  by (induction xs arbitrary: d) simp_all

lemma counter_fold: "counter xs = fold (\<lambda>x. dict_mod x Suc 0) xs []"
  by (simp add: counter_def dict_fold_def)

lemma top_of_counter_counter: "top_of_counter (counter xs) = most_common1 xs"
  by (simp add: top_of_counter_def most_common1_def)

definition parameter_counters :: "(string \<times> string \<times> string) list \<Rightarrow> (string, (string, nat) pydict) pydict" where
  "parameter_counters qs = fold (\<lambda>(a, name, text). dict_mod name (dict_mod text Suc 0) []) qs []"

lemma parameter_counters_eq: "parameter_counters qs =
    dict_fold (\<lambda>x. fst (snd x)) (\<lambda>x. dict_mod (snd (snd x)) Suc 0) [] qs []"
  by (simp add: parameter_counters_def dict_fold_def split_beta')

lemma value_counter: "fold (\<lambda>x. dict_mod (snd (snd x)) Suc 0) rs [] = counter (map (\<lambda>(a, n, v). v) rs)"
  unfolding counter_fold counter_map[of "\<lambda>x. snd (snd x)"] split_beta' ..

lemma count_parameters_lookup:
  "Option.bind (map_of (count_parameters ps) a) (\<lambda>d. map_of d name) =
     (let vs = map (\<lambda>(a, n, v). v) (filter (\<lambda>(a', n, v). a' = a \<and> n = name) ps)
      in if vs = [] then None else Some (counter vs))"
proof -
  let ?qs = "filter (\<lambda>x. fst x = a) ps"
  let ?rs = "filter (\<lambda>x. fst (snd x) = name) ?qs"
  have rs: "?rs = filter (\<lambda>(a', n, v). a' = a \<and> n = name) ps"
    by (auto intro!: filter_cong)
  have n: "name \<in> (\<lambda>x. fst (snd x)) ` set ?qs \<longleftrightarrow> ?rs \<noteq> []" by (auto simp: filter_empty_conv)
  have vs: "map (\<lambda>(a, n, v). v) ?rs = [] \<longleftrightarrow> ?rs = []" by simp
  have l: "map_of (count_parameters ps) a = (if a \<in> fst ` set ps then Some (parameter_counters ?qs) else None)"
    unfolding count_parameters_def map_of_dict_fold parameter_counters_def ..
  have m: "map_of (parameter_counters ?qs) name = (if ?rs = [] then None else Some (counter (map (\<lambda>(a, n, v). v) ?rs)))"
    unfolding parameter_counters_eq map_of_dict_fold n value_counter by simp
  have e: "a \<notin> fst ` set ps \<Longrightarrow> ?rs = []" by (auto simp: filter_empty_conv)
  show ?thesis
  proof (cases "a \<in> fst ` set ps")
    case True
    then show ?thesis unfolding l Let_def rs[symmetric] vs by (simp only: if_True bind.simps m)
  next
    case False
    then show ?thesis unfolding l Let_def rs[symmetric] vs using e by simp
  qed
qed

lemma default_of_mode: "default_of events a name = most_common1 (values_of a name events)"
proof -
  let ?ps = "concat (map parameters_of events)"
  let ?f = "\<lambda>c. case top_of_counter c of None \<Rightarrow> [] | Some v \<Rightarrow> v"
  have l: "map_of (detect_parameter_defaults events) a
      = map_option (map (\<lambda>(name, c). (name, ?f c))) (map_of (count_parameters ?ps) a)"
    unfolding detect_parameter_defaults_def by (rule map_of_map_entry)
  have "default_of events a name = map_option ?f
      (Option.bind (map_of (count_parameters ?ps) a) (\<lambda>d. map_of d name))"
    unfolding default_of_def l
    by (cases "map_of (count_parameters ?ps) a") (simp_all add: map_of_map_entry)
  also have "\<dots> = (if values_of a name events = [] then None
      else Some (?f (counter (values_of a name events))))"
    unfolding count_parameters_lookup values_of_def Let_def by simp
  also have "\<dots> = most_common1 (values_of a name events)"
  proof (cases "most_common1 (values_of a name events)")
    case None
    then have v: "values_of a name events = []" by simp
    show ?thesis unfolding None using v by (rule if_P)
  next
    case (Some v)
    then have "values_of a name events \<noteq> []" by (metis most_common1_None option.distinct(1))
    then show ?thesis using Some by (simp add: top_of_counter_counter)
  qed
  finally show ?thesis .
qed

text \<open>The detector over a pattern reader always answers.\<close>

context pattern_reader begin

lemma detect_total:
  assumes "inv s"
  shows "\<exists>events n p. user_history s tenant user PROFILING_WINDOW_DAYS = Inr events \<and>
    event_count s tenant user = Inr n \<and>
    detect (user_history s) (event_count s) now tenant user = Inr p \<and>
    up_user_id p = user \<and> up_total_events p = n \<and>
    up_by_application p = detect_action_patterns events \<and>
    detect_sequences events = Inr (up_cross_app_sequences p) \<and>
    up_active_objects p = detect_active_objects now events \<and>
    up_parameter_defaults p = detect_parameter_defaults events"
proof -
  obtain events where e: "user_history s tenant user PROFILING_WINDOW_DAYS = Inr events"
    using pattern_history[OF assms] by blast
  obtain n where n: "event_count s tenant user = Inr n" using pattern_count[OF assms] by blast
  obtain qs where q: "detect_sequences events = Inr qs" using detect_sequences_total by blast
  show ?thesis using e n q by (simp add: detect_def)
qed

end

section \<open>Properties\<close>


definition handoff_row :: "string \<Rightarrow> string \<Rightarrow> string \<Rightarrow> int \<Rightarrow> history_row" where
  "handoff_row i app act us = \<lparr>h_eventId = i, h_actionType = act, h_actionCategory = ''update'',
     h_eventTimestamp = utc us, h_metadata = Some (JObj [(''board'', JStr ''b1'')]),
     h_environment = ''test'', h_sessionId = None, h_correlationId = None, h_device = None,
     h_applicationId = app, h_objectType = ''issue'', h_objectId = ''i1''\<rparr>"


text \<open>
  C18: the active objects are the top ten of those touched twice or more and in the last fourteen
  days: all of them when there are no more than ten and exactly ten otherwise, each once, in the
  order of count and latest activity, with their true counts and latest activity, and no object
  left out ranks above one that is listed.
\<close>

theorem active_objects_top:
  "length (detect_active_objects now events) = min 10 (card {k. active_of now events k}) \<and>
   distinct (map ao_ref (detect_active_objects now events)) \<and>
   sorted_wrt (\<lambda>x y. ao_rank y \<le> ao_rank x) (detect_active_objects now events) \<and>
   (\<forall>ob \<in> set (detect_active_objects now events). active_of now events (ao_ref ob) \<and>
      ao_interaction_count ob = length (filter (\<lambda>e. object_ref e = ao_ref ob) events) \<and>
      (\<exists>e \<in> set events. object_ref e = ao_ref ob \<and> dt_instant (h_eventTimestamp e) = dt_instant (ao_last_activity ob))) \<and>
   (\<forall>k. active_of now events k \<and> k \<notin> ao_ref ` set (detect_active_objects now events) \<longrightarrow>
      (\<exists>n lt. n = length (filter (\<lambda>e. object_ref e = k) events) \<and>
        (\<forall>ob \<in> set (detect_active_objects now events). (n, lt) \<le> ao_rank ob) \<and>
        (\<forall>e \<in> set events. object_ref e = k \<longrightarrow> dt_instant (h_eventTimestamp e) \<le> lt)))"
proof (intro conjI ballI allI impI)
  let ?all = "all_active now events"
  show "length (detect_active_objects now events) = min 10 (card {k. active_of now events k})"
    "distinct (map ao_ref (detect_active_objects now events))"
    "sorted_wrt (\<lambda>x y. ao_rank y \<le> ao_rank x) (detect_active_objects now events)"
    by (rule detect_active_objects_shape)+
  fix ob
  assume "ob \<in> set (detect_active_objects now events)"
  then have ob: "ob \<in> set ?all" by (auto simp: detect_active_objects_eq dest: in_set_takeD)
  have "ao_ref ob \<in> ao_ref ` set ?all" using ob by (rule imageI)
  then show "active_of now events (ao_ref ob)" unfolding all_active_refs by simp
  show "ao_interaction_count ob = length (filter (\<lambda>e. object_ref e = ao_ref ob) events)"
    by (rule in_object_stats(1)[OF all_active_stat(1)[OF ob]])
  show "\<exists>e \<in> set events. object_ref e = ao_ref ob \<and> dt_instant (h_eventTimestamp e) = dt_instant (ao_last_activity ob)"
    by (rule in_object_stats(2)[OF all_active_stat(1)[OF ob]])
next
  let ?all = "all_active now events"
  fix k
  assume k: "active_of now events k \<and> k \<notin> ao_ref ` set (detect_active_objects now events)"
  have "k \<in> ao_ref ` set ?all" unfolding all_active_refs using k by simp
  then obtain x where x: "x \<in> set ?all" "ao_ref x = k" by auto
  note s = all_active_stat(1)[OF x(1)]
  let ?s = "sort_desc ao_rank ?all"
  have xs: "x \<in> set ?s" using x(1) by simp
  have xt: "x \<notin> set (take 10 ?s)" using x(2) k unfolding detect_active_objects_eq by blast
  have "x \<in> set (drop 10 ?s)" using xs xt by (metis UnE append_take_drop_id set_append)
  then have r: "\<forall>ob \<in> set (detect_active_objects now events). ao_rank x \<le> ao_rank ob"
    using sorted_take_dominates[OF sorted_sort_desc[of ao_rank ?all]] unfolding detect_active_objects_eq by blast
  show "\<exists>n lt. n = length (filter (\<lambda>e. object_ref e = k) events) \<and>
        (\<forall>ob \<in> set (detect_active_objects now events). (n, lt) \<le> ao_rank ob) \<and>
        (\<forall>e \<in> set events. object_ref e = k \<longrightarrow> dt_instant (h_eventTimestamp e) \<le> lt)"
  proof (intro exI conjI)
    show "ao_interaction_count x = length (filter (\<lambda>e. object_ref e = k) events)"
      using in_object_stats(1)[OF s] x(2) by simp
    show "\<forall>ob \<in> set (detect_active_objects now events).
        (ao_interaction_count x, dt_instant (ao_last_activity x)) \<le> ao_rank ob"
      using r unfolding ao_rank_def[of x] .
    show "\<forall>e \<in> set events. object_ref e = k \<longrightarrow> dt_instant (h_eventTimestamp e) \<le> dt_instant (ao_last_activity x)"
      using in_object_stats(3)[OF s, unfolded x(2)] by (intro ballI impI)
  qed
qed

definition eleven_objects :: "history_row list" where
  \<comment> \<open>eleven objects, each touched twice\<close>
  "eleven_objects = concat (map (\<lambda>c. [(handoff_row ''e1'' ''jira'' ''log_bug'' 0)\<lparr>h_objectId := [c]\<rparr>,
     (handoff_row ''e2'' ''jira'' ''log_bug'' 60000000)\<lparr>h_objectId := [c]\<rparr>]) ''abcdefghijk'')"

theorem active_objects_top_witness:
  "length (detect_active_objects (utc 0) eleven_objects) = 10 \<and>
   distinct (map ao_ref (detect_active_objects (utc 0) eleven_objects))"
proof -
  have "length (all_active (utc 0) eleven_objects) = 11" by code_simp
  then have "card {k. active_of (utc 0) eleven_objects k} = 11" by (simp add: card_active)
  then show ?thesis using active_objects_top[of "utc 0" eleven_objects] by simp
qed

text \<open>
  C19: the default of a parameter of an action is the value it took most often (of several such
  values the first to appear), and there is one exactly when the parameter ever had a scalar value.
\<close>

theorem parameter_default_is_mode:
  "default_of events a name = most_common1 (values_of a name events)"
  by (rule default_of_mode)

lemma sum_list_sort_desc: "sum_list (map f (sort_desc g xs)) = (sum_list (map f xs) :: nat)"
  by (metis mset_map mset_sort_desc sum_mset_sum_list)

text \<open>
  C20: every application of the history gets its actions, each once, with the number of its
  events, its cadence and its usual hour computed from exactly those events; the counts of all
  patterns add up to the length of the history.
\<close>

theorem action_patterns_partition:
  "fst ` set (detect_action_patterns events) = h_applicationId ` set events \<and>
   (\<forall>(app, ps) \<in> set (detect_action_patterns events).
      sorted_wrt (\<lambda>x y. ap_count_in_period y \<le> ap_count_in_period x) ps \<and>
      set ps = (\<lambda>a. build_action_pattern a (timestamps_of app a events)) `
        {h_actionType e |e. e \<in> set events \<and> h_applicationId e = app} \<and>
      sum_list (map ap_count_in_period ps) = length (filter (\<lambda>e. h_applicationId e = app) events))"
proof (intro conjI)
  have "fst ` set (detect_action_patterns events) = fst ` set (group_timestamps events)"
    unfolding detect_action_patterns_def by (force simp: image_iff)
  then show "fst ` set (detect_action_patterns events) = h_applicationId ` set events"
    by (simp add: group_timestamps_def)
  show "\<forall>(app, ps) \<in> set (detect_action_patterns events).
      sorted_wrt (\<lambda>x y. ap_count_in_period y \<le> ap_count_in_period x) ps \<and>
      set ps = (\<lambda>a. build_action_pattern a (timestamps_of app a events)) `
        {h_actionType e |e. e \<in> set events \<and> h_applicationId e = app} \<and>
      sum_list (map ap_count_in_period ps) = length (filter (\<lambda>e. h_applicationId e = app) events)"
  proof (clarify, intro conjI)
    fix app ps
    assume "(app, ps) \<in> set (detect_action_patterns events)"
    then obtain actions where a: "(app, actions) \<in> set (group_timestamps events)"
      and ps: "ps = sort_desc ap_count_in_period (map (\<lambda>(a, ts). build_action_pattern a ts) actions)"
      unfolding detect_action_patterns_def by auto
    let ?as = "dict_fold h_actionType (\<lambda>e ts. ts @ [h_eventTimestamp e]) []
        (filter (\<lambda>e. h_applicationId e = app) events) []"
    have as: "actions = ?as" using in_group_timestamps[OF a] by simp
    show "sorted_wrt (\<lambda>x y. ap_count_in_period y \<le> ap_count_in_period x) ps"
      unfolding ps by (rule sorted_sort_desc)
    have "set actions = (\<lambda>a. (a, timestamps_of app a events)) ` {h_actionType e |e. e \<in> set events \<and> h_applicationId e = app}"
    proof -
      have "x \<in> set actions \<longleftrightarrow>
          x \<in> (\<lambda>a. (a, timestamps_of app a events)) ` {h_actionType e |e. e \<in> set events \<and> h_applicationId e = app}" for x
        unfolding as by (cases x) (simp add: in_actions image_iff, blast)
      then show ?thesis by blast
    qed
    then show "set ps = (\<lambda>a. build_action_pattern a (timestamps_of app a events)) `
        {h_actionType e |e. e \<in> set events \<and> h_applicationId e = app}"
      unfolding ps set_sort_desc set_map by (simp add: image_image)
    have c: "ap_count_in_period (build_action_pattern a ts) = length ts" for a ts
      by (simp add: build_action_pattern_def split: prod.split)
    have "sum_list (map ap_count_in_period ps) = sum_list (map (\<lambda>(a, ts). length ts) actions)"
      unfolding ps sum_list_sort_desc by (simp add: comp_def split_beta' c)
    also have "\<dots> = length (filter (\<lambda>e. h_applicationId e = app) events)"
      unfolding as sum_counts by simp
    finally show "sum_list (map ap_count_in_period ps) = length (filter (\<lambda>e. h_applicationId e = app) events)" .
  qed
qed

theorem action_patterns_partition_witness:
  "fst ` set (detect_action_patterns [handoff_row ''e1'' ''jira'' ''log_bug'' 0]) = {''jira''}"
  using action_patterns_partition[of "[handoff_row ''e1'' ''jira'' ''log_bug'' 0]"] by (simp add: handoff_row_def)

end
