(* ===== verification/Template.thy ===== *)
theory Template
  imports Patterns GraphQueries
begin

text \<open>
  The profile generators: \<open>profiler/template_generator.py\<close> (fixed English templates filled
  from the detected patterns), the prompt of \<open>profiler/llm_generator.py\<close>, whose model call
  is not wired, and the choice between them in \<open>profiler/factory.py\<close>.
\<close>

section \<open>Template backend\<close>

definition MAX_ACTIONS_PER_APP :: nat where
  "MAX_ACTIONS_PER_APP = 3"

definition MAX_SEQUENCES :: nat where
  "MAX_SEQUENCES = 3"

definition MAX_LISTED_OBJECTS :: nat where
  "MAX_LISTED_OBJECTS = 3"

definition MAX_DEFAULT_ACTIONS :: nat where
  "MAX_DEFAULT_ACTIONS = 3"

definition MIN_SEQUENCE_CONFIDENCE :: real where
  "MIN_SEQUENCE_CONFIDENCE = 3/10"

definition join_names :: "string list \<Rightarrow> string" where
  \<comment> \<open>\<open>_join\<close>: 'a', 'a and b', 'a, b, and c'\<close>
  "join_names vs = (case vs of
     [] \<Rightarrow> []
   | [a] \<Rightarrow> a
   | [a, b] \<Rightarrow> a @ '' and '' @ b
   | _ \<Rightarrow> join '', '' (butlast vs) @ '', and '' @ last vs)"

definition recurring_actions :: "action_pattern list \<Rightarrow> action_pattern list" where
  "recurring_actions ps = take MAX_ACTIONS_PER_APP (filter (\<lambda>p. ap_frequency p \<noteq> Sporadic) ps)"

definition strong_sequences :: "sequence_pattern list \<Rightarrow> sequence_pattern list" where
  "strong_sequences qs = take MAX_SEQUENCES (filter (\<lambda>q. sq_confidence q \<ge> MIN_SEQUENCE_CONFIDENCE) qs)"

definition describe_overview :: "user_patterns \<Rightarrow> string" where
  "describe_overview p = (let apps = map fst (up_by_application p)
     in if apps = [] then ''User '' @ up_user_id p @ '' has no recorded activity yet.''
        else ''User '' @ up_user_id p @ '' has performed '' @ show_nat (up_total_events p) @
          '' actions across '' @ show_nat (length apps) @ '' application(s): '' @ join_names apps @ ''.'')"

definition describe_action :: "action_pattern \<Rightarrow> string" where
  "describe_action a = ap_action_type a @ '' ('' @ frequency_label (ap_frequency a) @ '', around '' @
     ap_typical_time a @ '')''"

definition describe_applications :: "user_patterns \<Rightarrow> string" where
  "describe_applications p = join '' '' (concat (map (\<lambda>(app, ps).
     let recurring = recurring_actions ps
     in if recurring = [] then []
        else [''In '' @ app @ '' they regularly '' @ join_names (map describe_action recurring) @ ''.''])
     (up_by_application p)))"

definition describe_sequence :: "sequence_pattern \<Rightarrow> string" where
  "describe_sequence q = sq_trigger_action q @ '' in '' @ sq_trigger_app q @ '' is usually followed by '' @
     sq_follow_action q @ '' in '' @ sq_follow_app q @ '' ('' @ sq_typical_gap q @ '', '' @
     show_int (pyround (sq_confidence q * 100)) @ ''% of the time)''"

definition describe_sequences :: "user_patterns \<Rightarrow> string" where
  "describe_sequences p = (let strong = strong_sequences (up_cross_app_sequences p)
     in if strong = [] then []
        else ''Across applications, '' @ join ''; '' (map describe_sequence strong) @ ''.'')"

definition describe_active_objects :: "user_patterns \<Rightarrow> string" where
  "describe_active_objects p = (if up_active_objects p = [] then []
     else ''They are currently active on '' @ join_names (map (\<lambda>ob. ao_object_type ob @ '' '' @
       ao_object_id ob @ '' in '' @ ao_application_id ob)
       (take MAX_LISTED_OBJECTS (up_active_objects p))) @ ''.'')"

definition describe_defaults :: "user_patterns \<Rightarrow> string" where
  "describe_defaults p = (if up_parameter_defaults p = [] then []
     else ''By default, '' @ join ''; '' (map (\<lambda>(a, params). ''when performing '' @ a @
       '' they typically use '' @ join_names (map (\<lambda>(name, v). name @ ''='' @ v) params))
       (take MAX_DEFAULT_ACTIONS (up_parameter_defaults p))) @ ''.'')"

definition template_generate :: "user_patterns \<Rightarrow> string" where
  "template_generate p = join '' '' (filter (\<lambda>s. s \<noteq> []) [describe_overview p,
     describe_applications p, describe_sequences p, describe_active_objects p, describe_defaults p])"

section \<open>LLM backend and the factory\<close>

definition build_prompt :: "user_patterns \<Rightarrow> string" where
  "build_prompt p = join [CHR 0x0A]
     ([''Summarise this enterprise user'' @ [CHR 0x27] @ ''s behaviour in two or three sentences.'',
       ''User id: '' @ up_user_id p,
       ''Total actions: '' @ show_nat (up_total_events p),
       ''Applications: '' @ (let s = join '', '' (map fst (up_by_application p))
                             in if s = [] then ''none'' else s)] @
      concat (map (\<lambda>(app, ps). map (\<lambda>a. ''- '' @ app @ '': '' @ ap_action_type a @ '' ('' @
          frequency_label (ap_frequency a) @ '', '' @ ap_typical_time a @ '', x'' @
          show_nat (ap_count_in_period a) @ '')'') ps) (up_by_application p)))"

datatype generator = TemplateGenerator | LLMGenerator

definition call_model :: "string \<Rightarrow> py_error + string" where
  "call_model prompt = Inl NotImplementedError"

definition generate :: "generator \<Rightarrow> user_patterns \<Rightarrow> py_error + string" where
  "generate g p = (case g of TemplateGenerator \<Rightarrow> Inr (template_generate p)
     | LLMGenerator \<Rightarrow> call_model (build_prompt p))"

definition build_profile_generator :: "string \<Rightarrow> py_error + generator" where
  "build_profile_generator backend =
     (if backend = ''template'' then Inr TemplateGenerator
      else if backend = ''llm'' then Inl NotImplementedError
      else Inl (ValueError (''Unknown profile generator backend: '' @ repr_str backend)))"

section \<open>What a profile says\<close>

lemma build_profile_generator_ok: "build_profile_generator backend = Inr g \<longleftrightarrow> backend = ''template'' \<and> g = TemplateGenerator"
  by (auto simp: build_profile_generator_def)

lemma build_profile_generator_generates:
  "build_profile_generator backend = Inr g \<Longrightarrow> generate g p = Inr (template_generate p)"
  by (simp add: build_profile_generator_ok generate_def)

lemma describe_overview_nonempty [simp]: "describe_overview p \<noteq> []"
  by (simp add: describe_overview_def Let_def)

lemma contains_refl [simp]: "contains s s"
  unfolding contains_iff by (metis append_Nil append_Nil2)

lemma contains_append_right: "contains sub b \<Longrightarrow> contains sub (a @ b)"
  unfolding contains_iff by (metis append.assoc)

lemma contains_mid: "contains sub b \<Longrightarrow> contains sub (a @ b @ c)"
  by (simp add: contains_append_right contains_append_left)

lemma contains_trans: "contains a b \<Longrightarrow> contains b c \<Longrightarrow> contains a c"
  unfolding contains_iff by (metis append.assoc)

lemma in_join: "x \<in> set xs \<Longrightarrow> contains x (join sep xs)"
  by (rule newline_sep) auto

lemma join_names_many: "3 \<le> length xs \<Longrightarrow> join_names xs = join '', '' (butlast xs) @ '', and '' @ last xs"
  by (cases xs; cases "tl xs"; cases "tl (tl xs)") (auto simp: join_names_def)

lemma in_join_names:
  assumes x: "x \<in> set xs"
  shows "contains x (join_names xs)"
proof -
  have e: "contains x (a @ b)" if "contains x a \<or> contains x b" for a b
    using that contains_append_left contains_append_right by blast
  consider a where "xs = [a]" | a b where "xs = [a, b]" | "3 \<le> length xs"
    using x by (cases xs; cases "tl xs"; cases "tl (tl xs)") auto
  then show ?thesis
  proof cases
    case (1 a)
    then show ?thesis using x by (simp add: join_names_def)
  next
    case (2 a b)
    then have "contains x a \<or> contains x b" using x by auto
    then have "contains x (a @ ('' and '' @ b))" by (intro e) (use e in blast)
    then show ?thesis using 2 by (simp add: join_names_def)
  next
    case 3
    then have "x \<in> set (butlast xs) \<or> x = last xs"
      using x by (metis append_butlast_last_id list.size(3) not_numeral_le_zero rotate1.simps(2) set_ConsD set_rotate1)
    then have "contains x (join '', '' (butlast xs)) \<or> contains x (last xs)" using in_join by auto
    then have "contains x (join '', '' (butlast xs) @ ('', and '' @ last xs))" by (intro e) (use e in blast)
    then show ?thesis using join_names_many[OF 3] by simp
  qed
qed

lemma recurring_actions_spec:
  "length (recurring_actions ps) \<le> 3" "set (recurring_actions ps) \<subseteq> {p \<in> set ps. ap_frequency p \<noteq> Sporadic}"
  by (auto simp: recurring_actions_def MAX_ACTIONS_PER_APP_def dest: in_set_takeD)

lemma take_filter_dominates:
  assumes "sorted_wrt P xs" "x \<in> set (take n (filter Q xs))" "y \<in> set (filter Q xs)" "y \<notin> set (take n (filter Q xs))"
  shows "P x y"
proof -
  have "y \<in> set (drop n (filter Q xs))"
    using assms(3,4) by (metis UnE append_take_drop_id set_append)
  then show ?thesis using sorted_take_dominates[OF sorted_wrt_filter[OF assms(1)] assms(2)] by blast
qed

lemma template_contains:
  assumes "s \<in> {describe_overview p, describe_applications p, describe_sequences p,
     describe_active_objects p, describe_defaults p}"
  shows "contains s (template_generate p)"
proof (cases "s = []")
  case True
  then show ?thesis using contains_iff[of "[]"] by auto
next
  case False
  then have "s \<in> set (filter (\<lambda>s. s \<noteq> []) [describe_overview p, describe_applications p,
     describe_sequences p, describe_active_objects p, describe_defaults p])" using assms by auto
  then show ?thesis unfolding template_generate_def by (rule in_join)
qed

lemma template_nonempty: "template_generate p \<noteq> []"
proof
  assume e: "template_generate p = []"
  have "contains (describe_overview p) (template_generate p)" by (rule template_contains) simp
  then show False unfolding e by simp
qed

text \<open>What the sections hold.\<close>

definition recurring :: "action_pattern \<Rightarrow> bool" where
  "recurring a = (ap_frequency a \<noteq> Sporadic)"

definition application_clause :: "string \<Rightarrow> action_pattern list \<Rightarrow> string" where
  \<comment> \<open>the sentence that names these actions of an application, and no other\<close>
  "application_clause app as = ''In '' @ app @ '' they regularly '' @ join_names (map describe_action as) @ ''.''"

lemma describe_applications_clause:
  assumes "(app, ps) \<in> set (up_by_application p)" "recurring_actions ps \<noteq> []"
  shows "contains (application_clause app (recurring_actions ps)) (describe_applications p)"
  unfolding describe_applications_def application_clause_def
  using assms by (intro in_join) (auto simp: Let_def intro!: bexI[of _ "(app, ps)"])

lemma clause_names: "a \<in> set as \<Longrightarrow> contains (describe_action a) (application_clause app as)"
  unfolding application_clause_def
  using in_join_names[of "describe_action a" "map describe_action as"]
  by (intro contains_append_right contains_append_left) simp

definition busiest_first :: "action_pattern list \<Rightarrow> bool" where
  "busiest_first = sorted_wrt (\<lambda>x y. ap_count_in_period y \<le> ap_count_in_period x)"

definition named_actions :: "action_pattern list \<Rightarrow> action_pattern list" where
  \<comment> \<open>three recurring actions, or all when there are fewer\<close>
  "named_actions ps = take 3 (filter recurring ps)"

lemma recurring_actions_named: "recurring_actions ps = named_actions ps"
  by (simp add: recurring_actions_def named_actions_def MAX_ACTIONS_PER_APP_def recurring_def[abs_def])

lemma named_actions_busiest:
  "busiest_first ps \<Longrightarrow> a \<in> set (named_actions ps) \<Longrightarrow> b \<in> set ps \<Longrightarrow> recurring b \<Longrightarrow>
    b \<notin> set (named_actions ps) \<Longrightarrow> ap_count_in_period b \<le> ap_count_in_period a"
  using take_filter_dominates[of "\<lambda>x y. ap_count_in_period y \<le> ap_count_in_period x" ps a 3 recurring b]
  unfolding named_actions_def busiest_first_def by auto

lemma application_named:
  assumes "(app, ps) \<in> set (up_by_application p)"
  shows "named_actions ps \<noteq> [] \<Longrightarrow> contains (application_clause app (named_actions ps)) (template_generate p)"
    and "a \<in> set (named_actions ps) \<Longrightarrow> contains (describe_action a) (template_generate p)"
proof -
  have t: "contains (describe_applications p) (template_generate p)" by (rule template_contains) simp
  show c: "contains (application_clause app (named_actions ps)) (template_generate p)" if "named_actions ps \<noteq> []"
    using contains_trans[OF describe_applications_clause[OF assms, unfolded recurring_actions_named, OF that] t] .
  show "contains (describe_action a) (template_generate p)" if "a \<in> set (named_actions ps)"
    using contains_trans[OF clause_names[OF that, of app] c] that by (metis empty_iff empty_set)
qed

lemma sequence_named:
  assumes "q \<in> set (strong_sequences (up_cross_app_sequences p))"
  shows "contains (describe_sequence q) (template_generate p)"
proof -
  let ?j = "join ''; '' (map describe_sequence (strong_sequences (up_cross_app_sequences p)))"
  have "contains (describe_sequence q) ?j" using assms by (intro in_join) simp
  then have "contains (describe_sequence q) (''Across applications, '' @ ?j @ ''.'')"
    by (intro contains_append_right contains_append_left)
  moreover have "describe_sequences p = ''Across applications, '' @ ?j @ ''.''"
    using assms by (auto simp: describe_sequences_def Let_def)
  moreover have "contains (describe_sequences p) (template_generate p)" by (rule template_contains) simp
  ultimately show ?thesis using contains_trans by metis
qed

definition describe_object :: "active_object \<Rightarrow> string" where
  "describe_object ob = ao_object_type ob @ '' '' @ ao_object_id ob @ '' in '' @ ao_application_id ob"

lemma object_named:
  assumes "ob \<in> set (take 3 (up_active_objects p))"
  shows "contains (describe_object ob) (template_generate p)"
proof -
  let ?j = "join_names (map describe_object (take 3 (up_active_objects p)))"
  have "contains (describe_object ob) ?j" using assms by (intro in_join_names) simp
  then have "contains (describe_object ob) (''They are currently active on '' @ ?j @ ''.'')"
    by (intro contains_append_right contains_append_left)
  moreover have "describe_active_objects p = ''They are currently active on '' @ ?j @ ''.''"
    using assms by (auto simp: describe_active_objects_def MAX_LISTED_OBJECTS_def describe_object_def[abs_def])
  moreover have "contains (describe_active_objects p) (template_generate p)" by (rule template_contains) simp
  ultimately show ?thesis using contains_trans by metis
qed

section \<open>Properties\<close>

text \<open>
  C24: the profile is never empty and contains each of its sections. Of each application it names, in one sentence,
  three recurring actions, or all when there are fewer, none sporadic; as the detector lists the
  busiest first, no recurring action left out is more frequent than one that is named. It also names
  the first three sequences of at least thirty per cent and the first three active objects.
\<close>

theorem template_profile:
  "(\<forall>s \<in> {describe_overview p, describe_applications p, describe_sequences p, describe_active_objects p,
      describe_defaults p}. contains s (template_generate p)) \<and>
   (\<forall>(app, ps) \<in> set (up_by_application p).
      length (named_actions ps) = min 3 (length (filter recurring ps)) \<and>
      (named_actions ps \<noteq> [] \<longrightarrow> contains (application_clause app (named_actions ps)) (template_generate p)) \<and>
      (\<forall>a \<in> set (named_actions ps). a \<in> set ps \<and> recurring a \<and> contains (describe_action a) (template_generate p)) \<and>
      (busiest_first ps \<longrightarrow> (\<forall>a \<in> set (named_actions ps). \<forall>b \<in> set ps. recurring b \<longrightarrow>
         b \<notin> set (named_actions ps) \<longrightarrow> ap_count_in_period b \<le> ap_count_in_period a))) \<and>
   (\<forall>q \<in> set (take 3 (filter (\<lambda>q. 3/10 \<le> sq_confidence q) (up_cross_app_sequences p))).
      contains (describe_sequence q) (template_generate p)) \<and>
   (\<forall>ob \<in> set (take 3 (up_active_objects p)). contains (describe_object ob) (template_generate p)) \<and>
   template_generate p \<noteq> []"
proof (intro conjI ballI)
  show "template_generate p \<noteq> []" by (rule template_nonempty)
  show "contains s (template_generate p)"
    if "s \<in> {describe_overview p, describe_applications p, describe_sequences p, describe_active_objects p,
      describe_defaults p}" for s
    using that by (rule template_contains)
  show "case x of (app, ps) \<Rightarrow> length (named_actions ps) = min 3 (length (filter recurring ps)) \<and>
      (named_actions ps \<noteq> [] \<longrightarrow> contains (application_clause app (named_actions ps)) (template_generate p)) \<and>
      (\<forall>a \<in> set (named_actions ps). a \<in> set ps \<and> recurring a \<and> contains (describe_action a) (template_generate p)) \<and>
      (busiest_first ps \<longrightarrow> (\<forall>a \<in> set (named_actions ps). \<forall>b \<in> set ps. recurring b \<longrightarrow>
         b \<notin> set (named_actions ps) \<longrightarrow> ap_count_in_period b \<le> ap_count_in_period a))"
    if "x \<in> set (up_by_application p)" for x
  proof -
    obtain app ps where x: "x = (app, ps)" by (rule prod.exhaust)
    have m: "set (named_actions ps) \<subseteq> set (filter recurring ps)" unfolding named_actions_def by (rule set_take_subset)
    have l: "length (named_actions ps) = min 3 (length (filter recurring ps))" by (simp add: named_actions_def)
    show ?thesis unfolding x prod.case
      using l m application_named[OF that[unfolded x]] named_actions_busiest[of ps] by auto
  qed
  show "contains (describe_sequence q) (template_generate p)"
    if "q \<in> set (take 3 (filter (\<lambda>q. 3/10 \<le> sq_confidence q) (up_cross_app_sequences p)))" for q
    using that by (intro sequence_named) (simp add: strong_sequences_def MAX_SEQUENCES_def MIN_SEQUENCE_CONFIDENCE_def)
  show "contains (describe_object ob) (template_generate p)" if "ob \<in> set (take 3 (up_active_objects p))" for ob
    using that by (rule object_named)
qed

definition sample_action :: "string \<Rightarrow> frequency \<Rightarrow> nat \<Rightarrow> action_pattern" where
  "sample_action act freq n = \<lparr>ap_action_type = act, ap_frequency = freq, ap_typical_time = ''9-10 AM'',
     ap_count_in_period = n, ap_confidence = 1/2\<rparr>"

definition sample_patterns :: user_patterns where
  "sample_patterns = \<lparr>up_user_id = ''ann'', up_total_events = 30, up_by_application =
     [(''jira'', [sample_action ''triage'' Sporadic 9, sample_action ''log_bug'' Daily 8, sample_action ''review'' Weekly 6,
        sample_action ''close_sprint'' Weekly 4, sample_action ''archive'' Monthly 3])],
     up_cross_app_sequences = [], up_active_objects = [], up_parameter_defaults = []\<rparr>"

theorem template_profile_witness:
  "contains (application_clause ''jira'' [sample_action ''log_bug'' Daily 8, sample_action ''review'' Weekly 6,
     sample_action ''close_sprint'' Weekly 4]) (template_generate sample_patterns)"
proof -
  let ?ps = "[sample_action ''triage'' Sporadic 9, sample_action ''log_bug'' Daily 8, sample_action ''review'' Weekly 6,
        sample_action ''close_sprint'' Weekly 4, sample_action ''archive'' Monthly 3]"
  have m: "(''jira'', ?ps) \<in> set (up_by_application sample_patterns)" by (simp add: sample_patterns_def)
  have f: "named_actions ?ps = [sample_action ''log_bug'' Daily 8, sample_action ''review'' Weekly 6,
     sample_action ''close_sprint'' Weekly 4]" by (simp add: named_actions_def recurring_def sample_action_def)
  show ?thesis
    using bspec[OF conjunct1[OF conjunct2[OF template_profile[of sample_patterns]]] m] unfolding prod.case f by simp
qed

end
