(* ===== verification/Http.thy ===== *)
theory Http
  imports PyValues
begin

text \<open>
  Requests and responses as the middleware and the handlers see them, and the structured error
  bodies they share. A body is what \<open>json.loads\<close> makes of its bytes: nothing, a text that is
  not JSON, bytes that are not UTF-8, or a value.
\<close>

datatype body = EmptyBody | NotJson | NotUtf8 | Body json

record request =
  rq_method :: string
  rq_path :: string
  rq_tenant :: "string option"  \<comment> \<open>the header \<open>x-tenant-id\<close>\<close>
  rq_body :: body
  rq_id :: string  \<comment> \<open>\<open>request.state.request_id\<close>\<close>
  rq_days :: "int option"  \<comment> \<open>query parameters\<close>
  rq_limit :: "int option"

record 'c response =
  rs_status :: nat
  rs_content :: 'c
  rs_headers :: "(string \<times> string) list"

definition json_response :: "nat \<Rightarrow> json \<Rightarrow> json response" where
  "json_response status content = \<lparr>rs_status = status, rs_content = content, rs_headers = []\<rparr>"

definition error_body :: "string \<Rightarrow> string \<Rightarrow> string \<Rightarrow> json" where
  \<comment> \<open>\<open>_error_body\<close> of the routes and \<open>_error_content\<close> of the application\<close>
  "error_body err detail request_id =
     JObj [(''error'', JStr err), (''detail'', JStr detail), (''requestId'', JStr request_id)]"

definition loads_body :: "body \<Rightarrow> py_error + json option" where
  \<comment> \<open>\<open>json.loads(body) if body else {}\<close>; \<open>None\<close> when it raises \<open>JSONDecodeError\<close>\<close>
  "loads_body b = (case b of EmptyBody \<Rightarrow> Inr (Some (JObj [])) | NotJson \<Rightarrow> Inr None
     | NotUtf8 \<Rightarrow> Inl UnicodeDecodeError | Body j \<Rightarrow> Inr (Some j))"

definition BATCH_PATH :: string where
  "BATCH_PATH = ''/v1/events/batch''"

lemma json_response_sel [simp]: "rs_status (json_response st c) = st" "rs_content (json_response st c) = c"
  by (simp_all add: json_response_def)

end
