(* ===== verification/Routes.thy ===== *)
theory Routes
  imports Scorer Template Http
begin

text \<open>
  The reading handlers: \<open>api/routes/intent.py\<close>, \<open>api/routes/profile.py\<close>,
  \<open>api/routes/admin.py\<close> and \<open>api/routes/health.py\<close>, with the configuration of
  \<open>config.py\<close> and the request and response models of \<open>core/models.py\<close> they use.
  Handlers take the operations of the graph they read as arguments.
\<close>

section \<open>Configuration\<close>

record settings =
  api_host :: string
  api_port :: int
  api_workers :: int
  log_level :: string
  neo4j_uri :: string
  neo4j_user :: string
  neo4j_password :: string
  neo4j_database :: string
  neo4j_max_connection_pool_size :: int
  prediction_history_days :: int
  prediction_max_results :: int
  schema_path :: string
  settings_max_future_seconds :: int
  events_rate_limit_per_minute :: int
  intent_rate_limit_per_minute :: int
  profile_generator_backend :: string
  profile_schedule_interval_hours :: int
  profile_min_events_to_generate :: int
  cors_allow_origins :: string

definition default_settings :: settings where
  "default_settings = \<lparr>api_host = ''0.0.0.0'', api_port = 8000, api_workers = 4, log_level = ''info'',
     neo4j_uri = ''bolt://localhost:7687'', neo4j_user = ''neo4j'',
     neo4j_password = ''context-engine-dev'', neo4j_database = ''neo4j'',
     neo4j_max_connection_pool_size = 50, prediction_history_days = 14, prediction_max_results = 5,
     schema_path = ''schemas/event/v1.0.0/event.schema.json'', settings_max_future_seconds = 300,
     events_rate_limit_per_minute = 1000, intent_rate_limit_per_minute = 100,
     profile_generator_backend = ''template'', profile_schedule_interval_hours = 24,
     profile_min_events_to_generate = 10, cors_allow_origins = ''*''\<rparr>"

section \<open>Intent\<close>

record trigger =
  t_source :: string
  t_text :: "string option"
  t_timestamp :: "pydatetime option"

record intent_request =
  iq_tenant_id :: string
  iq_user_id :: string
  iq_user_id_type :: string
  iq_trigger :: "trigger option"
  iq_max_predictions :: int

record intent_response =
  ir_predictions :: "prediction list"
  ir_userId :: string
  ir_resolvedAt :: pydatetime

definition resolve_intent ::
  "(string \<Rightarrow> string \<Rightarrow> int \<Rightarrow> py_error + history_row list) \<Rightarrow> (string \<Rightarrow> string \<Rightarrow> py_error + string option) \<Rightarrow>
   (string \<Rightarrow> string \<Rightarrow> int \<Rightarrow> py_error + history_row list) \<Rightarrow> (string \<times> string list) list \<Rightarrow> settings \<Rightarrow>
   pydatetime \<Rightarrow> intent_request \<Rightarrow> py_error + intent_response" where
  "resolve_intent get_user_history get_canonical get_cross_app mappings cfg now body =
     (let trigger_text = (case iq_trigger body of None \<Rightarrow> None | Some t \<Rightarrow> t_text t)
      in ebind (score get_user_history get_canonical get_cross_app mappings now (iq_tenant_id body)
             (iq_user_id body) trigger_text (iq_max_predictions body) (prediction_history_days cfg))
           (\<lambda>ps. Inr \<lparr>ir_predictions = ps, ir_userId = iq_user_id body, ir_resolvedAt = now\<rparr>))"

section \<open>Profile\<close>

record action_pattern_out =
  apo_actionType :: string
  apo_frequency :: string
  apo_typicalTime :: string
  apo_countInPeriod :: nat
  apo_confidence :: real

record sequence_pattern_out =
  spo_triggerApp :: string
  spo_triggerAction :: string
  spo_followApp :: string
  spo_followAction :: string
  spo_typicalGap :: string
  spo_confidence :: real

record active_object_out =
  obo_applicationId :: string
  obo_objectType :: string
  obo_objectId :: string
  obo_interactionCount :: nat
  obo_lastActivity :: pydatetime

record profile_response =
  pf_userId :: string
  pf_profile :: string
  pf_generatedAt :: "pydatetime option"
  pf_version :: "int option"
  pf_totalEvents :: nat
  pf_byApplication :: "(string, action_pattern_out list) pydict"
  pf_crossAppSequences :: "sequence_pattern_out list"
  pf_activeObjects :: "active_object_out list"

definition out_pattern :: "action_pattern \<Rightarrow> action_pattern_out" where
  "out_pattern p = \<lparr>apo_actionType = ap_action_type p, apo_frequency = frequency_label (ap_frequency p),
     apo_typicalTime = ap_typical_time p, apo_countInPeriod = ap_count_in_period p,
     apo_confidence = ap_confidence p\<rparr>"

definition out_sequence :: "sequence_pattern \<Rightarrow> sequence_pattern_out" where
  "out_sequence q = \<lparr>spo_triggerApp = sq_trigger_app q, spo_triggerAction = sq_trigger_action q,
     spo_followApp = sq_follow_app q, spo_followAction = sq_follow_action q,
     spo_typicalGap = sq_typical_gap q, spo_confidence = sq_confidence q\<rparr>"

definition out_object :: "active_object \<Rightarrow> active_object_out" where
  "out_object ob = \<lparr>obo_applicationId = ao_application_id ob, obo_objectType = ao_object_type ob,
     obo_objectId = ao_object_id ob, obo_interactionCount = ao_interaction_count ob,
     obo_lastActivity = ao_last_activity ob\<rparr>"

definition to_response ::
  "string \<Rightarrow> string \<Rightarrow> pydatetime option \<Rightarrow> int option \<Rightarrow> user_patterns \<Rightarrow> profile_response" where
  "to_response user profile_text generated_at version patterns =
     \<lparr>pf_userId = user, pf_profile = profile_text, pf_generatedAt = generated_at, pf_version = version,
      pf_totalEvents = up_total_events patterns,
      pf_byApplication = map (\<lambda>(app, app_patterns). (app, map out_pattern app_patterns)) (up_by_application patterns),
      pf_crossAppSequences = map out_sequence (up_cross_app_sequences patterns),
      pf_activeObjects = map out_object (up_active_objects patterns)\<rparr>"

definition profile_route ::
  "(string \<Rightarrow> string \<Rightarrow> int \<Rightarrow> py_error + history_row list) \<Rightarrow> (string \<Rightarrow> string \<Rightarrow> py_error + nat) \<Rightarrow>
   (string \<Rightarrow> string \<Rightarrow> py_error + stored_profile option) \<Rightarrow> (user_patterns \<Rightarrow> py_error + string) \<Rightarrow>
   settings \<Rightarrow> pydatetime \<Rightarrow> string \<Rightarrow> string \<Rightarrow> py_error + profile_response" where
  "profile_route get_user_history get_event_count get_profile gen cfg now user tenant =
     ebind (detect get_user_history get_event_count now tenant user) (\<lambda>patterns.
     if int (up_total_events patterns) < profile_min_events_to_generate cfg then
       Inl (InsufficientDataError user (int (up_total_events patterns)) (profile_min_events_to_generate cfg))
     else ebind (get_profile tenant user) (\<lambda>stored. case stored of
       Some p \<Rightarrow> Inr (to_response user (nlqProfile p) (profileGeneratedAt p) (profileVersion p) patterns)
     | None \<Rightarrow> ebind (gen patterns) (\<lambda>txt. Inr (to_response user txt None None patterns))))"

section \<open>Admin and health\<close>

definition ALL_USERS_WINDOW_DAYS :: int where
  "ALL_USERS_WINDOW_DAYS = 3650"

definition DEFAULT_EVENT_WINDOW_DAYS :: int where
  "DEFAULT_EVENT_WINDOW_DAYS = 180"

definition DEFAULT_EVENT_LIMIT :: int where
  "DEFAULT_EVENT_LIMIT = 500"

definition MAX_EVENT_LIMIT :: int where
  "MAX_EVENT_LIMIT = 5000"

definition query_int :: "string \<Rightarrow> int \<Rightarrow> int \<Rightarrow> int option \<Rightarrow> int option \<Rightarrow> py_error + int" where
  \<comment> \<open>\<open>Query(default, ge=low, le=high)\<close>\<close>
  "query_int name dflt low high q = (let v = (case q of None \<Rightarrow> dflt | Some x \<Rightarrow> x)
     in if low \<le> v \<and> (case high of None \<Rightarrow> True | Some h \<Rightarrow> v \<le> h) then Inr v
        else Inl (RequestValidationError name))"

record events_page =
  pg_userId :: string
  pg_events :: "history_row list"
  pg_limit :: int
  pg_truncated :: bool

definition list_users ::
  "(string \<Rightarrow> int \<Rightarrow> py_error + string list) \<Rightarrow> string \<Rightarrow> int option \<Rightarrow> py_error + string list" where
  "list_users get_active tenant days = ebind (query_int ''query.days'' ALL_USERS_WINDOW_DAYS 1 None days)
     (\<lambda>d. get_active tenant d)"

definition list_user_events ::
  "(string \<Rightarrow> string \<Rightarrow> int \<Rightarrow> nat option \<Rightarrow> py_error + history_row list) \<Rightarrow> string \<Rightarrow> string \<Rightarrow>
   int option \<Rightarrow> int option \<Rightarrow> py_error + events_page" where
  "list_user_events get_history user tenant days limit =
     ebind (query_int ''query.days'' DEFAULT_EVENT_WINDOW_DAYS 1 None days) (\<lambda>d.
     ebind (query_int ''query.limit'' DEFAULT_EVENT_LIMIT 1 (Some MAX_EVENT_LIMIT) limit) (\<lambda>n.
     ebind (get_history tenant user d (Some (nat n))) (\<lambda>events.
     Inr \<lparr>pg_userId = user, pg_events = events, pg_limit = n, pg_truncated = int (length events) \<ge> n\<rparr>)))"

definition liveness :: "json response" where
  "liveness = json_response 200 (JObj [(''status'', JStr ''ok'')])"

definition readiness :: "py_error + unit \<Rightarrow> json response" where
  \<comment> \<open>given what \<open>verify_connectivity\<close> did\<close>
  "readiness r = (case r of
     Inl _ \<Rightarrow> json_response 503 (JObj [(''status'', JStr ''unavailable'')])
   | Inr _ \<Rightarrow> json_response 200 (JObj [(''status'', JStr ''ready'')]))"

section \<open>Lemmas\<close>

lemma query_int_Inr: "query_int name def low high q = Inr v \<Longrightarrow> low \<le> v \<and> (\<forall>h. high = Some h \<longrightarrow> v \<le> h)"
  by (auto simp: query_int_def Let_def split: if_splits option.splits)

lemma query_int_error: "query_int name def low high q = Inl e \<Longrightarrow> e = RequestValidationError name"
  by (auto simp: query_int_def Let_def split: if_splits)

end
