(* ===== verification/RateLimit.thy ===== *)
theory RateLimit
  imports Http Timestamps
begin

text \<open>
  \<open>api/middleware/rate_limit.py\<close>: fixed one-minute windows, counted per tenant and class of
  endpoint. The wall clock is given in microseconds since the epoch.
\<close>

section \<open>Definitions\<close>

record limits =
  events_limit :: int
  intent_limit :: int

type_synonym counts = "(string \<times> int, nat) pydict"

definition EVENTS_PATHS :: "string list" where
  "EVENTS_PATHS = [''/v1/events'', ''/v1/events/batch'']"

definition INTENT_PATHS :: "string list" where
  "INTENT_PATHS = [''/v1/resolve-intent'']"

definition bucket_for :: "limits \<Rightarrow> string \<Rightarrow> int option \<times> string" where
  "bucket_for L path =
     (if path \<in> set EVENTS_PATHS then (Some (events_limit L), ''events'')
      else if path \<in> set INTENT_PATHS then (Some (intent_limit L), ''intent'')
      else (None, []))"

definition str_or_none :: "json \<Rightarrow> string option" where
  "str_or_none j = (case j of JStr s \<Rightarrow> Some s | _ \<Rightarrow> None)"

definition first_event :: "json \<Rightarrow> py_error + json" where
  \<comment> \<open>\<open>events[0] if events and isinstance(events[0], dict) else {}\<close>\<close>
  "first_event events = (if truthy events
     then ebind (py_item0 events) (\<lambda>e. Inr (if is_dict e then e else JObj []))
     else Inr (JObj []))"

definition tenant_in_body :: "request \<Rightarrow> string \<Rightarrow> py_error + string option" where
  "tenant_in_body req bucket = ebind (loads_body (rq_body req)) (\<lambda>payload. case payload of
     Some (JObj d) \<Rightarrow>
       if bucket = ''events'' \<and> rq_path req = BATCH_PATH then
         ebind (first_event (py_or (dget ''events'' d) (JList []))) (\<lambda>first.
         ebind (py_get ''tenantId'' first) (\<lambda>v. Inr (str_or_none v)))
       else Inr (str_or_none (dget ''tenantId'' d))
   | _ \<Rightarrow> Inr None)"

definition extract_tenant_id :: "request \<Rightarrow> string \<Rightarrow> py_error + string option" where
  "extract_tenant_id req bucket = (case rq_tenant req of
     Some t \<Rightarrow> if t \<noteq> [] then Inr (Some t) else tenant_in_body req bucket
   | None \<Rightarrow> tenant_in_body req bucket)"

definition prune :: "int \<Rightarrow> counts \<Rightarrow> counts" where
  "prune window c = filter (\<lambda>((k, w), n). w = window) c"

definition count_key :: "string \<Rightarrow> string \<Rightarrow> string" where
  "count_key tenant bucket = tenant @ '':'' @ bucket"

definition window_of :: "int \<Rightarrow> int" where
  "window_of now = now div us_per_minute"

definition rate_limited :: "string \<Rightarrow> request \<Rightarrow> json response" where
  "rate_limited bucket req = \<lparr>rs_status = 429,
     rs_content = JObj [(''error'', JStr ''rate_limited''),
       (''detail'', JStr (''rate limit exceeded for '' @ bucket)), (''request_id'', JStr (rq_id req))],
     rs_headers = [(''Retry-After'', ''60'')]\<rparr>"

definition rate_limit :: "limits \<Rightarrow> int \<Rightarrow> request \<Rightarrow> counts \<Rightarrow> py_error + counts \<times> json response option" where
  \<comment> \<open>\<open>dispatch\<close>: no response means the request is passed on\<close>
  "rate_limit L now req c = (case bucket_for L (rq_path req) of
     (None, _) \<Rightarrow> Inr (c, None)
   | (Some limit, bucket) \<Rightarrow> ebind (extract_tenant_id req bucket) (\<lambda>tenant. case tenant of
       None \<Rightarrow> Inr (c, None)
     | Some tenant_id \<Rightarrow>
         let key = (count_key tenant_id bucket, window_of now);
             c' = dict_mod key Suc 0 (prune (window_of now) c)
         in Inr (c', if int (counter_get c' key) > limit then Some (rate_limited bucket req) else None)))"

fun run_limiter :: "limits \<Rightarrow> (int \<times> request) list \<Rightarrow> counts \<Rightarrow> bool list" where
  \<comment> \<open>a series of requests: which of them are passed on\<close>
  "run_limiter L [] c = []"
| "run_limiter L ((now, req) # rs) c = (case rate_limit L now req c of
     Inl e \<Rightarrow> False # run_limiter L rs c
   | Inr (c', r) \<Rightarrow> (r = None) # run_limiter L rs c')"

section \<open>What a request is charged to\<close>

definition charge :: "limits \<Rightarrow> request \<Rightarrow> (int \<times> string \<times> string) option" where
  \<comment> \<open>the limit, the tenant and the class of a request that counts\<close>
  "charge L req = (case bucket_for L (rq_path req) of
     (None, _) \<Rightarrow> None
   | (Some limit, bucket) \<Rightarrow> (case extract_tenant_id req bucket of
       Inr (Some t) \<Rightarrow> Some (limit, t, bucket) | _ \<Rightarrow> None))"

lemma bucket_cases: "bucket_for L path = (Some l, b) \<Longrightarrow>
    b = ''events'' \<and> l = events_limit L \<or> b = ''intent'' \<and> l = intent_limit L"
  by (auto simp: bucket_for_def split: if_splits)

lemma charge_bucket: "charge L req = Some (l, t, b) \<Longrightarrow>
    b = ''events'' \<and> l = events_limit L \<or> b = ''intent'' \<and> l = intent_limit L"
  by (auto simp: charge_def split: prod.splits option.splits sum.splits dest: bucket_cases)

text \<open>The key of the dictionary tells the tenants and the classes apart.\<close>

lemma count_key_inj:
  assumes "b \<in> {''events'', ''intent''}" "b' \<in> {''events'', ''intent''}"
  shows "count_key t b = count_key t' b' \<longleftrightarrow> t = t' \<and> b = b'"
proof -
  have "'':events'' \<noteq> drop 1 x" if "x = '':intent''" for x using that by simp
  show ?thesis using assms by (auto simp: count_key_def append_eq_append_conv2 append_eq_Cons_conv Cons_eq_append_conv)
qed

lemma rate_limit_charged:
  assumes "charge L req = Some (l, t, b)"
  shows "rate_limit L now req c = (let key = (count_key t b, window_of now);
      c' = dict_mod key Suc 0 (prune (window_of now) c)
    in Inr (c', if int (counter_get c' key) > l then Some (rate_limited b req) else None))"
  using assms by (auto simp: charge_def rate_limit_def split: prod.splits option.splits sum.splits)

lemma rate_limit_free:
  "charge L req = None \<Longrightarrow> rate_limit L now req c = Inr (c, None) \<or> (\<exists>e. rate_limit L now req c = Inl e)"
  by (auto simp: charge_def rate_limit_def split: prod.splits option.splits sum.splits)

section \<open>The budget of a window\<close>

lemma counter_get_prune:
  "counter_get (prune w c) (k, w') = (if w' = w then counter_get c (k, w') else 0)"
proof -
  have "map_of (filter (\<lambda>((k, v), n). v = w) c) (k, w') = (if w' = w then map_of c (k, w') else None)"
    by (induction c) auto
  then show ?thesis by (simp add: counter_get_def prune_def)
qed

lemma counter_get_mod: "counter_get (dict_mod k Suc 0 c) k' = (if k' = k then Suc (counter_get c k) else counter_get c k')"
  by (simp add: counter_get_def dict_simps split: option.split)

definition charged :: "limits \<Rightarrow> string \<Rightarrow> string \<Rightarrow> int \<Rightarrow> int \<times> request \<Rightarrow> bool" where
  "charged L t b w x = (window_of (fst x) = w \<and> (\<exists>l. charge L (snd x) = Some (l, t, b)))"

definition passed :: "limits \<Rightarrow> string \<Rightarrow> string \<Rightarrow> int \<Rightarrow> (int \<times> request) list \<Rightarrow> counts \<Rightarrow> nat" where
  \<comment> \<open>how many of the requests charged to a tenant and class in a window are passed on\<close>
  "passed L t b w rs c = length (filter (\<lambda>(x, ok). charged L t b w x \<and> ok) (zip rs (run_limiter L rs c)))"

definition limit_of :: "limits \<Rightarrow> string \<Rightarrow> int" where
  "limit_of L b = (if b = ''events'' then events_limit L else intent_limit L)"

lemma charge_limit: "charge L req = Some (l, t, b) \<Longrightarrow> l = limit_of L b \<and> b \<in> {''events'', ''intent''}"
  using charge_bucket[of L req l t b] by (auto simp: limit_of_def)

lemma passed_Cons: "passed L t b w ((now, req) # rs) c =
   (case rate_limit L now req c of
      Inl e \<Rightarrow> passed L t b w rs c
    | Inr (c', r) \<Rightarrow> (if charged L t b w (now, req) \<and> r = None then 1 else 0) + passed L t b w rs c')"
  by (auto simp: passed_def split: sum.splits prod.splits)

lemma uncharged_later:
  assumes "\<forall>x \<in> set rs. window_of (fst x) \<noteq> w"
  shows "passed L t b w rs c = 0" "filter (charged L t b w) rs = []"
  using assms by (auto simp: passed_def charged_def filter_empty_conv dest!: set_zip_leftD)

definition not_ahead :: "counts \<Rightarrow> (int \<times> request) list \<Rightarrow> bool" where
  \<comment> \<open>no count belongs to a window later than one of the requests\<close>
  "not_ahead c rs = (\<forall>k \<in> fst ` set c. \<forall>x \<in> set rs. snd k \<le> window_of (fst x))"

lemma not_ahead_step:
  assumes "\<And>y. y \<in> set rs \<Longrightarrow> w \<le> window_of (fst y)"
  shows "not_ahead (dict_mod (k, w) Suc 0 (prune w c)) rs"
proof -
  have "fst ` set (dict_mod (k, w) Suc 0 (prune w c)) = insert (k, w) (fst ` set (prune w c))"
    using keys_dict_mod[of "(k, w)" Suc 0 "prune w c"] by simp
  moreover have "snd k' = w" if "k' \<in> fst ` set (prune w c)" for k'
    using that by (auto simp: prune_def)
  ultimately show ?thesis using assms by (auto simp: not_ahead_def)
qed

lemma not_ahead_zero:
  assumes "not_ahead c rs" "x \<in> set rs" "window_of (fst x) < w"
  shows "counter_get c (k, w) = 0"
proof -
  have "snd k' \<le> window_of (fst x)" if "k' \<in> fst ` set c" for k'
    using assms(1,2) that unfolding not_ahead_def by blast
  then have "(k, w) \<notin> fst ` set c" using assms(3) by fastforce
  then show ?thesis by (simp add: counter_get_def map_of_eq_None_iff[THEN iffD2])
qed

text \<open>
  While the clock does not run backwards, what is passed on in a window is the smaller of the
  demand and what the limit leaves after the requests already counted.
\<close>

lemma passed_budget:
  assumes "sorted (map (window_of \<circ> fst) rs)" "b \<in> {''events'', ''intent''}" "not_ahead c rs"
  shows "int (passed L t b w rs c) = min (int (length (filter (charged L t b w) rs)))
    (max 0 (limit_of L b - int (counter_get c (count_key t b, w))))"
  using assms
proof (induction rs arbitrary: c)
  case (Cons x rs)
  obtain now req where x: "x = (now, req)" by (cases x)
  have s: "sorted (map (window_of \<circ> fst) rs)"
    and ahead: "\<And>y. y \<in> set rs \<Longrightarrow> window_of now \<le> window_of (fst y)"
    using Cons.prems(1) by (simp_all add: x comp_def)
  note IH = Cons.IH[OF s Cons.prems(2)]
  have rest: "not_ahead c rs" using Cons.prems(3) by (simp add: not_ahead_def)
  show ?case
  proof (cases "charge L req")
    case None
    then have "\<not> charged L t b w x" by (simp add: charged_def x)
    then show ?thesis using rate_limit_free[OF None, of now c] IH[OF rest] by (auto simp: x passed_Cons)
  next
    case (Some k)
    obtain l t' b' where k: "charge L req = Some (l, t', b')" using Some by (cases k) auto
    note l = charge_limit[OF k]
    let ?key = "(count_key t' b', window_of now)"
    let ?c = "dict_mod ?key Suc 0 (prune (window_of now) c)"
    have r: "rate_limit L now req c
      = Inr (?c, if int (counter_get ?c ?key) > l then Some (rate_limited b' req) else None)"
      using rate_limit_charged[OF k, of now c] by (simp add: Let_def)
    have ch: "charged L t b w x \<longleftrightarrow> window_of now = w \<and> t' = t \<and> b' = b"
      using k by (auto simp: charged_def x)
    have IH': "int (passed L t b w rs ?c) = min (int (length (filter (charged L t b w) rs)))
        (max 0 (limit_of L b - int (counter_get ?c (count_key t b, w))))"
      by (rule IH[OF not_ahead_step[OF ahead]])
    have p: "passed L t b w (x # rs) c = (if charged L t b w x \<and> \<not> int (counter_get ?c ?key) > l then 1 else 0)
        + passed L t b w rs ?c"
      unfolding x passed_Cons r by simp
    consider "window_of now = w" | "window_of now < w" | "w < window_of now" by linarith
    then show ?thesis
    proof cases
      case 1
      have g: "counter_get ?c (count_key t b, w)
          = counter_get c (count_key t b, w) + (if t' = t \<and> b' = b then 1 else 0)"
        using count_key_inj[of b' b t' t] Cons.prems(2) l 1
        by (auto simp: counter_get_mod counter_get_prune)
      show ?thesis
      proof (cases "t' = t \<and> b' = b")
        case True
        then have c: "charged L t b w x" "l = limit_of L b"
          and k: "counter_get ?c ?key = Suc (counter_get c (count_key t b, w))"
          and g': "counter_get ?c (count_key t b, w) = Suc (counter_get c (count_key t b, w))"
          using ch 1 l g by simp_all
        show ?thesis unfolding p k using IH'[unfolded g'] c by (simp add: min_def)
      next
        case False
        then have "\<not> charged L t b w x" "counter_get ?c (count_key t b, w) = counter_get c (count_key t b, w)"
          using ch g by auto
        then show ?thesis unfolding p using IH' by simp
      qed
    next
      case 2
      have "counter_get ?c (count_key t b, w) = 0"
        using 2 by (simp add: counter_get_mod counter_get_prune)
      moreover have "counter_get c (count_key t b, w) = 0"
        using not_ahead_zero[OF Cons.prems(3), of x w] 2 by (simp add: x)
      ultimately show ?thesis unfolding p using IH' ch 2 by simp
    next
      case 3
      then have "\<forall>y \<in> set rs. window_of (fst y) \<noteq> w" using ahead by fastforce
      then show ?thesis unfolding p using uncharged_later[of rs w L t b] ch 3 by simp
    qed
  qed
qed (simp add: passed_def)

section \<open>Properties\<close>

text \<open>
  C12: over any series of requests whose clock does not run backwards, the requests of a tenant
  and class of endpoint that a window lets pass are exactly the smaller of the demand and the
  limit, whatever the other tenants send.
\<close>

theorem rate_limit_budget:
  assumes "sorted (map (window_of \<circ> fst) rs)" "b \<in> {''events'', ''intent''}"
  shows "int (passed L t b w rs []) =
    min (int (length (filter (charged L t b w) rs))) (max 0 (limit_of L b))"
  using passed_budget[OF assms, of "[]" L t w] by (simp add: not_ahead_def counter_get_def)

definition intent_call :: request where
  "intent_call = \<lparr>rq_method = ''POST'', rq_path = ''/v1/resolve-intent'', rq_tenant = Some ''acme'',
     rq_body = EmptyBody, rq_id = ''r1'', rq_days = None, rq_limit = None\<rparr>"

theorem rate_limit_budget_witness:
  "passed \<lparr>events_limit = 9, intent_limit = 1\<rparr> ''acme'' ''intent'' 0
     [(0, intent_call), (7, intent_call), (60000000, intent_call)] [] = 1"
proof -
  let ?L = "\<lparr>events_limit = 9, intent_limit = 1\<rparr>"
  let ?rs = "[(0, intent_call), (7, intent_call), (60000000, intent_call)]"
  have c: "charge ?L intent_call = Some (1, ''acme'', ''intent'')"
    by (simp add: charge_def bucket_for_def intent_call_def EVENTS_PATHS_def INTENT_PATHS_def extract_tenant_id_def)
  have "filter (charged ?L ''acme'' ''intent'' 0) ?rs = [(0, intent_call), (7, intent_call)]"
    by (simp add: charged_def c window_of_def us_per_minute_def)
  then show ?thesis
    using rate_limit_budget[of ?rs "''intent''" ?L "''acme''" 0]
    by (simp add: limit_of_def window_of_def us_per_minute_def)
qed

end
