(* ===== verification/TenantGuard.thy ===== *)
theory TenantGuard
  imports Http
begin

text \<open>
  \<open>api/middleware/tenant.py\<close>: a request that declares a tenant in its header is stopped when
  its body names another one.
\<close>

section \<open>Definitions\<close>

definition TENANT_SCOPED_PATHS :: "string list" where
  "TENANT_SCOPED_PATHS = [''/v1/events'', ''/v1/events/batch'', ''/v1/resolve-intent'']"

definition event_tenant :: "json \<Rightarrow> json option" where
  \<comment> \<open>\<open>e["tenantId"]\<close> of an object that has it\<close>
  "event_tenant e = (case e of JObj d \<Rightarrow> map_of d ''tenantId'' | _ \<Rightarrow> None)"

definition extract_tenant_ids :: "string \<Rightarrow> json \<Rightarrow> py_error + json list" where
  "extract_tenant_ids path payload = (case payload of
     JObj d \<Rightarrow>
       if path = BATCH_PATH then
         ebind (py_iter (py_or (dget ''events'' d) (JList []))) (\<lambda>events.
           Inr (List.map_filter event_tenant events))
       else (let tenant_id = dget ''tenantId'' d in Inr (if truthy tenant_id then [tenant_id] else []))
   | _ \<Rightarrow> Inr [])"

definition tenant_mismatch :: "request \<Rightarrow> json response" where
  "tenant_mismatch req = json_response 403 (error_body ''tenant_mismatch''
     ''X-Tenant-Id header does not match tenantId in request body'' (rq_id req))"

definition tenant_check :: "request \<Rightarrow> py_error + json response option" where
  \<comment> \<open>\<open>dispatch\<close>: no response means the request is passed on\<close>
  "tenant_check req = (case rq_tenant req of
     None \<Rightarrow> Inr None
   | Some header \<Rightarrow>
       if rq_path req \<notin> set TENANT_SCOPED_PATHS then Inr None
       else ebind (loads_body (rq_body req)) (\<lambda>payload. case payload of
         None \<Rightarrow> Inr None
       | Some j \<Rightarrow> ebind (extract_tenant_ids (rq_path req) j) (\<lambda>ids.
           Inr (if ids \<noteq> [] \<and> (\<exists>t \<in> set ids. t \<noteq> JStr header) then Some (tenant_mismatch req) else None))))"

section \<open>What passes\<close>

lemma in_map_filter_tenant: "t \<in> set (List.map_filter event_tenant es) \<longleftrightarrow> (\<exists>e \<in> set es. event_tenant e = Some t)"
  by (induction es) (auto simp: List.map_filter_simps split: option.splits)

lemma passed_single:
  assumes "tenant_check req = Inr None" "rq_tenant req = Some h" "rq_path req = ''/v1/events''"
    "rq_body req = Body (JObj d)" "map_of d ''tenantId'' = Some (JStr t)" "t \<noteq> []"
  shows "t = h"
  using assms
  by (auto simp: tenant_check_def TENANT_SCOPED_PATHS_def loads_body_def extract_tenant_ids_def BATCH_PATH_def
      dget_def split: if_splits)

lemma passed_batch:
  assumes "tenant_check req = Inr None" "rq_tenant req = Some h" "rq_path req = BATCH_PATH"
    "rq_body req = Body (JObj d)" "map_of d ''events'' = Some (JList es)" "JObj e \<in> set es"
    "map_of e ''tenantId'' = Some t"
  shows "t = JStr h"
proof -
  have "t \<in> set (List.map_filter event_tenant es)"
    unfolding in_map_filter_tenant using assms(6,7) by (intro bexI[of _ "JObj e"]) (simp_all add: event_tenant_def)
  moreover have "py_or (JList es) (JList []) = JList es" by (simp add: py_or_def)
  moreover have "rq_path req \<in> set TENANT_SCOPED_PATHS" using assms(3) by (simp add: TENANT_SCOPED_PATHS_def BATCH_PATH_def)
  ultimately show ?thesis using assms
    by (auto simp: tenant_check_def loads_body_def extract_tenant_ids_def dget_def py_iter_def split: if_splits)
qed

section \<open>Properties\<close>

text \<open>
  C13: a batch whose header names a tenant is answered 403 if some event object names another
  one, and is passed on otherwise; a request without the header is always passed on.
\<close>

theorem tenant_guard_batch:
  "(rq_tenant req = None \<longrightarrow> tenant_check req = Inr None) \<and>
   (rq_tenant req = Some h \<and> rq_path req = BATCH_PATH \<and> rq_body req = Body (JObj d) \<and>
      map_of d ''events'' = Some (JList es) \<longrightarrow>
    tenant_check req = Inr (if \<exists>e \<in> set es. event_tenant e \<noteq> None \<and> event_tenant e \<noteq> Some (JStr h)
      then Some (tenant_mismatch req) else None) \<and> rs_status (tenant_mismatch req) = 403)"
proof (intro conjI impI)
  assume r: "rq_tenant req = Some h \<and> rq_path req = BATCH_PATH \<and> rq_body req = Body (JObj d) \<and>
      map_of d ''events'' = Some (JList es)"
  have p: "rq_path req \<in> set TENANT_SCOPED_PATHS" using r by (simp add: TENANT_SCOPED_PATHS_def BATCH_PATH_def)
  have o': "py_or (JList es) (JList []) = JList es" by (simp add: py_or_def)
  have m: "(\<exists>t \<in> set (List.map_filter event_tenant es). t \<noteq> JStr h) \<longleftrightarrow>
      (\<exists>e \<in> set es. event_tenant e \<noteq> None \<and> event_tenant e \<noteq> Some (JStr h))"
    unfolding Bex_def in_map_filter_tenant by auto
  have n: "xs \<noteq> [] \<and> (\<exists>t \<in> set xs. t \<noteq> JStr h) \<longleftrightarrow> (\<exists>t \<in> set xs. t \<noteq> JStr h)" for xs by auto
  show "tenant_check req = Inr (if \<exists>e \<in> set es. event_tenant e \<noteq> None \<and> event_tenant e \<noteq> Some (JStr h)
      then Some (tenant_mismatch req) else None)"
    using r p by (simp add: tenant_check_def loads_body_def extract_tenant_ids_def dget_def o' py_iter_def n m
        del: not_None_eq)
  show "rs_status (tenant_mismatch req) = 403" by (simp add: tenant_mismatch_def)
qed (simp add: tenant_check_def)

definition foreign_batch :: request where
  "foreign_batch = \<lparr>rq_method = ''POST'', rq_path = BATCH_PATH, rq_tenant = Some ''acme'',
     rq_body = Body (JObj [(''events'', JList [JObj [(''tenantId'', JStr ''rival'')]])]),
     rq_id = ''r1'', rq_days = None, rq_limit = None\<rparr>"

theorem tenant_guard_batch_witness: "tenant_check foreign_batch = Inr (Some (tenant_mismatch foreign_batch))"
  using tenant_guard_batch[of foreign_batch "''acme''" "[(''events'', JList [JObj [(''tenantId'', JStr ''rival'')]])]"
      "[JObj [(''tenantId'', JStr ''rival'')]]"]
  by (simp add: foreign_batch_def event_tenant_def)

end
