(* ===== verification/IsoFormat.thy ===== *)
theory IsoFormat
  imports Timestamps "HOL-Library.Monad_Syntax"
begin

text \<open>
  The part of Python's \<open>datetime\<close> library that the code uses to read timestamps: the
  proleptic Gregorian calendar as ordinals of days, and \<open>datetime.fromisoformat\<close> (calendar
  and week dates, basic and extended forms, fractions of seconds, offsets). A text the library
  refuses with \<open>ValueError\<close> gives \<open>None\<close>.
\<close>

section \<open>The calendar\<close>

definition is_leap :: "int \<Rightarrow> bool" where
  "is_leap y = (y mod 4 = 0 \<and> (y mod 100 \<noteq> 0 \<or> y mod 400 = 0))"

definition days_in_month :: "int \<Rightarrow> int \<Rightarrow> int" where
  "days_in_month y m = (if m = 2 then (if is_leap y then 29 else 28)
     else if m \<in> {4, 6, 9, 11} then 30 else 31)"

definition days_before_month :: "int \<Rightarrow> int \<Rightarrow> int" where
  "days_before_month y m = sum_list (map (days_in_month y) [1..m - 1])"

definition days_before_year :: "int \<Rightarrow> int" where
  "days_before_year y = (let p = y - 1 in p * 365 + p div 4 - p div 100 + p div 400)"

definition ymd2ord :: "int \<Rightarrow> int \<Rightarrow> int \<Rightarrow> int" where
  \<comment> \<open>January 1st of year 1 is day 1\<close>
  "ymd2ord y m d = days_before_year y + days_before_month y m + d"

definition epoch_ordinal :: int where
  "epoch_ordinal = 719163"

definition max_ordinal :: int where
  "max_ordinal = 3652059"

definition valid_ymd :: "int \<Rightarrow> int \<Rightarrow> int \<Rightarrow> bool" where
  "valid_ymd y m d = (1 \<le> y \<and> y \<le> 9999 \<and> 1 \<le> m \<and> m \<le> 12 \<and> 1 \<le> d \<and> d \<le> days_in_month y m)"

definition isoweek1monday :: "int \<Rightarrow> int" where
  "isoweek1monday y = (let firstday = ymd2ord y 1 1; firstweekday = (firstday + 6) mod 7;
      week1monday = firstday - firstweekday
    in if firstweekday > 3 then week1monday + 7 else week1monday)"

definition isoweek_ordinal :: "int \<Rightarrow> int \<Rightarrow> int \<Rightarrow> int option" where
  "isoweek_ordinal y w d =
     (let first_weekday = ymd2ord y 1 1 mod 7;
          long = (first_weekday = 4 \<or> first_weekday = 3 \<and> is_leap y);
          n = isoweek1monday y + (w - 1) * 7 + (d - 1)
      in if 1 \<le> y \<and> (0 < w \<and> w < 53 \<or> w = 53 \<and> long) \<and> 0 < d \<and> d < 8 \<and> 1 \<le> n \<and> n \<le> max_ordinal
         then Some n else None)"

section \<open>Reading\<close>

definition digits_at :: "nat \<Rightarrow> nat \<Rightarrow> string \<Rightarrow> int option" where
  \<comment> \<open>the number in the \<open>n\<close> characters from position \<open>p\<close>\<close>
  "digits_at p n s = (let d = take n (drop p s)
     in if length d = n \<and> (\<forall>c \<in> set d. is_digit c) then Some (int (read_digits 0 d)) else None)"

definition char_at :: "nat \<Rightarrow> string \<Rightarrow> char option" where
  "char_at p s = (if p < length s then Some (s ! p) else None)"

definition digit_at :: "nat \<Rightarrow> string \<Rightarrow> bool" where
  "digit_at p s = (case char_at p s of None \<Rightarrow> False | Some c \<Rightarrow> is_digit c)"

definition find_separator :: "string \<Rightarrow> nat option" where
  \<comment> \<open>the length of the date part\<close>
  "find_separator s =
     (if length s = 7 then Some 7
      else if char_at 4 s = Some (CHR ''-'') then
        (if char_at 5 s = Some (CHR ''W'') then
           (if char_at 8 s = Some (CHR ''-'') then
              (if length s = 9 then None else if digit_at 10 s then Some 8 else Some 10)
            else Some 8)
         else Some 10)
      else if char_at 4 s = Some (CHR ''W'') then
        (let idx = 7 + length (takeWhile is_digit (drop 7 s))
         in if idx < 9 then Some idx else if even idx then Some 7 else Some 8)
      else Some 8)"

definition parse_date :: "string \<Rightarrow> int option" where
  \<comment> \<open>the ordinal of the date\<close>
  "parse_date s = do {
     year \<leftarrow> digits_at 0 4 s;
     let sep = (char_at 4 s = Some (CHR ''-''));
     let pos = (if sep then 5 else 4);
     if char_at pos s = Some (CHR ''W'') then do {
       week \<leftarrow> digits_at (pos + 1) 2 s;
       if length s > pos + 3 then
         (if (char_at (pos + 3) s = Some (CHR ''-'')) \<noteq> sep then None
          else if length s \<noteq> pos + 3 + (if sep then 2 else 1) then None
          else Option.bind (digits_at (pos + 3 + (if sep then 1 else 0)) 1 s) (isoweek_ordinal year week))
       else isoweek_ordinal year week 1 }
     else do {
       month \<leftarrow> digits_at pos 2 s;
       if (char_at (pos + 2) s = Some (CHR ''-'')) \<noteq> sep then None else do {
         day \<leftarrow> digits_at (pos + 2 + (if sep then 1 else 0)) 2 s;
         if valid_ymd year month day \<and> length s = (if sep then 10 else 8)
         then Some (ymd2ord year month day) else None } } }"

definition parse_fraction :: "string \<Rightarrow> int option" where
  \<comment> \<open>microseconds from the digits after the point, further digits dropped\<close>
  "parse_fraction s = (if s \<noteq> [] \<and> (\<forall>c \<in> set s. is_digit c)
     then Some (int (read_digits 0 (take 6 (s @ replicate 6 (CHR ''0''))))) else None)"

fun parse_comps :: "nat \<Rightarrow> bool \<Rightarrow> string \<Rightarrow> (int list \<times> string option) option" where
  \<comment> \<open>two digits a component, and the text after the point\<close>
  "parse_comps 0 sep s = Some ([], Some s)"
| "parse_comps (Suc n) sep s = Option.bind (digits_at 0 2 s) (\<lambda>v. case drop 2 s of
     [] \<Rightarrow> Some ([v], None)
   | c # r \<Rightarrow>
       let sep = (if n = 2 then c = CHR '':'' else sep)
       in if r = [] then None
          else if sep \<and> c = CHR '':'' then map_option (apfst (Cons v)) (parse_comps n sep r)
          else if c = CHR ''.'' \<or> c = CHR '','' then Some ([v], Some r)
          else if sep then None
          else map_option (apfst (Cons v)) (parse_comps n sep (c # r)))"

definition parse_clock :: "string \<Rightarrow> (int \<times> int \<times> int \<times> int) option" where
  "parse_clock s = do {
     (vs, frac) \<leftarrow> parse_comps 3 False s;
     us \<leftarrow> (case frac of None \<Rightarrow> Some 0 | Some f \<Rightarrow> parse_fraction f);
     let v = vs @ replicate 3 0;
     Some (v ! 0, v ! 1, v ! 2, us) }"

definition clock_us :: "int \<times> int \<times> int \<times> int \<Rightarrow> int" where
  "clock_us c = (case c of (hh, mm, ss, us) \<Rightarrow>
     hh * us_per_hour + mm * us_per_minute + ss * us_per_second + us)"

definition is_zone_start :: "char \<Rightarrow> bool" where
  "is_zone_start c = (c = CHR ''+'' \<or> c = CHR ''-'' \<or> c = CHR ''Z'')"

definition split_zone :: "string \<Rightarrow> string \<times> string" where
  "split_zone s = (takeWhile (\<lambda>c. \<not> is_zone_start c) s, dropWhile (\<lambda>c. \<not> is_zone_start c) s)"

definition parse_zone :: "string \<Rightarrow> int option option" where
  \<comment> \<open>\<open>Some None\<close> for no zone\<close>
  "parse_zone s = (case s of
     [] \<Rightarrow> Some None
   | c # z \<Rightarrow> if c = CHR ''Z'' \<and> z = [] then Some (Some 0)
       else if c = CHR ''Z'' then None
       else case parse_clock z of
              None \<Rightarrow> None
            | Some k \<Rightarrow> if clock_us k < us_per_day
                then Some (Some (if c = CHR ''-'' then - clock_us k else clock_us k)) else None)"

definition valid_clock :: "int \<times> int \<times> int \<times> int \<Rightarrow> bool" where
  "valid_clock c = (case c of (hh, mm, ss, us) \<Rightarrow> hh < 24 \<and> mm < 60 \<and> ss < 60)"

definition fromisoformat :: "string \<Rightarrow> pydatetime option" where
  "fromisoformat s = (if length s < 7 then None else do {
     n \<leftarrow> find_separator s;
     day \<leftarrow> parse_date (take n s);
     let midnight = (day - epoch_ordinal) * us_per_day;
     if n = length s then Some (DateTime midnight None) else do {
       let (clk, zn) = split_zone (drop (n + 1) s);
       k \<leftarrow> parse_clock clk;
       z \<leftarrow> parse_zone zn;
       if valid_clock k then Some (DateTime (midnight + clock_us k) z) else None } })"

section \<open>Writing\<close>

definition two :: "int \<Rightarrow> string" where
  "two k = zfill 2 (show_nat (nat k))"

lemma length_two: "0 \<le> k \<Longrightarrow> k < 100 \<Longrightarrow> length (two k) = 2"
  by (simp add: two_def zfill_def show_nat.simps[of "nat k"] show_nat.simps[of "nat k div 10"])

lemma digits_two: "c \<in> set (two k) \<Longrightarrow> is_digit c"
  using digits_show_nat by (auto simp: two_def zfill_def is_digit_def code_def)

lemma read_zfill: "read_digits acc (replicate n (CHR ''0'')) = acc * 10 ^ n"
  by (induction n arbitrary: acc) (simp_all add: code_def)

lemma read_two: "0 \<le> k \<Longrightarrow> read_digits 0 (two k) = nat k"
  by (simp add: two_def zfill_def read_digits_append read_zfill read_show_nat)

lemma digits_at_two: "0 \<le> k \<Longrightarrow> k < 100 \<Longrightarrow> length a = p \<Longrightarrow> digits_at p 2 (a @ two k @ b) = Some k"
  by (auto simp: digits_at_def Let_def length_two digits_two read_two)

definition ord2ymd :: "int \<Rightarrow> int \<times> int \<times> int" where
  \<comment> \<open>year, month and day of an ordinal, in cycles of 400, 100, 4 and 1 years\<close>
  "ord2ymd n =
     (let n0 = n - 1; n400 = n0 div 146097; r400 = n0 mod 146097;
          n100 = r400 div 36524; r100 = r400 mod 36524;
          n4 = r100 div 1461; r4 = r100 mod 1461; n1 = r4 div 365; r1 = r4 mod 365;
          year = n400 * 400 + 1 + n100 * 100 + n4 * 4 + n1
      in if n1 = 4 \<or> n100 = 4 then (year - 1, 12, 31)
         else (let month = (case filter (\<lambda>m. days_before_month year m \<le> r1) (rev [1..12]) of
                              [] \<Rightarrow> 1 | m # _ \<Rightarrow> m)
               in (year, month, r1 - days_before_month year month + 1)))"

text \<open>The clock of \<open>datetime.isoformat\<close>, read back.\<close>

definition clock_text :: "int \<Rightarrow> int \<Rightarrow> int \<Rightarrow> string" where
  "clock_text hh mm ss = two hh @ '':'' @ two mm @ '':'' @ two ss"

definition isoformat_utc :: "pydatetime \<Rightarrow> string" where
  \<comment> \<open>\<open>datetime.now(timezone.utc).isoformat()\<close> of the instant\<close>
  "isoformat_utc t =
     (let us = dt_instant t; day = us div us_per_day; r = us mod us_per_day;
          (y, m, d) = ord2ymd (day + epoch_ordinal); micro = r mod us_per_second
      in zfill 4 (show_nat (nat y)) @ ''-'' @ two m @ ''-'' @ two d @ ''T'' @
         clock_text (r div us_per_hour) (r div us_per_minute mod 60) (r div us_per_second mod 60) @
         (if micro = 0 then [] else ''.'' @ zfill 6 (show_nat (nat micro))) @ ''+00:00'')"

definition date_text :: "int \<Rightarrow> string" where
  \<comment> \<open>\<open>date.isoformat\<close> of an ordinal\<close>
  "date_text n = (let (y, m, d) = ord2ymd n
     in zfill 4 (show_nat (nat y)) @ ''-'' @ two m @ ''-'' @ two d)"

definition micro_text :: "int \<Rightarrow> string" where
  "micro_text us = (if us = 0 then [] else ''.'' @ zfill 6 (show_nat (nat us)))"

definition offset_text :: "int \<Rightarrow> string" where
  \<comment> \<open>a UTC offset, its seconds and fraction only when there are any\<close>
  "offset_text z = (let a = \<bar>z\<bar>; ss = a div us_per_second mod 60; us = a mod us_per_second
     in (if z < 0 then ''-'' else ''+'') @ two (a div us_per_hour) @ '':'' @ two (a div us_per_minute mod 60) @
        (if ss = 0 \<and> us = 0 then [] else '':'' @ two ss @ micro_text us))"

definition isoformat :: "pydatetime \<Rightarrow> string" where
  "isoformat t = (let day = dt_local t div us_per_day; r = dt_local t mod us_per_day
     in date_text (day + epoch_ordinal) @ ''T'' @
        clock_text (r div us_per_hour) (r div us_per_minute mod 60) (r div us_per_second mod 60) @
        micro_text (r mod us_per_second) @ (case dt_offset t of None \<Rightarrow> [] | Some z \<Rightarrow> offset_text z))"

lemma isoformat_utc_eq: "isoformat (utc t) = isoformat_utc (utc t)"
proof -
  have "two 0 = ''00''" by code_simp
  then show ?thesis
    by (simp add: isoformat_def isoformat_utc_def date_text_def micro_text_def offset_text_def Let_def utc_def
        dt_instant_def split_beta)
qed

lemma drop_two: "0 \<le> k \<Longrightarrow> k < 100 \<Longrightarrow> drop 2 (two k @ b) = b"
  by (simp add: length_two)

lemma parse_clock_text:
  assumes "0 \<le> hh" "hh < 24" "0 \<le> mm" "mm < 60" "0 \<le> ss" "ss < 60"
  shows "parse_clock (clock_text hh mm ss) = Some (hh, mm, ss, 0)"
proof -
  have d: "digits_at 0 2 (two k @ b) = Some k" if "0 \<le> k" "k < 100" for k b
    using digits_at_two[of k "[]" 0 b] that by simp
  have n: "two k \<noteq> []" if "0 \<le> k" "k < 100" for k using length_two[OF that] by auto
  have "parse_comps 1 True (two ss) = Some ([ss], None)"
    using d[of ss "[]"] drop_two[of ss "[]"] assms by simp
  then have "parse_comps 2 True (two mm @ '':'' @ two ss) = Some ([mm, ss], None)"
    using d[of mm] drop_two[of mm] n[of ss] assms by (simp add: numeral_2_eq_2)
  then have "parse_comps 3 False (clock_text hh mm ss) = Some ([hh, mm, ss], None)"
    using d[of hh] drop_two[of hh] n[of mm] assms by (simp add: numeral_3_eq_3 numeral_2_eq_2 clock_text_def)
  then show ?thesis by (simp add: parse_clock_def)
qed

lemma isoformat_examples:
  "isoformat_utc (utc 1785576600000000) = ''2026-08-01T09:30:00+00:00''"
  "isoformat_utc (utc 1709251199000001) = ''2024-02-29T23:59:59.000001+00:00''"
  "isoformat_utc (utc (-1000000)) = ''1969-12-31T23:59:59+00:00''"
  by code_simp+

lemma fromisoformat_examples:
  "fromisoformat ''2026-08-01T09:30:00+00:00'' = Some (DateTime 1785576600000000 (Some 0))"
  "fromisoformat ''2026-08-01T09:30:00'' = Some (DateTime 1785576600000000 None)"
  "fromisoformat ''20260801T0930-0130'' = Some (DateTime 1785576600000000 (Some (-5400000000)))"
  "fromisoformat ''2026-W31-6'' = Some (DateTime 1785542400000000 None)"
  "fromisoformat ''2026-02-29'' = None"
  "fromisoformat ''yesterday'' = None"
  by code_simp+

end
