(* ===== verification/GraphStore.thy ===== *)
theory GraphStore
  imports GraphQueries
begin

text \<open>
  \<open>core/graph.py\<close>: \<open>GraphStore\<close> as a record of its driver's engine, the server
  clock, whether the server can be reached, and the graph; its methods, each one transaction
  through \<open>tenant_query\<close>.
\<close>

section \<open>State\<close>

record store =
  engine :: engine
  clock :: pydatetime
  online :: bool
  graph :: graph

definition session :: "store \<Rightarrow> (py_error + 'a) \<Rightarrow> py_error + 'a" where
  \<comment> \<open>\<open>async with driver.session()\<close>: nothing runs while the server is unreachable\<close>
  "session s r = (if online s then r else Inl ServiceUnavailable)"

definition tenant_query :: "string \<Rightarrow> py_error + 'a \<Rightarrow> py_error + 'a" where
  "tenant_query query result =
     (if \<not> contains ''tenantId'' query then Inl (ValueError ''Query must include tenantId filter'')
      else result)"

definition set_graph :: "store \<Rightarrow> py_error + graph \<Rightarrow> py_error + store" where
  "set_graph s r = (case r of Inl e \<Rightarrow> Inl e | Inr g \<Rightarrow> Inr (s\<lparr>graph := g\<rparr>))"

section \<open>Initialisation\<close>

fun run_all_ddl :: "(string \<times> string) list \<Rightarrow> graph \<Rightarrow> py_error + graph" where
  "run_all_ddl [] g = Inr g"
| "run_all_ddl (st # sts) g = ebind (run_ddl st g) (run_all_ddl sts)"

definition initialize :: "store \<Rightarrow> py_error + store" where
  "initialize s = session s (set_graph s (run_all_ddl INIT_STATEMENTS (graph s)))"

section \<open>Writing an event\<close>

text \<open>
  The parameters \<open>write_event\<close> takes from the event dictionary. A missing key raises
  \<open>KeyError\<close>; a value of another JSON type than the event contract gives it is refused here
  (the code hands it on to the database), which validation has ruled out before.
\<close>

definition req_str :: "string \<Rightarrow> json \<Rightarrow> py_error + string" where
  "req_str k j = ebind (py_item k j) (\<lambda>v. case v of JStr s \<Rightarrow> Inr s | _ \<Rightarrow> Inl TypeError)"

definition opt_str :: "string \<Rightarrow> json \<Rightarrow> py_error + string option" where
  "opt_str k j = ebind (py_get k j) (\<lambda>v. case v of
     JNull \<Rightarrow> Inr None | JStr s \<Rightarrow> Inr (Some s) | _ \<Rightarrow> Inl TypeError)"

definition str_elem :: "json \<Rightarrow> py_error + string" where
  "str_elem v = (case v of JStr s \<Rightarrow> Inr s | _ \<Rightarrow> Inl TypeError)"

definition str_list_or_empty :: "string \<Rightarrow> json \<Rightarrow> py_error + string list" where
  \<comment> \<open>\<open>j.get(k) or []\<close>\<close>
  "str_list_or_empty k j = ebind (py_get k j) (\<lambda>v.
     case py_or v (JList []) of JList xs \<Rightarrow> emap str_elem xs | _ \<Rightarrow> Inl TypeError)"

definition dumped_metadata :: "json \<Rightarrow> py_error + json option" where
  \<comment> \<open>\<open>json.dumps(m) if m else None\<close>; the dumped text is represented by the value it encodes\<close>
  "dumped_metadata action = ebind (py_get ''metadata'' action) (\<lambda>v.
     Inr (if truthy v then Some v else None))"

definition event_params :: "json \<Rightarrow> py_error + string \<times> write_params" where
  "event_params event =
     ebind (py_item ''actor'' event) (\<lambda>actor.
     ebind (py_item ''action'' event) (\<lambda>action.
     ebind (py_item ''object'' event) (\<lambda>obj.
     ebind (py_get ''context'' event) (\<lambda>ctx.
     let context = py_or ctx (JObj []) in
     ebind (req_str ''tenantId'' event) (\<lambda>tenant_id.
     ebind (req_str ''applicationId'' event) (\<lambda>applicationId.
     ebind (req_str ''applicationInstanceId'' event) (\<lambda>applicationInstanceId.
     ebind (req_str ''nativeUserId'' actor) (\<lambda>nativeUserId.
     ebind (req_str ''userIdType'' actor) (\<lambda>userIdType.
     ebind (opt_str ''canonicalUserId'' actor) (\<lambda>canonicalUserId.
     ebind (str_list_or_empty ''roles'' actor) (\<lambda>roles.
     ebind (req_str ''objectType'' obj) (\<lambda>objectType.
     ebind (req_str ''objectId'' obj) (\<lambda>objectId.
     ebind (req_str ''eventId'' event) (\<lambda>eventId.
     ebind (req_str ''type'' action) (\<lambda>actionType.
     ebind (req_str ''category'' action) (\<lambda>actionCategory.
     ebind (req_str ''eventTimestamp'' event) (\<lambda>eventTimestamp.
     ebind (dumped_metadata action) (\<lambda>metadata.
     ebind (req_str ''environment'' event) (\<lambda>environment.
     ebind (opt_str ''sessionId'' context) (\<lambda>sessionId.
     ebind (opt_str ''correlationId'' context) (\<lambda>correlationId.
     ebind (opt_str ''device'' context) (\<lambda>device.
     Inr (tenant_id, \<lparr>p_applicationId = applicationId, p_applicationInstanceId = applicationInstanceId,
       p_nativeUserId = nativeUserId, p_userIdType = userIdType, p_canonicalUserId = canonicalUserId,
       p_roles = roles, p_objectType = objectType, p_objectId = objectId, p_eventId = eventId,
       p_actionType = actionType, p_actionCategory = actionCategory,
       p_eventTimestamp = eventTimestamp, p_metadata = metadata, p_environment = environment,
       p_sessionId = sessionId, p_correlationId = correlationId, p_device = device\<rparr>)
     ))))))))))))))))))))))"

definition write_params_event :: "store \<Rightarrow> string \<Rightarrow> write_params \<Rightarrow> py_error + store" where
  \<comment> \<open>the transaction, with \<open>ConstraintError\<close> turned into \<open>DuplicateEventError\<close>\<close>
  "write_params_event s tenant p =
     (case session s (set_graph s (tenant_query WRITE_EVENT_text
            (WRITE_EVENT (engine s) tenant p (graph s)))) of
        Inl ConstraintError \<Rightarrow> Inl (DuplicateEventError (p_eventId p))
      | r \<Rightarrow> r)"

definition write_event :: "store \<Rightarrow> json \<Rightarrow> py_error + store" where
  "write_event s event = ebind (event_params event) (\<lambda>(tenant, p). write_params_event s tenant p)"

section \<open>The other methods\<close>

definition get_user_history ::
  "store \<Rightarrow> string \<Rightarrow> string \<Rightarrow> int \<Rightarrow> nat option \<Rightarrow> py_error + history_row list" where
  "get_user_history s tenant user days limit = session s (case limit of
     None \<Rightarrow> tenant_query USER_HISTORY_text
       (Inr (USER_HISTORY (engine s) (clock s) tenant user days (graph s)))
   | Some n \<Rightarrow> tenant_query USER_HISTORY_LIMITED_text
       (Inr (USER_HISTORY_LIMITED (engine s) (clock s) tenant user days n (graph s))))"

definition get_cross_app_history ::
  "store \<Rightarrow> string \<Rightarrow> string \<Rightarrow> int \<Rightarrow> py_error + history_row list" where
  "get_cross_app_history s tenant canonical days = session s (tenant_query CROSS_APP_HISTORY_text
     (Inr (CROSS_APP_HISTORY (engine s) (clock s) tenant canonical days (graph s))))"

record action_summary =
  actionType :: string
  occurrenceCount :: nat
  lastOccurred :: "pydatetime option"

definition find_user_patterns ::
  "store \<Rightarrow> string \<Rightarrow> string \<Rightarrow> string \<Rightarrow> py_error + action_summary" where
  "find_user_patterns s tenant user action_type = session s (tenant_query USER_ACTION_PATTERN_text
     (let (n, t) = USER_ACTION_PATTERN tenant user action_type (graph s)
      in Inr \<lparr>actionType = action_type, occurrenceCount = n, lastOccurred = t\<rparr>))"

definition get_canonical_user_id :: "store \<Rightarrow> string \<Rightarrow> string \<Rightarrow> py_error + string option" where
  "get_canonical_user_id s tenant user = session s (tenant_query CANONICAL_USER_ID_text
     (Inr (CANONICAL_USER_ID (engine s) tenant user (graph s))))"

definition link_identities ::
  "store \<Rightarrow> string \<Rightarrow> string \<Rightarrow> string \<Rightarrow> string \<Rightarrow> string \<Rightarrow> string \<Rightarrow> real \<Rightarrow> py_error + store" where
  "link_identities s tenant user_a app_a user_b app_b method confidence =
     session s (set_graph s (tenant_query LINK_IDENTITIES_text
       (Inr (LINK_IDENTITIES (clock s) tenant user_a app_a user_b app_b method confidence (graph s)))))"

definition get_active_users :: "store \<Rightarrow> string \<Rightarrow> int \<Rightarrow> py_error + string list" where
  "get_active_users s tenant since_days = session s (tenant_query ACTIVE_USERS_text
     (Inr (ACTIVE_USERS (clock s) tenant since_days (graph s))))"

definition get_user_event_count :: "store \<Rightarrow> string \<Rightarrow> string \<Rightarrow> py_error + nat" where
  "get_user_event_count s tenant user = session s (tenant_query USER_EVENT_COUNT_text
     (Inr (USER_EVENT_COUNT tenant user (graph s))))"

definition update_user_profile ::
  "store \<Rightarrow> string \<Rightarrow> string \<Rightarrow> string \<Rightarrow> int \<Rightarrow> py_error + store" where
  "update_user_profile s tenant user profile_text version =
     session s (set_graph s (tenant_query UPDATE_USER_PROFILE_text
       (Inr (UPDATE_USER_PROFILE (clock s) tenant user profile_text version (graph s)))))"

definition get_user_profile :: "store \<Rightarrow> string \<Rightarrow> string \<Rightarrow> py_error + stored_profile option" where
  "get_user_profile s tenant user = session s (tenant_query GET_USER_PROFILE_text
     (Inr (GET_USER_PROFILE (engine s) tenant user (graph s))))"

definition verify_connectivity :: "store \<Rightarrow> py_error + unit" where
  "verify_connectivity s = session s (Inr ())"

section \<open>The tenant guard accepts every query of the module\<close>

definition query_texts :: "string list" where
  "query_texts = [WRITE_EVENT_text, USER_HISTORY_text, USER_HISTORY_LIMITED_text,
     CROSS_APP_HISTORY_text, USER_ACTION_PATTERN_text, CANONICAL_USER_ID_text,
     LINK_IDENTITIES_text, ACTIVE_USERS_text, UPDATE_USER_PROFILE_text, GET_USER_PROFILE_text,
     USER_EVENT_COUNT_text]"

lemma cypher_names_tenant:
  "contains ''tenantId'' x \<Longrightarrow> x \<in> set ls \<Longrightarrow> contains ''tenantId'' (cypher ls)"
  unfolding cypher_def by (rule newline_sep)

lemma guard_second_line: "contains ''tenantId'' x \<Longrightarrow> contains ''tenantId'' (cypher (a # x # ls))"
  by (rule cypher_names_tenant) auto

lemma guard_WRITE_EVENT: "contains ''tenantId'' WRITE_EVENT_text"
  unfolding WRITE_EVENT_text_def by (rule guard_second_line) code_simp

lemma guard_USER_HISTORY: "contains ''tenantId'' USER_HISTORY_text"
  unfolding USER_HISTORY_text_def by (rule guard_second_line) code_simp

lemma guard_USER_HISTORY_LIMITED: "contains ''tenantId'' USER_HISTORY_LIMITED_text"
  unfolding USER_HISTORY_LIMITED_text_def by (rule contains_append_left) (rule guard_USER_HISTORY)

lemma guard_CROSS_APP_HISTORY: "contains ''tenantId'' CROSS_APP_HISTORY_text"
  unfolding CROSS_APP_HISTORY_text_def by (rule guard_second_line) code_simp

lemma guard_USER_ACTION_PATTERN: "contains ''tenantId'' USER_ACTION_PATTERN_text"
  unfolding USER_ACTION_PATTERN_text_def by (rule guard_second_line) code_simp

lemma guard_CANONICAL_USER_ID: "contains ''tenantId'' CANONICAL_USER_ID_text"
  unfolding CANONICAL_USER_ID_text_def by (rule guard_second_line) code_simp

lemma guard_LINK_IDENTITIES: "contains ''tenantId'' LINK_IDENTITIES_text"
  unfolding LINK_IDENTITIES_text_def by (rule guard_second_line) code_simp

lemma guard_ACTIVE_USERS: "contains ''tenantId'' ACTIVE_USERS_text"
  unfolding ACTIVE_USERS_text_def by (rule guard_second_line) code_simp

lemma guard_UPDATE_USER_PROFILE: "contains ''tenantId'' UPDATE_USER_PROFILE_text"
  unfolding UPDATE_USER_PROFILE_text_def by (rule guard_second_line) code_simp

lemma guard_GET_USER_PROFILE: "contains ''tenantId'' GET_USER_PROFILE_text"
  unfolding GET_USER_PROFILE_text_def by (rule guard_second_line) code_simp

lemma guard_USER_EVENT_COUNT: "contains ''tenantId'' USER_EVENT_COUNT_text"
  unfolding USER_EVENT_COUNT_text_def by (rule guard_second_line) code_simp

lemmas guards = guard_WRITE_EVENT guard_USER_HISTORY guard_USER_HISTORY_LIMITED
  guard_CROSS_APP_HISTORY guard_USER_ACTION_PATTERN guard_CANONICAL_USER_ID
  guard_LINK_IDENTITIES guard_ACTIVE_USERS guard_UPDATE_USER_PROFILE guard_GET_USER_PROFILE
  guard_USER_EVENT_COUNT

text \<open>So the guard drops out of every method.\<close>

named_theorems store_ops \<open>the methods without the guard\<close>

lemma tenant_query_ok: "contains ''tenantId'' q \<Longrightarrow> tenant_query q r = r"
  by (simp add: tenant_query_def)

lemmas tenant_query_guards [simp] = guards[THEN tenant_query_ok]

lemma session_online [simp]: "online s \<Longrightarrow> session s r = r"
  by (simp add: session_def)

lemma session_offline [simp]: "\<not> online s \<Longrightarrow> session s r = Inl ServiceUnavailable"
  by (simp add: session_def)

lemma session_Inr: "session s r = Inr x \<longleftrightarrow> online s \<and> r = Inr x"
  by (simp add: session_def)

lemma set_graph_simps [simp]:
  "set_graph s (Inl e) = Inl e" "set_graph s (Inr g) = Inr (s\<lparr>graph := g\<rparr>)"
  by (simp_all add: set_graph_def)

end
