(* ===== verification/Schema.thy ===== *)
theory Schema
  imports IsoFormat GraphStore
begin

text \<open>
  \<open>core/schema_validator.py\<close> and the event contract it loads,
  \<open>schemas/event/v1.0.0/event.schema.json\<close>. The contract is transcribed keyword by
  keyword and given the semantics of JSON Schema draft 2020-12; the \<open>jsonschema\<close> library's
  \<open>iter_errors\<close> is a parameter that reports no error exactly on the instances the contract
  admits. \<open>format\<close> is an annotation: the validator is built without a format checker, so
  \<open>valid\<close> asserts none, although \<open>docs/protocol-guide.md\<close> calls the format of the event's id
  enforced.
\<close>

section \<open>JSON Schema\<close>

datatype keyword =
    TypeIs "string list"
  | Const json
  | Enum "json list"
  | MinLength nat
  | PatternPlus string  \<comment> \<open>\<open>^[...]+$\<close> with the characters of the class listed\<close>
  | Required "string list"
  | Properties "(string \<times> keyword list) list"
  | NoAdditional "string list"
  | Items "keyword list"

definition json_type :: "json \<Rightarrow> string list" where
  \<comment> \<open>the schema types an instance has\<close>
  "json_type j = (case j of JNull \<Rightarrow> [''null''] | JBool _ \<Rightarrow> [''boolean'']
     | JInt _ \<Rightarrow> [''integer'', ''number''] | JFloat _ _ \<Rightarrow> [''number''] | JStr _ \<Rightarrow> [''string'']
     | JList _ \<Rightarrow> [''array''] | JObj _ \<Rightarrow> [''object''])"

definition drop_final_newline :: "string \<Rightarrow> string" where
  \<comment> \<open>Python's \<open>$\<close> also matches before a newline at the end\<close>
  "drop_final_newline s = (if s \<noteq> [] \<and> code (last s) = 10 then butlast s else s)"

definition matches_plus :: "string \<Rightarrow> string \<Rightarrow> bool" where
  "matches_plus cls s = (let t = drop_final_newline s in t \<noteq> [] \<and> (\<forall>c \<in> set t. c \<in> set cls))"

fun valid_kw :: "keyword \<Rightarrow> json \<Rightarrow> bool" where
  "valid_kw (TypeIs ts) j = (\<exists>t \<in> set (json_type j). t \<in> set ts)"
| "valid_kw (Const v) j = (j = v)"
| "valid_kw (Enum vs) j = (j \<in> set vs)"
| "valid_kw (MinLength n) j = (case j of JStr s \<Rightarrow> n \<le> length s | _ \<Rightarrow> True)"
| "valid_kw (PatternPlus cls) j = (case j of JStr s \<Rightarrow> matches_plus cls s | _ \<Rightarrow> True)"
| "valid_kw (Required ks) j = (case j of JObj d \<Rightarrow> (\<forall>k \<in> set ks. k \<in> fst ` set d) | _ \<Rightarrow> True)"
| "valid_kw (Properties ps) j = (case j of
     JObj d \<Rightarrow> (\<forall>(k, sch) \<in> set ps. case map_of d k of None \<Rightarrow> True | Some v \<Rightarrow> (\<forall>w \<in> set sch. valid_kw w v))
   | _ \<Rightarrow> True)"
| "valid_kw (NoAdditional ks) j = (case j of JObj d \<Rightarrow> fst ` set d \<subseteq> set ks | _ \<Rightarrow> True)"
| "valid_kw (Items sch) j = (case j of JList xs \<Rightarrow> (\<forall>x \<in> set xs. \<forall>w \<in> set sch. valid_kw w x) | _ \<Rightarrow> True)"

definition valid :: "keyword list \<Rightarrow> json \<Rightarrow> bool" where
  "valid sch j = (\<forall>w \<in> set sch. valid_kw w j)"

section \<open>The event contract\<close>

definition str_schema :: "keyword list" where
  "str_schema = [TypeIs [''string'']]"

definition nonempty_str :: "keyword list" where
  "nonempty_str = [TypeIs [''string''], MinLength 1]"

definition enum_schema :: "string list \<Rightarrow> keyword list" where
  "enum_schema vs = [TypeIs [''string''], Enum (map JStr vs)]"

definition object_schema :: "(string \<times> keyword list) list \<Rightarrow> string list \<Rightarrow> keyword list" where
  \<comment> \<open>\<open>type: object\<close> with \<open>additionalProperties: false\<close>\<close>
  "object_schema ps req = [TypeIs [''object''], NoAdditional (map fst ps), Required req, Properties ps]"

definition tenant_chars :: string where
  "tenant_chars = ''abcdefghijklmnopqrstuvwxyzABCDEFGHIJKLMNOPQRSTUVWXYZ0123456789_-''"

definition user_id_types :: "string list" where
  "user_id_types = [''email'', ''sso_subject'', ''app_native_id'', ''employee_id'']"

definition environments :: "string list" where
  "environments = [''production'', ''sandbox'', ''staging'', ''test'']"

definition action_categories :: "string list" where
  "action_categories = [''create'', ''read'', ''update'', ''delete'', ''approve'', ''reject'',
     ''navigate'', ''search'']"

definition devices :: "string list" where
  "devices = [''desktop'', ''mobile'', ''tablet'']"

definition actor_schema :: "keyword list" where
  "actor_schema = object_schema
     [(''nativeUserId'', nonempty_str), (''userIdType'', enum_schema user_id_types),
      (''canonicalUserId'', [TypeIs [''string'', ''null'']]),
      (''roles'', [TypeIs [''array''], Items str_schema])]
     [''nativeUserId'', ''userIdType'']"

definition on_behalf_schema :: "keyword list" where
  "on_behalf_schema = object_schema
     [(''nativeUserId'', nonempty_str), (''userIdType'', enum_schema user_id_types)]
     [''nativeUserId'', ''userIdType'']"

definition action_schema :: "keyword list" where
  "action_schema = object_schema
     [(''type'', nonempty_str), (''category'', enum_schema action_categories),
      (''metadata'', [TypeIs [''object'']])] [''type'', ''category'']"

definition object_ref_schema :: "keyword list" where
  "object_ref_schema = object_schema
     [(''objectType'', nonempty_str), (''objectId'', nonempty_str),
      (''objectDetails'', [TypeIs [''object'']])] [''objectType'', ''objectId'']"

definition source_schema :: "keyword list" where
  "source_schema = object_schema
     [(''connector'', nonempty_str), (''connectorVersion'', nonempty_str)]
     [''connector'', ''connectorVersion'']"

definition context_schema :: "keyword list" where
  "context_schema = object_schema
     [(''sessionId'', str_schema), (''correlationId'', str_schema), (''device'', enum_schema devices),
      (''geo'', object_schema [(''country'', str_schema), (''region'', str_schema)] [])] []"

definition event_required :: "string list" where
  "event_required = [''schemaVersion'', ''eventId'', ''tenantId'', ''applicationId'',
     ''applicationInstanceId'', ''environment'', ''eventTimestamp'', ''actor'', ''action'',
     ''object'', ''source'']"

definition event_schema :: "keyword list" where
  "event_schema = object_schema
     [(''schemaVersion'', [TypeIs [''string''], Const (JStr ''1.0.0'')]),
      (''eventId'', str_schema),
      (''tenantId'', [TypeIs [''string''], PatternPlus tenant_chars, MinLength 1]),
      (''applicationId'', nonempty_str), (''applicationInstanceId'', nonempty_str),
      (''environment'', enum_schema environments), (''eventTimestamp'', str_schema),
      (''ingestionTimestamp'', str_schema), (''actor'', actor_schema),
      (''onBehalfOf'', on_behalf_schema), (''action'', action_schema),
      (''object'', object_ref_schema), (''source'', source_schema), (''context'', context_schema)]
     event_required"

section \<open>The validator\<close>

record schema_error =
  e_path :: "string list"  \<comment> \<open>the parts as \<open>str\<close> prints them\<close>
  e_message :: string

record validator =
  iter_errors :: "json \<Rightarrow> schema_error list"
  max_future_seconds :: int

definition format_error :: "schema_error \<Rightarrow> string" where
  "format_error e = (let location = join ''/'' (e_path e)
     in (if location = [] then ''<root>'' else location) @ '': '' @ e_message e)"

definition zulu_offset :: "string \<Rightarrow> string" where
  "zulu_offset s = replace_char (CHR ''Z'') ''+00:00'' s"

definition validate_timestamp :: "validator \<Rightarrow> pydatetime \<Rightarrow> json \<Rightarrow> py_error + string option" where
  "validate_timestamp V now event = ebind (py_get ''eventTimestamp'' event) (\<lambda>v. Inr (case v of
     JStr raw \<Rightarrow>
       (case fromisoformat (zulu_offset raw) of
          None \<Rightarrow> None
        | Some t \<Rightarrow> if dt_instant (as_aware t) - dt_instant now > max_future_seconds V * us_per_second
            then Some (''eventTimestamp '' @ [CHR 0x27] @ raw @ [CHR 0x27] @ '' is too far in the future'')
            else None)
   | _ \<Rightarrow> None))"

definition validate :: "validator \<Rightarrow> pydatetime \<Rightarrow> json \<Rightarrow> py_error + unit" where
  "validate V now event =
     (let errors = map format_error (iter_errors V event)
      in ebind (validate_timestamp V now event) (\<lambda>te.
         let errors = errors @ (case te of None \<Rightarrow> [] | Some m \<Rightarrow> [m])
         in if errors \<noteq> [] then Inl (SchemaValidationError errors) else Inr ()))"

definition validator_ok :: "validator \<Rightarrow> bool" where
  \<comment> \<open>the documented behaviour of \<open>Draft202012Validator.iter_errors\<close>\<close>
  "validator_ok V = (\<forall>event. iter_errors V event = [] \<longleftrightarrow> valid event_schema event)"

section \<open>What a valid event has\<close>

lemma valid_object_schema:
  "valid (object_schema ps req) j \<longleftrightarrow> (\<exists>d. j = JObj d \<and> fst ` set d \<subseteq> fst ` set ps \<and>
     set req \<subseteq> fst ` set d \<and> (\<forall>(k, sch) \<in> set ps. \<forall>v. map_of d k = Some v \<longrightarrow> valid sch v))"
  by (cases j) (auto simp: object_schema_def valid_def json_type_def split: option.splits)

lemma valid_str_schema [simp]: "valid str_schema j \<longleftrightarrow> (\<exists>s. j = JStr s)"
  by (cases j) (auto simp: valid_def str_schema_def json_type_def)

lemma valid_nonempty_str [simp]: "valid nonempty_str j \<longleftrightarrow> (\<exists>s. j = JStr s \<and> s \<noteq> [])"
  by (cases j) (auto simp: valid_def nonempty_str_def json_type_def Suc_le_eq)

lemma valid_enum [simp]: "valid (enum_schema vs) j \<longleftrightarrow> (\<exists>s \<in> set vs. j = JStr s)"
  by (cases j) (auto simp: valid_def enum_schema_def json_type_def)

lemma valid_object_type [simp]: "valid [TypeIs [''object'']] j \<longleftrightarrow> (\<exists>d. j = JObj d)"
  by (cases j) (auto simp: valid_def json_type_def)

lemma valid_string_or_null [simp]:
  "valid [TypeIs [''string'', ''null'']] j \<longleftrightarrow> j = JNull \<or> (\<exists>s. j = JStr s)"
  by (cases j) (auto simp: valid_def json_type_def)

lemma valid_str_array [simp]:
  "valid [TypeIs [''array''], Items str_schema] j \<longleftrightarrow> (\<exists>ss. j = JList (map JStr ss))"
proof (cases j)
  case (JList xs)
  have "valid [TypeIs [''array''], Items str_schema] j \<longleftrightarrow> (\<forall>x \<in> set xs. \<exists>s. x = JStr s)"
    by (auto simp: valid_def JList json_type_def simp flip: valid_str_schema)
  also have "\<dots> \<longleftrightarrow> (\<exists>ss. xs = map JStr ss)"
    by (induction xs) (auto simp: Cons_eq_map_conv)
  finally show ?thesis using JList by auto
qed (auto simp: valid_def json_type_def)

text \<open>Lookups in a valid object: a required key is there and valid, an optional one is valid if there.\<close>

lemma valid_required:
  assumes "valid (object_schema ps req) (JObj d)" "k \<in> set req" "(k, sch) \<in> set ps"
  shows "\<exists>v. map_of d k = Some v \<and> valid sch v"
proof -
  have "k \<in> fst ` set d" using assms(1,2) by (auto simp: valid_object_schema)
  then obtain v where "map_of d k = Some v" by (metis map_of_eq_None_iff not_None_eq)
  then show ?thesis using assms(1,3) by (fastforce simp: valid_object_schema)
qed

lemma valid_optional:
  assumes "valid (object_schema ps req) (JObj d)" "(k, sch) \<in> set ps" "map_of d k = Some v"
  shows "valid sch v"
  using assms by (fastforce simp: valid_object_schema)

lemma valid_is_object: "valid (object_schema ps req) j \<Longrightarrow> \<exists>d. j = JObj d"
  by (auto simp: valid_object_schema)

lemma req_str_valid: "map_of d k = Some (JStr s) \<Longrightarrow> req_str k (JObj d) = Inr s"
  by (simp add: req_str_def)

lemma opt_str_valid: "(\<And>v. map_of d k = Some v \<Longrightarrow> v = JNull \<or> (\<exists>s. v = JStr s)) \<Longrightarrow>
    \<exists>x. opt_str k (JObj d) = Inr x"
  by (cases "map_of d k") (fastforce simp: opt_str_def dget_def)+

lemma emap_str_elem [simp]: "emap str_elem (map JStr ss) = Inr ss"
  by (induction ss) (simp_all add: str_elem_def)

lemma str_list_valid: "(\<And>v. map_of d k = Some v \<Longrightarrow> \<exists>ss. v = JList (map JStr ss)) \<Longrightarrow>
    \<exists>x. str_list_or_empty k (JObj d) = Inr x"
  by (cases "map_of d k") (fastforce simp: str_list_or_empty_def dget_def py_or_def)+

lemma dumped_metadata_total: "\<exists>m. dumped_metadata (JObj d) = Inr m"
  by (simp add: dumped_metadata_def)

lemma valid_actor:
  assumes "valid actor_schema j"
  obtains d u t c r where "j = JObj d" "req_str ''nativeUserId'' j = Inr u" "req_str ''userIdType'' j = Inr t"
    "opt_str ''canonicalUserId'' j = Inr c" "str_list_or_empty ''roles'' j = Inr r"
proof -
  obtain d where d: "j = JObj d" using valid_is_object assms unfolding actor_schema_def by blast
  note v = assms[unfolded actor_schema_def d]
  obtain u where "req_str ''nativeUserId'' j = Inr u"
    using valid_required[OF v, of "''nativeUserId''" nonempty_str] d by (auto dest: req_str_valid)
  moreover obtain t where "req_str ''userIdType'' j = Inr t"
    using valid_required[OF v, of "''userIdType''" "enum_schema user_id_types"] d by (auto dest: req_str_valid)
  moreover obtain c where "opt_str ''canonicalUserId'' j = Inr c"
    using opt_str_valid[of d "''canonicalUserId''"]
      valid_optional[OF v, of "''canonicalUserId''" "[TypeIs [''string'', ''null'']]"] d by auto
  moreover obtain r where "str_list_or_empty ''roles'' j = Inr r"
    using str_list_valid[of d "''roles''"]
      valid_optional[OF v, of "''roles''" "[TypeIs [''array''], Items str_schema]"] d by auto
  ultimately show thesis using that d by blast
qed

lemma valid_action:
  assumes "valid action_schema j"
  obtains d a c m where "j = JObj d" "req_str ''type'' j = Inr a" "req_str ''category'' j = Inr c"
    "dumped_metadata j = Inr m"
proof -
  obtain d where d: "j = JObj d" using valid_is_object assms unfolding action_schema_def by blast
  note v = assms[unfolded action_schema_def d]
  obtain a where "req_str ''type'' j = Inr a"
    using valid_required[OF v, of "''type''" nonempty_str] d by (auto dest: req_str_valid)
  moreover obtain c where "req_str ''category'' j = Inr c"
    using valid_required[OF v, of "''category''" "enum_schema action_categories"] d by (auto dest: req_str_valid)
  ultimately show thesis using that d dumped_metadata_total by blast
qed

lemma valid_object_ref:
  assumes "valid object_ref_schema j"
  obtains d t i where "j = JObj d" "req_str ''objectType'' j = Inr t" "req_str ''objectId'' j = Inr i"
proof -
  obtain d where d: "j = JObj d" using valid_is_object assms unfolding object_ref_schema_def by blast
  note v = assms[unfolded object_ref_schema_def d]
  obtain t where "req_str ''objectType'' j = Inr t"
    using valid_required[OF v, of "''objectType''" nonempty_str] d by (auto dest: req_str_valid)
  moreover obtain i where "req_str ''objectId'' j = Inr i"
    using valid_required[OF v, of "''objectId''" nonempty_str] d by (auto dest: req_str_valid)
  ultimately show thesis using that d by blast
qed

definition context_of :: "json \<Rightarrow> json" where
  "context_of ctx = py_or ctx (JObj [])"

lemma valid_context:
  assumes "ctx = JNull \<or> valid context_schema ctx"
  obtains a b c where "opt_str ''sessionId'' (context_of ctx) = Inr a"
    "opt_str ''correlationId'' (context_of ctx) = Inr b" "opt_str ''device'' (context_of ctx) = Inr c"
proof (cases "truthy ctx")
  case True
  then obtain d where d: "ctx = JObj d" using valid_is_object assms unfolding context_schema_def by force
  note v = assms[unfolded context_schema_def d, simplified]
  have o: "\<exists>x. opt_str k ctx = Inr x"
    if "(k, str_schema) \<in> set ps \<or> (k, enum_schema devices) \<in> set ps" "valid (object_schema ps []) ctx" for k ps
    using that(1) opt_str_valid[of d k] valid_optional[OF that(2)[unfolded d]] d by (metis valid_enum valid_str_schema)
  show thesis
    using o[OF _ v[folded d], of "''sessionId''"] o[OF _ v[folded d], of "''correlationId''"]
      o[OF _ v[folded d], of "''device''"] True that by (auto simp: context_of_def py_or_def)
next
  case False
  then show thesis using that by (simp add: context_of_def py_or_def opt_str_def dget_def)
qed

lemma valid_event_str:
  assumes "valid event_schema (JObj d)"
    "k \<in> {''eventId'', ''tenantId'', ''applicationId'', ''applicationInstanceId'', ''environment'', ''eventTimestamp''}"
  shows "\<exists>s. req_str k (JObj d) = Inr s"
proof -
  note v = assms(1)[unfolded event_schema_def]
  have t: "valid [TypeIs [''string''], PatternPlus tenant_chars, MinLength 1] j \<Longrightarrow> \<exists>s. j = JStr s" for j
    by (cases j) (auto simp: valid_def json_type_def)
  have "\<exists>s. map_of d k = Some (JStr s)"
    using assms(2) valid_required[OF v, of "''eventId''" str_schema]
      valid_required[OF v, of "''applicationId''" nonempty_str]
      valid_required[OF v, of "''applicationInstanceId''" nonempty_str]
      valid_required[OF v, of "''environment''" "enum_schema environments"]
      valid_required[OF v, of "''eventTimestamp''" str_schema]
      valid_required[OF v, of "''tenantId''" "[TypeIs [''string''], PatternPlus tenant_chars, MinLength 1]"] t
    by (auto simp: event_required_def)
  then show ?thesis using req_str_valid by blast
qed

text \<open>The parameters of the write exist for every event the contract admits.\<close>

lemma valid_event_params:
  assumes v: "valid event_schema event"
  shows "\<exists>tenant p. event_params event = Inr (tenant, p) \<and> req_str ''tenantId'' event = Inr tenant \<and>
    req_str ''eventId'' event = Inr (p_eventId p) \<and> req_str ''eventTimestamp'' event = Inr (p_eventTimestamp p)"
proof -
  obtain d where d: "event = JObj d" using valid_is_object v unfolding event_schema_def by blast
  note s = valid_event_str[OF v[unfolded d], folded d]
  note r = v[unfolded event_schema_def d]
  obtain actor action obj where parts: "map_of d ''actor'' = Some actor" "valid actor_schema actor"
    "map_of d ''action'' = Some action" "valid action_schema action"
    "map_of d ''object'' = Some obj" "valid object_ref_schema obj"
    using valid_required[OF r, of "''actor''" actor_schema] valid_required[OF r, of "''action''" action_schema]
      valid_required[OF r, of "''object''" object_ref_schema] by (auto simp: event_required_def)
  have ctx: "dget ''context'' d = JNull \<or> valid context_schema (dget ''context'' d)"
    using valid_optional[OF r, of "''context''" context_schema] by (auto simp: dget_def split: option.splits)
  have "\<exists>x. req_str ''eventId'' event = Inr x" by (rule s) simp
  then obtain i where i: "req_str ''eventId'' event = Inr i" by blast
  have "\<exists>x. req_str ''tenantId'' event = Inr x" by (rule s) simp
  then obtain t where t: "req_str ''tenantId'' event = Inr t" by blast
  have "\<exists>x. req_str ''applicationId'' event = Inr x" by (rule s) simp
  then obtain a where a: "req_str ''applicationId'' event = Inr a" by blast
  have "\<exists>x. req_str ''applicationInstanceId'' event = Inr x" by (rule s) simp
  then obtain ai where ai: "req_str ''applicationInstanceId'' event = Inr ai" by blast
  have "\<exists>x. req_str ''environment'' event = Inr x" by (rule s) simp
  then obtain env where env: "req_str ''environment'' event = Inr env" by blast
  have "\<exists>x. req_str ''eventTimestamp'' event = Inr x" by (rule s) simp
  then obtain ts where ts: "req_str ''eventTimestamp'' event = Inr ts" by blast
  note strs = i t a ai env ts
  obtain se co de where c: "opt_str ''sessionId'' (context_of (dget ''context'' d)) = Inr se"
    "opt_str ''correlationId'' (context_of (dget ''context'' d)) = Inr co"
    "opt_str ''device'' (context_of (dget ''context'' d)) = Inr de"
    by (rule valid_context[OF ctx])
  obtain u ut cu ro where ac: "req_str ''nativeUserId'' actor = Inr u" "req_str ''userIdType'' actor = Inr ut"
    "opt_str ''canonicalUserId'' actor = Inr cu" "str_list_or_empty ''roles'' actor = Inr ro"
    by (rule valid_actor[OF parts(2)])
  obtain ay ac2 m where an: "req_str ''type'' action = Inr ay" "req_str ''category'' action = Inr ac2"
    "dumped_metadata action = Inr m"
    by (rule valid_action[OF parts(4)])
  obtain ot oi where ob: "req_str ''objectType'' obj = Inr ot" "req_str ''objectId'' obj = Inr oi"
    by (rule valid_object_ref[OF parts(6)])
  have e: "py_item ''actor'' event = Inr actor" "py_item ''action'' event = Inr action"
    "py_item ''object'' event = Inr obj" "py_get ''context'' event = Inr (dget ''context'' d)"
    using parts d by simp_all
  show ?thesis
    unfolding event_params_def e ebind_Inr Let_def context_of_def[symmetric]
    by (simp add: strs ac an ob c)
qed

section \<open>Outcomes of validation\<close>

lemma validate_dict:
  "validate V now (JObj d) = (case validate_timestamp V now (JObj d) of
     Inl e \<Rightarrow> Inl e
   | Inr te \<Rightarrow> if iter_errors V (JObj d) = [] \<and> te = None then Inr ()
       else Inl (SchemaValidationError (map format_error (iter_errors V (JObj d)) @
              (case te of None \<Rightarrow> [] | Some m \<Rightarrow> [m]))))"
  by (auto simp: validate_def Let_def split: sum.splits option.splits)

lemma validate_timestamp_total: "\<exists>te. validate_timestamp V now (JObj d) = Inr te"
  by (simp add: validate_timestamp_def)

lemma validate_errors:
  assumes "validate V now (JObj d) = Inl e"
  shows "\<exists>es. e = SchemaValidationError es \<and> es \<noteq> []"
proof -
  obtain te where te: "validate_timestamp V now (JObj d) = Inr te"
    using validate_timestamp_total by blast
  show ?thesis using assms unfolding validate_dict te
    by (cases te) (auto split: if_splits)
qed

lemma validate_valid:
  assumes "validator_ok V" "validate V now event = Inr ()"
  shows "valid event_schema event"
proof -
  have "iter_errors V event = []"
    using assms(2) by (cases "iter_errors V event") (auto simp: validate_def Let_def res_simps)
  then show ?thesis using assms(1) by (simp add: validator_ok_def)
qed

section \<open>Properties\<close>

text \<open>
  C9: an event the contract admits gives the write all its parameters: none of the lookups of
  \<open>write_event\<close> fails, and the tenant, the event id and the timestamp are the event's own.
\<close>

theorem valid_event_has_params:
  assumes "valid event_schema event"
  shows "\<exists>tenant p. event_params event = Inr (tenant, p) \<and> req_str ''tenantId'' event = Inr tenant \<and>
    req_str ''eventId'' event = Inr (p_eventId p) \<and> req_str ''eventTimestamp'' event = Inr (p_eventTimestamp p)"
  by (rule valid_event_params[OF assms])

definition contract_fields :: "(string \<times> json) list" where
  "contract_fields = [(''schemaVersion'', JStr ''1.0.0''), (''eventId'', JStr ''e1''),
     (''tenantId'', JStr ''acme''), (''applicationId'', JStr ''jira''),
     (''applicationInstanceId'', JStr ''jira-1''), (''environment'', JStr ''test''),
     (''eventTimestamp'', JStr ''2026-08-01T09:00:00Z''),
     (''actor'', JObj [(''nativeUserId'', JStr ''ann''), (''userIdType'', JStr ''email''),
        (''canonicalUserId'', JNull), (''roles'', JList [JStr ''lead''])]),
     (''action'', JObj [(''type'', JStr ''close_sprint''), (''category'', JStr ''update'')]),
     (''object'', JObj [(''objectType'', JStr ''sprint''), (''objectId'', JStr ''s1'')]),
     (''source'', JObj [(''connector'', JStr ''sdk''), (''connectorVersion'', JStr ''1.0'')])]"

definition contract_event :: json where
  "contract_event = JObj contract_fields"

lemma contract_event_valid: "valid event_schema contract_event"
  by code_simp

theorem valid_event_has_params_witness: "\<exists>tenant p. event_params contract_event = Inr (tenant, p)"
  using valid_event_has_params[OF contract_event_valid] by blast

lemma validate_iff:
  assumes V: "validator_ok V" and raw: "map_of d ''eventTimestamp'' = Some (JStr raw)"
    and t: "fromisoformat (zulu_offset raw) = Some t"
  shows "validate V now (JObj d) = Inr () \<longleftrightarrow>
    valid event_schema (JObj d) \<and> dt_instant t - dt_instant now \<le> max_future_seconds V * 1000000"
proof -
  have "validate_timestamp V now (JObj d) = Inr None \<longleftrightarrow>
      dt_instant t - dt_instant now \<le> max_future_seconds V * 1000000"
    using raw t by (simp add: validate_timestamp_def dget_def us_per_second_def)
  moreover obtain te where "validate_timestamp V now (JObj d) = Inr te" using validate_timestamp_total by blast
  ultimately show ?thesis using V by (auto simp: validate_dict validator_ok_def)
qed

text \<open>
  The formats of the schema are annotations: nothing asks more of an event's id than that it is a
  text, so another text in its place is as valid.
\<close>

lemma valid_any_id:
  assumes "valid event_schema (JObj d)"
  shows "valid event_schema (JObj (AList.update ''eventId'' (JStr i) d))"
proof -
  have k: "fst ` set (AList.update ''eventId'' (JStr i) d) = insert ''eventId'' (fst ` set d)"
    by (simp add: dom_update)
  have e: "valid sch v" if "\<forall>(k, sch) \<in> set ps. \<forall>v. map_of d k = Some v \<longrightarrow> valid sch v"
      "\<forall>sch. (''eventId'', sch) \<in> set ps \<longrightarrow> sch = str_schema" "(k, sch) \<in> set ps"
      "map_of (AList.update ''eventId'' (JStr i) d) k = Some v" for ps k sch v
  proof (cases "k = ''eventId''")
    case True
    then have "sch = str_schema" "v = JStr i" using that(2-4) by (auto simp: update_conv')
    then show ?thesis by simp
  next
    case False
    then have "map_of d k = Some v" using that(4) by (simp add: update_conv')
    then show ?thesis using that(1,3) by blast
  qed
  obtain ps where ps: "event_schema = object_schema ps event_required" "''eventId'' \<in> fst ` set ps"
    "\<forall>sch. (''eventId'', sch) \<in> set ps \<longrightarrow> sch = str_schema"
    by (rule that[OF event_schema_def]) simp_all
  have r: "fst ` set d \<subseteq> fst ` set ps" "set event_required \<subseteq> fst ` set d"
    "\<forall>(k, sch) \<in> set ps. \<forall>v. map_of d k = Some v \<longrightarrow> valid sch v"
    using assms unfolding ps(1) valid_object_schema by auto
  show ?thesis
    unfolding ps(1) valid_object_schema
  proof (intro exI conjI)
    show "fst ` set (AList.update ''eventId'' (JStr i) d) \<subseteq> fst ` set ps" unfolding k using r(1) ps(2) by blast
    show "set event_required \<subseteq> fst ` set (AList.update ''eventId'' (JStr i) d)" unfolding k using r(2) by blast
    show "\<forall>(k, sch) \<in> set ps. \<forall>v. map_of (AList.update ''eventId'' (JStr i) d) k = Some v \<longrightarrow> valid sch v"
      by clarify (rule e[OF r(3) ps(3)])
  qed (rule refl)
qed

text \<open>
  C27: a validator that reports exactly the contract's violations accepts an event whose
  timestamp parses if and only if the event is valid and at most the configured skew ahead of the
  clock. Valid is what the code's validator checks, which asserts no format: an accepted event
  stays accepted under any text as its id, also one that is no UUID, although
  \<open>docs/protocol-guide.md\<close> says that the format of the id is enforced.
\<close>

theorem validate_accepts_iff:
  assumes V: "validator_ok V" and raw: "map_of d ''eventTimestamp'' = Some (JStr raw)"
    and t: "fromisoformat (zulu_offset raw) = Some t"
  shows "(validate V now (JObj d) = Inr () \<longleftrightarrow>
      valid event_schema (JObj d) \<and> dt_instant t - dt_instant now \<le> max_future_seconds V * 1000000) \<and>
    (validate V now (JObj d) = Inr () \<longrightarrow> (\<forall>i. validate V now (JObj (AList.update ''eventId'' (JStr i) d)) = Inr ()))"
proof -
  have "map_of (AList.update ''eventId'' (JStr i) d) ''eventTimestamp'' = Some (JStr raw)" for i
    using raw by (simp add: update_conv')
  from validate_iff[OF V this t] validate_iff[OF assms] show ?thesis using valid_any_id by blast
qed

theorem validate_accepts_iff_witness:
  "validate \<lparr>iter_errors = \<lambda>e. if valid event_schema e then [] else [\<lparr>e_path = [], e_message = []\<rparr>],
      max_future_seconds = 300\<rparr> (utc 1785576600000000) (JObj (AList.update ''eventId'' (JStr ''not a UUID'') contract_fields)) = Inr ()"
proof -
  let ?V = "\<lparr>iter_errors = \<lambda>e. if valid event_schema e then [] else [\<lparr>e_path = [], e_message = []\<rparr>],
      max_future_seconds = 300\<rparr>"
  have V: "validator_ok ?V" by (simp add: validator_ok_def)
  have raw: "map_of contract_fields ''eventTimestamp'' = Some (JStr ''2026-08-01T09:00:00Z'')" by code_simp
  have t: "fromisoformat (zulu_offset ''2026-08-01T09:00:00Z'') = Some (utc 1785574800000000)" by code_simp
  have v: "valid event_schema (JObj contract_fields)" using contract_event_valid by (simp add: contract_event_def)
  show ?thesis using validate_accepts_iff[OF V raw t, of "utc 1785576600000000"] v
    by (simp add: utc_def dt_instant_def)
qed

end
