(* ===== verification/GraphInvariant.thy ===== *)
theory GraphInvariant
  imports GraphStore
begin

text \<open>
  The well-formedness of the graph and its preservation: one lemma per writing query, a step
  relation of everything that can write, and the invariant of every reachable graph.
\<close>

section \<open>Well-formed graphs\<close>

definition tenant_of_edge :: "performed_edge \<Rightarrow> string" where
  "tenant_of_edge r = fst (r_user r)"

definition edge_ok :: "graph \<Rightarrow> performed_edge \<Rightarrow> bool" where
  \<comment> \<open>both ends exist, in one tenant and one application, and neither end was last seen
    before the event\<close>
  "edge_ok g r = (r_user r \<in> user_key ` set (users g) \<and> r_object r \<in> object_key ` set (objects g) \<and>
     fst (r_user r) = fst (r_object r) \<and> fst (snd (r_user r)) = fst (snd (r_object r)) \<and>
     (\<forall>u \<in> set (users g). user_key u = r_user r \<longrightarrow> dt_instant (r_eventTimestamp r) \<le> dt_instant (u_lastSeen u)) \<and>
     (\<forall>ob \<in> set (objects g). object_key ob = r_object r \<longrightarrow>
        dt_instant (r_eventTimestamp r) \<le> dt_instant (o_lastSeen ob)))"

definition profiles_agree :: "user_node list \<Rightarrow> bool" where
  \<comment> \<open>the nodes of one native user carry one profile\<close>
  "profiles_agree us = (\<forall>u \<in> set us. \<forall>v \<in> set us.
     u_tenantId u = u_tenantId v \<and> u_nativeUserId u = u_nativeUserId v \<and>
     u_nlqProfile u \<noteq> None \<and> u_nlqProfile v \<noteq> None \<longrightarrow> profile_of u = profile_of v)"

definition user_ok :: "user_node \<Rightarrow> bool" where
  "user_ok u = (dt_instant (u_firstSeen u) \<le> dt_instant (u_lastSeen u) \<and> is_aware (u_lastSeen u) \<and>
     (u_nlqProfile u \<noteq> None \<longrightarrow> u_profileVersion u \<noteq> None))"

definition object_ok :: "object_node \<Rightarrow> bool" where
  "object_ok ob = (dt_instant (o_firstSeen ob) \<le> dt_instant (o_lastSeen ob))"

definition wf_graph :: "graph \<Rightarrow> bool" where
  "wf_graph g = (
     distinct (map user_key (users g)) \<and> distinct (map object_key (objects g)) \<and>
     distinct (apps g) \<and> distinct (event_ids g) \<and> ''unique_event'' \<in> set (ddl g) \<and>
     (\<forall>r \<in> set (performed g). edge_ok g r \<and> is_aware (r_eventTimestamp r)) \<and>
     (\<forall>u \<in> set (users g). user_ok u) \<and> (\<forall>ob \<in> set (objects g). object_ok ob) \<and>
     (\<forall>e \<in> set (belongs_to g). fst e \<in> user_key ` set (users g) \<and> snd e \<in> set (apps g) \<and>
        fst (fst e) = fst (snd e)) \<and>
     (\<forall>e \<in> set (contains_obj g). fst e \<in> set (apps g) \<and> snd e \<in> object_key ` set (objects g) \<and>
        fst (fst e) = fst (snd e)) \<and>
     profiles_agree (users g))"

lemma wf_graphI:
  assumes "distinct (map user_key (users g))" "distinct (map object_key (objects g))"
    "distinct (apps g)" "distinct (event_ids g)" "''unique_event'' \<in> set (ddl g)"
    "\<And>r. r \<in> set (performed g) \<Longrightarrow> edge_ok g r \<and> is_aware (r_eventTimestamp r)"
    "\<And>u. u \<in> set (users g) \<Longrightarrow> user_ok u" "\<And>ob. ob \<in> set (objects g) \<Longrightarrow> object_ok ob"
    "\<And>u a. (u, a) \<in> set (belongs_to g) \<Longrightarrow> u \<in> user_key ` set (users g) \<and> a \<in> set (apps g) \<and> fst u = fst a"
    "\<And>a ob. (a, ob) \<in> set (contains_obj g) \<Longrightarrow>
       a \<in> set (apps g) \<and> ob \<in> object_key ` set (objects g) \<and> fst a = fst ob"
    "profiles_agree (users g)"
  shows "wf_graph g"
  unfolding wf_graph_def using assms by (simp add: split_paired_all del: distinct_map)

lemma wf_graphD:
  assumes "wf_graph g"
  shows "distinct (map user_key (users g))" "distinct (map object_key (objects g))"
    "distinct (apps g)" "distinct (event_ids g)" "''unique_event'' \<in> set (ddl g)"
    "r \<in> set (performed g) \<Longrightarrow> edge_ok g r" "r \<in> set (performed g) \<Longrightarrow> is_aware (r_eventTimestamp r)"
    "u \<in> set (users g) \<Longrightarrow> user_ok u" "ob \<in> set (objects g) \<Longrightarrow> object_ok ob"
    "(k, a) \<in> set (belongs_to g) \<Longrightarrow> k \<in> user_key ` set (users g) \<and> a \<in> set (apps g) \<and> fst k = fst a"
    "(a, ko) \<in> set (contains_obj g) \<Longrightarrow>
       a \<in> set (apps g) \<and> ko \<in> object_key ` set (objects g) \<and> fst a = fst ko"
    "profiles_agree (users g)"
  using assms unfolding wf_graph_def by (simp_all del: distinct_map) fastforce+

lemma wf_empty_schema: "wf_graph (empty_graph\<lparr>ddl := [''unique_event'']\<rparr>)"
  by (simp add: wf_graph_def empty_graph_def event_ids_def profiles_agree_def)

section \<open>The nodes a write merges\<close>

lemma later_ge: "dt_instant prev \<le> dt_instant (later t prev)" "dt_instant t \<le> dt_instant (later t prev)"
  by (simp_all add: later_def)

lemma is_aware_later: "is_aware t \<Longrightarrow> is_aware prev \<Longrightarrow> is_aware (later t prev)"
  by (simp add: later_def)

lemma user_key_match [simp]: "user_key (match_user p t u) = user_key u"
  by (simp add: user_key_def match_user_def)

lemma user_key_create [simp]: "user_key (create_user tenant p t) = p_user_key tenant p"
  by (simp add: user_key_def create_user_def p_user_key_def)

lemma object_key_match [simp]: "object_key (match_object t ob) = object_key ob"
  by (simp add: object_key_def match_object_def)

lemma object_key_create [simp]: "object_key (create_object tenant p t) = p_object_key tenant p"
  by (simp add: object_key_def create_object_def p_object_key_def)

interpretation mu: merge_key user_key "p_user_key tenant p" "match_user p t" "create_user tenant p t"
  for tenant p t
  by unfold_locales simp_all

interpretation mo: merge_key object_key "p_object_key tenant p" "match_object t" "create_object tenant p t"
  for tenant p t
  by unfold_locales simp_all

lemma profile_of_match [simp]: "profile_of (match_user p t u) = profile_of u"
  by (simp add: profile_of_def match_user_def)

lemma nlq_match [simp]: "u_nlqProfile (match_user p t u) = u_nlqProfile u"
  by (simp add: match_user_def)

lemma nlq_create [simp]: "u_nlqProfile (create_user tenant p t) = None"
  by (simp add: create_user_def)

lemma names_match [simp]:
  "u_tenantId (match_user p t u) = u_tenantId u" "u_nativeUserId (match_user p t u) = u_nativeUserId u"
  "u_applicationId (match_user p t u) = u_applicationId u"
  "u_profileVersion (match_user p t u) = u_profileVersion u"
  by (simp_all add: match_user_def)

lemma user_ok_match: "user_ok u \<Longrightarrow> is_aware t \<Longrightarrow> user_ok (match_user p t u)"
  using later_ge(1)[of "u_lastSeen u" t]
  by (auto simp: user_ok_def match_user_def is_aware_later)

lemma user_ok_create: "is_aware t \<Longrightarrow> user_ok (create_user tenant p t)"
  by (simp add: user_ok_def create_user_def)

lemma object_ok_match: "object_ok ob \<Longrightarrow> object_ok (match_object t ob)"
  using later_ge(1)[of "o_lastSeen ob" t] by (auto simp: object_ok_def match_object_def)

lemma object_ok_create: "object_ok (create_object tenant p t)"
  by (simp add: object_ok_def create_object_def)

lemma lastSeen_match: "dt_instant (u_lastSeen u) \<le> dt_instant (u_lastSeen (match_user p t u))"
  "dt_instant t \<le> dt_instant (u_lastSeen (match_user p t u))"
  by (simp_all add: match_user_def later_ge)

lemma lastSeen_match_object: "dt_instant (o_lastSeen ob) \<le> dt_instant (o_lastSeen (match_object t ob))"
  "dt_instant t \<le> dt_instant (o_lastSeen (match_object t ob))"
  by (simp_all add: match_object_def later_ge)

lemma profile_carrier:
  assumes "u \<in> set (merge_node user_key (p_user_key tenant p) (match_user p t) (create_user tenant p t) us)"
    and "u_nlqProfile u \<noteq> None"
  obtains m where "m \<in> set us" "u_tenantId m = u_tenantId u" "u_nativeUserId m = u_nativeUserId u"
    "u_nlqProfile m = u_nlqProfile u" "profile_of m = profile_of u"
  using assms unfolding mu.in_merge by auto

lemma profiles_agree_merge:
  assumes a: "profiles_agree us"
  shows "profiles_agree (merge_node user_key (p_user_key tenant p) (match_user p t)
           (create_user tenant p t) us)"
  unfolding profiles_agree_def
proof (intro ballI impI, elim conjE)
  let ?us = "merge_node user_key (p_user_key tenant p) (match_user p t) (create_user tenant p t) us"
  fix u v
  assume u: "u \<in> set ?us" "u_nlqProfile u \<noteq> None" and v: "v \<in> set ?us" "u_nlqProfile v \<noteq> None"
    and e: "u_tenantId u = u_tenantId v" "u_nativeUserId u = u_nativeUserId v"
  from u obtain m where m: "m \<in> set us" "u_tenantId m = u_tenantId u"
    "u_nativeUserId m = u_nativeUserId u" "u_nlqProfile m = u_nlqProfile u" "profile_of m = profile_of u"
    by (rule profile_carrier)
  from v obtain n where n: "n \<in> set us" "u_tenantId n = u_tenantId v"
    "u_nativeUserId n = u_nativeUserId v" "u_nlqProfile n = u_nlqProfile v" "profile_of n = profile_of v"
    by (rule profile_carrier)
  have "profile_of m = profile_of n"
    using a m(1-4) n(1-4) u(2) v(2) e unfolding profiles_agree_def by metis
  then show "profile_of u = profile_of v" using m(5) n(5) by simp
qed

section \<open>WRITE_EVENT\<close>

definition write_result :: "string \<Rightarrow> write_params \<Rightarrow> pydatetime \<Rightarrow> graph \<Rightarrow> graph" where
  "write_result tenant p t g = g\<lparr>
     users := merge_node user_key (p_user_key tenant p) (match_user p t)
                (create_user tenant p t) (users g),
     apps := merge_edge (p_app_key tenant p) (apps g),
     belongs_to := merge_edge (p_user_key tenant p, p_app_key tenant p) (belongs_to g),
     objects := merge_node object_key (p_object_key tenant p) (match_object t)
                  (create_object tenant p t) (objects g),
     contains_obj := merge_edge (p_app_key tenant p, p_object_key tenant p) (contains_obj g),
     performed := performed g @ [create_performed tenant p t]\<rparr>"

lemma WRITE_EVENT_Inr:
  "WRITE_EVENT E tenant p g = Inr g' \<longleftrightarrow> (\<exists>t. cypher_datetime E (p_eventTimestamp p) = Some t \<and>
     \<not> (''unique_event'' \<in> set (ddl g) \<and> p_eventId p \<in> set (event_ids g)) \<and>
     g' = write_result tenant p t g)"
  by (auto simp: WRITE_EVENT_def write_result_def split: option.splits if_splits)

lemma edge_ok_write_old:
  assumes e: "edge_ok g r"
  shows "edge_ok (write_result tenant p t g) r"
proof -
  have "dt_instant (r_eventTimestamp r) \<le> dt_instant (u_lastSeen u)"
    if u: "u \<in> set (users (write_result tenant p t g))" "user_key u = r_user r" for u
  proof -
    from u(1) consider "u \<in> set (users g)" | m where "m \<in> set (users g)" "u = match_user p t m"
      | "u = create_user tenant p t" "p_user_key tenant p \<notin> user_key ` set (users g)"
      unfolding write_result_def by (auto simp: mu.in_merge)
    then show ?thesis
    proof cases
      case 1
      then show ?thesis using e u(2) by (auto simp: edge_ok_def)
    next
      case 2
      then have "dt_instant (r_eventTimestamp r) \<le> dt_instant (u_lastSeen m)"
        using e u(2) by (auto simp: edge_ok_def)
      then show ?thesis using lastSeen_match(1)[of m p t] 2(2) by simp
    next
      case 3
      then show ?thesis using e u(2) by (auto simp: edge_ok_def)
    qed
  qed
  moreover have "dt_instant (r_eventTimestamp r) \<le> dt_instant (o_lastSeen ob)"
    if ob: "ob \<in> set (objects (write_result tenant p t g))" "object_key ob = r_object r" for ob
  proof -
    from ob(1) consider "ob \<in> set (objects g)" | m where "m \<in> set (objects g)" "ob = match_object t m"
      | "ob = create_object tenant p t" "p_object_key tenant p \<notin> object_key ` set (objects g)"
      unfolding write_result_def by (auto simp: mo.in_merge)
    then show ?thesis
    proof cases
      case 1
      then show ?thesis using e ob(2) by (auto simp: edge_ok_def)
    next
      case 2
      then have "dt_instant (r_eventTimestamp r) \<le> dt_instant (o_lastSeen m)"
        using e ob(2) by (auto simp: edge_ok_def)
      then show ?thesis using lastSeen_match_object(1)[of m t] 2(2) by simp
    next
      case 3
      then show ?thesis using e ob(2) by (auto simp: edge_ok_def)
    qed
  qed
  ultimately show ?thesis
    using e unfolding edge_ok_def by (simp add: write_result_def mu.keys_merge mo.keys_merge)
qed

lemma keys_of_params [simp]:
  "fst (p_user_key tenant p) = tenant" "fst (p_object_key tenant p) = tenant"
  "fst (p_app_key tenant p) = tenant"
  "fst (snd (p_user_key tenant p)) = p_applicationId p"
  "fst (snd (p_object_key tenant p)) = p_applicationId p"
  by (simp_all add: p_user_key_def p_object_key_def p_app_key_def)

lemma lastSeen_create [simp]:
  "u_lastSeen (create_user tenant p t) = t" "o_lastSeen (create_object tenant p t) = t"
  by (simp_all add: create_user_def create_object_def)

lemma performed_ends [simp]:
  "r_user (create_performed tenant p t) = p_user_key tenant p"
  "r_object (create_performed tenant p t) = p_object_key tenant p"
  "r_eventTimestamp (create_performed tenant p t) = t"
  "r_eventId (create_performed tenant p t) = p_eventId p"
  by (simp_all add: create_performed_def)

lemma edge_ok_write_new: "edge_ok (write_result tenant p t g) (create_performed tenant p t)"
  unfolding edge_ok_def write_result_def
  by (auto simp: mu.keys_merge mo.keys_merge mu.in_merge mo.in_merge lastSeen_match
      lastSeen_match_object)

lemma wf_write_result:
  assumes wf: "wf_graph g" and t: "is_aware t" and new: "p_eventId p \<notin> set (event_ids g)"
  shows "wf_graph (write_result tenant p t g)"
proof (rule wf_graphI)
  let ?g = "write_result tenant p t g"
  note d = wf_graphD[OF wf]
  show "distinct (map user_key (users ?g))" "distinct (map object_key (objects ?g))"
    using d(1,2) by (simp_all add: write_result_def mu.distinct_merge mo.distinct_merge del: distinct_map)
  show "distinct (apps ?g)" "''unique_event'' \<in> set (ddl ?g)"
    using d(3,5) by (simp_all add: write_result_def)
  show "distinct (event_ids ?g)"
    using d(4) new by (simp add: write_result_def event_ids_def create_performed_def)
  show "edge_ok ?g r \<and> is_aware (r_eventTimestamp r)" if "r \<in> set (performed ?g)" for r
    using that d(6,7) edge_ok_write_old edge_ok_write_new t
    by (auto simp: write_result_def create_performed_def)
  show "user_ok u" if "u \<in> set (users ?g)" for u
    using that d(8) t by (auto simp: write_result_def mu.in_merge user_ok_match user_ok_create)
  show "object_ok ob" if "ob \<in> set (objects ?g)" for ob
    using that d(9) by (auto simp: write_result_def mo.in_merge object_ok_match object_ok_create)
  show "k \<in> user_key ` set (users ?g) \<and> a \<in> set (apps ?g) \<and> fst k = fst a"
    if "(k, a) \<in> set (belongs_to ?g)" for k a
    using that d(10)[of k a] by (auto simp: write_result_def mu.keys_merge)
  show "a \<in> set (apps ?g) \<and> ob \<in> object_key ` set (objects ?g) \<and> fst a = fst ob"
    if "(a, ob) \<in> set (contains_obj ?g)" for a ob
    using that d(11)[of a ob] by (auto simp: write_result_def mo.keys_merge)
  show "profiles_agree (users ?g)"
    using d(12) by (simp add: write_result_def profiles_agree_merge)
qed

section \<open>Updates of user properties\<close>

text \<open>An update that keeps keys and last-seen times keeps everything but the profile clause.\<close>

locale user_update =
  fixes upd :: "user_node \<Rightarrow> user_node"
  assumes keep_key [simp]: "user_key (upd u) = user_key u"
    and keep_seen [simp]: "u_firstSeen (upd u) = u_firstSeen u" "u_lastSeen (upd u) = u_lastSeen u"
    and keep_version: "(u_nlqProfile u \<noteq> None \<longrightarrow> u_profileVersion u \<noteq> None) \<Longrightarrow>
      u_nlqProfile (upd u) \<noteq> None \<longrightarrow> u_profileVersion (upd u) \<noteq> None"
begin

lemma keep_ok: "user_ok u \<Longrightarrow> user_ok (upd u)"
  using keep_version[of u] by (simp add: user_ok_def)

lemma keep_names [simp]: "u_tenantId (upd u) = u_tenantId u" "u_nativeUserId (upd u) = u_nativeUserId u"
  "u_applicationId (upd u) = u_applicationId u"
  using keep_key[of u] by (simp_all add: user_key_def)

lemma wf_update:
  assumes wf: "wf_graph g" and agree: "profiles_agree (map upd (users g))"
  shows "wf_graph (g\<lparr>users := map upd (users g), same_person := sp\<rparr>)"
proof (rule wf_graphI)
  let ?g = "g\<lparr>users := map upd (users g), same_person := sp\<rparr>"
  note d = wf_graphD[OF wf]
  have [simp]: "user_key \<circ> upd = user_key" by auto
  show "distinct (map user_key (users ?g))" using d(1) by (simp del: distinct_map)
  show "edge_ok ?g r \<and> is_aware (r_eventTimestamp r)" if "r \<in> set (performed ?g)" for r
    using that d(6,7)[of r] by (auto simp: edge_ok_def image_image)
  show "k \<in> user_key ` set (users ?g) \<and> a \<in> set (apps ?g) \<and> fst k = fst a"
    if "(k, a) \<in> set (belongs_to ?g)" for k a
    using that d(10)[of k a] by (simp add: image_image)
  show "a \<in> set (apps ?g) \<and> ob \<in> object_key ` set (objects ?g) \<and> fst a = fst ob"
    if "(a, ob) \<in> set (contains_obj ?g)" for a ob
    using that d(11)[of a ob] by simp
  show "user_ok u" if "u \<in> set (users ?g)" for u
    using that d(8) keep_ok by auto
qed (use wf_graphD[OF wf] agree in \<open>auto simp: event_ids_def simp del: distinct_map\<close>)

end

lemma user_key_set_canonical [simp]: "user_key (set_canonical ks c u) = user_key u"
  by (simp add: set_canonical_def user_key_def)

lemma set_canonical_frame [simp]:
  "u_firstSeen (set_canonical ks c u) = u_firstSeen u" "u_lastSeen (set_canonical ks c u) = u_lastSeen u"
  "u_nlqProfile (set_canonical ks c u) = u_nlqProfile u"
  "u_profileVersion (set_canonical ks c u) = u_profileVersion u"
  "profile_of (set_canonical ks c u) = profile_of u"
  by (simp_all add: set_canonical_def profile_of_def)

interpretation uc: user_update "set_canonical ks c" for ks c
  by unfold_locales simp_all

definition profile_update :: "string \<Rightarrow> pydatetime \<Rightarrow> string \<Rightarrow> string \<Rightarrow> int \<Rightarrow> user_node \<Rightarrow> user_node" where
  "profile_update txt now tenant user version u =
     (if is_native tenant user u then set_profile txt now version u else u)"

lemma profile_update_frame [simp]:
  "user_key (profile_update txt now tenant user v u) = user_key u"
  "u_firstSeen (profile_update txt now tenant user v u) = u_firstSeen u"
  "u_lastSeen (profile_update txt now tenant user v u) = u_lastSeen u"
  "u_canonicalUserId (profile_update txt now tenant user v u) = u_canonicalUserId u"
  by (auto simp: profile_update_def set_profile_def user_key_def)

interpretation up: user_update "profile_update ptext now tenant user version" for ptext now tenant user version
  by unfold_locales (auto simp: profile_update_def set_profile_def user_key_def)

lemma profile_of_set_profile [simp]:
  "profile_of (set_profile txt now v u) = Some \<lparr>nlqProfile = txt, profileGeneratedAt = Some now, profileVersion = Some v\<rparr>"
  by (simp add: profile_of_def set_profile_def)

lemma profiles_agree_frame:
  assumes "profiles_agree us"
    and "\<And>u. u_tenantId (f u) = u_tenantId u" "\<And>u. u_nativeUserId (f u) = u_nativeUserId u"
    and "\<And>u. profile_of (f u) = profile_of u" "\<And>u. u_nlqProfile (f u) = u_nlqProfile u"
  shows "profiles_agree (map f us)"
  unfolding profiles_agree_def set_map ball_simps(9) assms(2-5)
  using assms(1) unfolding profiles_agree_def .

lemma profiles_agree_update:
  assumes a: "profiles_agree us"
  shows "profiles_agree (map (profile_update ptext now tenant user version) us)"
  unfolding profiles_agree_def set_map
proof (intro ballI impI, elim conjE imageE)
  fix u v x y
  let ?f = "profile_update ptext now tenant user version"
  assume e: "u = ?f x" "v = ?f y" "x \<in> set us" "y \<in> set us"
    and n: "u_tenantId u = u_tenantId v" "u_nativeUserId u = u_nativeUserId v"
      "u_nlqProfile u \<noteq> None" "u_nlqProfile v \<noteq> None"
  have i: "is_native tenant user x = is_native tenant user y" using n(1,2) e by (simp add: is_native_def)
  show "profile_of u = profile_of v"
  proof (cases "is_native tenant user x")
    case True
    with i show ?thesis by (simp add: e profile_update_def)
  next
    case False
    with i have "u = x" "v = y" by (simp_all add: e profile_update_def)
    with a e(3,4) n show ?thesis unfolding profiles_agree_def by metis
  qed
qed

lemma LINK_IDENTITIES_cases:
  obtains "LINK_IDENTITIES now tenant userA appA userB appB meth confidence g = g"
  | a b where "a \<in> set (users g)" "user_key a = (tenant, appA, userA)"
    and "b \<in> set (users g)" "user_key b = (tenant, appB, userB)"
    and "LINK_IDENTITIES now tenant userA appA userB appB meth confidence g =
      g\<lparr>users := map (set_canonical [(tenant, appA, userA), (tenant, appB, userB)]
           (coalesce (u_canonicalUserId a) (coalesce (u_canonicalUserId b) (Some (u_nativeUserId a))))) (users g),
         same_person := filter (\<lambda>s. (s_from s, s_to s) \<noteq> ((tenant, appA, userA), (tenant, appB, userB)))
             (same_person g) @
           [\<lparr>s_from = (tenant, appA, userA), s_to = (tenant, appB, userB), s_resolvedAt = now,
             s_confidence = confidence, s_method = meth\<rparr>]\<rparr>"
proof (cases "find (\<lambda>u. user_key u = (tenant, appA, userA)) (users g)")
  case None
  then show ?thesis using that(1) by (simp add: LINK_IDENTITIES_def)
next
  case a: (Some a)
  show ?thesis
  proof (cases "find (\<lambda>u. user_key u = (tenant, appB, userB)) (users g)")
    case None
    with a show ?thesis using that(1) by (simp add: LINK_IDENTITIES_def)
  next
    case b: (Some b)
    show ?thesis
    proof (rule that(2)[of a b])
      show "a \<in> set (users g)" "user_key a = (tenant, appA, userA)"
        using find_key_Some[OF a] by auto
      show "b \<in> set (users g)" "user_key b = (tenant, appB, userB)"
        using find_key_Some[OF b] by auto
    qed (simp add: LINK_IDENTITIES_def Let_def a b)
  qed
qed

lemma wf_link:
  assumes "wf_graph g"
  shows "wf_graph (LINK_IDENTITIES now tenant userA appA userB appB meth confidence g)"
proof (cases rule: LINK_IDENTITIES_cases[of now tenant userA appA userB appB meth confidence g])
  case 1
  with assms show ?thesis by simp
next
  case (2 a b)
  have "profiles_agree (map (set_canonical ks c) (users g))" for ks c
    using wf_graphD(12)[OF assms] by (rule profiles_agree_frame) simp_all
  with 2 assms show ?thesis by (simp add: uc.wf_update)
qed

lemma UPDATE_USER_PROFILE_eq:
  "UPDATE_USER_PROFILE now tenant user txt version g =
     g\<lparr>users := map (profile_update txt now tenant user version) (users g), same_person := same_person g\<rparr>"
  by (simp add: UPDATE_USER_PROFILE_def profile_update_def[abs_def])

lemma wf_update_profile: "wf_graph g \<Longrightarrow> wf_graph (UPDATE_USER_PROFILE now tenant user txt version g)"
  unfolding UPDATE_USER_PROFILE_eq
  by (intro up.wf_update profiles_agree_update) (auto dest: wf_graphD)

section \<open>Reachable graphs\<close>

text \<open>Everything that writes, by any tenant, in any order: each a committed transaction.\<close>

inductive graph_step :: "engine \<Rightarrow> string \<Rightarrow> graph \<Rightarrow> graph \<Rightarrow> bool" for E where
  event_written: "WRITE_EVENT E tenant p g = Inr g' \<Longrightarrow> graph_step E tenant g g'"
| identities_linked:
    "graph_step E tenant g (LINK_IDENTITIES now tenant userA appA userB appB meth confidence g)"
| profile_stored: "graph_step E tenant g (UPDATE_USER_PROFILE now tenant user ptext version g)"
| schema_run: "run_all_ddl INIT_STATEMENTS g = Inr g' \<Longrightarrow> graph_step E tenant g g'"

inductive reachable :: "engine \<Rightarrow> graph \<Rightarrow> bool" for E where
  started: "run_all_ddl INIT_STATEMENTS empty_graph = Inr g \<Longrightarrow> reachable E g"
| step: "reachable E g \<Longrightarrow> graph_step E tenant g g' \<Longrightarrow> reachable E g'"

inductive_cases graph_stepE: "graph_step E tenant g g'"

lemma wf_ddl: "wf_graph g \<Longrightarrow> wf_graph (g\<lparr>ddl := ddl g @ ns\<rparr>)"
  by (simp add: wf_graph_def edge_ok_def event_ids_def)

lemma run_all_ddl_frame:
  "run_all_ddl sts g = Inr g' \<Longrightarrow> \<exists>ns. g' = g\<lparr>ddl := ddl g @ ns\<rparr>"
proof (induction sts arbitrary: g)
  case (Cons st sts)
  then obtain h where h: "run_ddl st g = Inr h" "run_all_ddl sts h = Inr g'" by (auto simp: res_simps)
  then obtain ns where "g' = h\<lparr>ddl := ddl h @ ns\<rparr>" using Cons.IH by blast
  moreover have "h = g \<or> h = g\<lparr>ddl := ddl g @ [fst st]\<rparr>"
    using h(1) by (auto simp: run_ddl_def split: if_splits)
  ultimately have "g' = g\<lparr>ddl := ddl g @ ns\<rparr> \<or> g' = g\<lparr>ddl := ddl g @ (fst st # ns)\<rparr>" by auto
  then show ?case by blast
qed (auto intro: exI[of _ "[]"])

lemma init_empty_graph:
  "run_all_ddl INIT_STATEMENTS empty_graph = Inr (empty_graph\<lparr>ddl := map fst INIT_STATEMENTS\<rparr>)"
  by (simp add: INIT_STATEMENTS_def run_ddl_def empty_graph_def event_ids_def)

lemma wf_started: "run_all_ddl INIT_STATEMENTS empty_graph = Inr g \<Longrightarrow> wf_graph g"
  unfolding init_empty_graph
  by (auto simp: wf_graph_def empty_graph_def event_ids_def profiles_agree_def INIT_STATEMENTS_def)

lemma graph_step_wf:
  assumes E: "engine_ok E" and st: "graph_step E tenant g g'" and wf: "wf_graph g"
  shows "wf_graph g'"
  using st
proof (cases rule: graph_step.cases)
  case (event_written p)
  then obtain t where "cypher_datetime E (p_eventTimestamp p) = Some t"
    "p_eventId p \<notin> set (event_ids g)" "g' = write_result tenant p t g"
    using wf_graphD(5)[OF wf] by (auto simp: WRITE_EVENT_Inr)
  then show ?thesis using wf_write_result[OF wf] E by (auto simp: engine_ok_def)
next
  case schema_run
  then show ?thesis using run_all_ddl_frame[OF schema_run] wf_ddl[OF wf] by auto
qed (simp_all add: wf wf_link wf_update_profile)

lemma reachable_wf: "reachable E g \<Longrightarrow> engine_ok E \<Longrightarrow> wf_graph g"
  by (induction rule: reachable.induct) (auto intro: wf_started graph_step_wf)

section \<open>Properties\<close>

text \<open>
  C8: every graph that writes of any tenants can lead to, in any order, is well formed: nodes
  and events have distinct keys, every edge joins existing nodes of one tenant, times are zoned
  and a user's nodes agree on the profile.
\<close>

theorem reachable_graph_wf: "engine_ok E \<Longrightarrow> reachable E g \<Longrightarrow> wf_graph g"
  by (rule reachable_wf)

theorem reachable_graph_wf_witness:
  "wf_graph (LINK_IDENTITIES (utc 0) ''acme'' ''a'' ''jira'' ''b'' ''sap'' ''m'' 1
     (empty_graph\<lparr>ddl := map fst INIT_STATEMENTS\<rparr>))"
proof (rule reachable_graph_wf)
  show "engine_ok \<lparr>scan_users = \<lambda>us. us, scan_rows = \<lambda>rs. rs, cypher_datetime = \<lambda>s. Some (utc 0)\<rparr>"
    by (simp add: engine_ok_def)
  show "reachable \<lparr>scan_users = \<lambda>us. us, scan_rows = \<lambda>rs. rs, cypher_datetime = \<lambda>s. Some (utc 0)\<rparr>
     (LINK_IDENTITIES (utc 0) ''acme'' ''a'' ''jira'' ''b'' ''sap'' ''m'' 1
       (empty_graph\<lparr>ddl := map fst INIT_STATEMENTS\<rparr>))"
    by (rule reachable.step[OF reachable.started[OF init_empty_graph] identities_linked])
qed

end
