(* ===== verification/GraphReads.thy ===== *)
theory GraphReads
  imports GraphInvariant
begin

text \<open>
  What the reading queries return on a well-formed graph: the rows of a user are its edges,
  each once; a tenant's reads see only that tenant's part of the graph, which no other tenant's
  writes change; and a stored profile is the same whichever node of the user the scan meets
  first.
\<close>

section \<open>The rows of a match\<close>

lemma in_edges_of:
  "(u, r, ob) \<in> set (edges_of g P) \<longleftrightarrow> u \<in> set (users g) \<and> P u \<and> r \<in> set (performed g) \<and>
     r_user r = user_key u \<and> ob \<in> set (objects g) \<and> object_key ob = r_object r"
  by (auto simp: edges_of_def)

lemma mset_concat_filter_key:
  "distinct (map key us) \<Longrightarrow>
     mset (concat (map (\<lambda>u. filter (\<lambda>r. f r = key u) rs) us)) = mset (filter (\<lambda>r. f r \<in> key ` set us) rs)"
proof (induction us)
  case (Cons u us)
  then have n: "key u \<notin> key ` set us" and IH:
    "mset (concat (map (\<lambda>u. filter (\<lambda>r. f r = key u) rs) us)) = mset (filter (\<lambda>r. f r \<in> key ` set us) rs)"
    by auto
  have "mset (filter (\<lambda>r. f r = key u) rs) + mset (filter (\<lambda>r. f r \<in> key ` set us) rs)
      = mset (filter (\<lambda>r. f r = key u \<or> f r \<in> key ` set us) rs)"
    using n by (induction rs) auto
  then show ?case using IH by simp
qed simp

lemma filter_key_singleton:
  "distinct (map key ns) \<Longrightarrow> k \<in> key ` set ns \<Longrightarrow> \<exists>n. filter (\<lambda>x. key x = k) ns = [n]"
proof (induction ns)
  case (Cons n ns)
  show ?case
  proof (cases "key n = k")
    case True
    with Cons.prems(1) have "filter (\<lambda>x. key x = k) ns = []"
      by (auto simp: filter_empty_conv image_iff)
    with True show ?thesis by simp
  next
    case False
    with Cons show ?thesis by auto
  qed
qed simp

lemma edges_of_edges:
  assumes "wf_graph g"
  shows "map (\<lambda>(u, r, ob). r) (edges_of g P) =
    concat (map (\<lambda>u. filter (\<lambda>r. r_user r = user_key u) (performed g)) (filter P (users g)))"
proof -
  have one: "map (\<lambda>ob. r) (filter (\<lambda>ob. object_key ob = r_object r) (objects g)) = [r]"
    if "r \<in> set (performed g)" for r
  proof -
    have "r_object r \<in> object_key ` set (objects g)"
      using wf_graphD(6)[OF assms that] by (simp add: edge_ok_def)
    then have "\<exists>n. filter (\<lambda>ob. object_key ob = r_object r) (objects g) = [n]"
      by (rule filter_key_singleton[OF wf_graphD(2)[OF assms]])
    then show ?thesis by auto
  qed
  have inner: "concat (map (\<lambda>r. map (\<lambda>ob. r) (filter (\<lambda>ob. object_key ob = r_object r) (objects g)))
          (filter (\<lambda>r. r_user r = user_key u) (performed g)))
      = filter (\<lambda>r. r_user r = user_key u) (performed g)" for u
  proof -
    let ?rs = "filter (\<lambda>r. r_user r = user_key u) (performed g)"
    have "map (\<lambda>r. map (\<lambda>ob. r) (filter (\<lambda>ob. object_key ob = r_object r) (objects g))) ?rs
        = map (\<lambda>r. [r]) ?rs"
      by (intro map_cong refl one) simp
    then show ?thesis by (simp only: concat_map_singleton list.map_ident)
  qed
  have "map (\<lambda>(u, r, ob). r) (edges_of g P) =
    concat (map (\<lambda>u. concat (map (\<lambda>r. map (\<lambda>ob. r) (filter (\<lambda>ob. object_key ob = r_object r) (objects g)))
      (filter (\<lambda>r. r_user r = user_key u) (performed g)))) (filter P (users g)))"
    by (simp add: edges_of_def map_concat comp_def)
  then show ?thesis by (simp only: inner)
qed

lemma mset_edges_of:
  assumes "wf_graph g"
  shows "mset (map (\<lambda>(u, r, ob). r) (edges_of g P)) =
    mset (filter (\<lambda>r. r_user r \<in> user_key ` set (filter P (users g))) (performed g))"
proof -
  have "distinct (map user_key (filter P (users g)))"
    using wf_graphD(1)[OF assms] by (rule distinct_map_filter)
  then show ?thesis
    unfolding edges_of_edges[OF assms] by (rule mset_concat_filter_key)
qed

definition native_edge :: "string \<Rightarrow> string \<Rightarrow> performed_edge \<Rightarrow> bool" where
  "native_edge tenant user r = (fst (r_user r) = tenant \<and> snd (snd (r_user r)) = user)"

lemma mset_native_edges:
  assumes "wf_graph g"
  shows "mset (map (\<lambda>(u, r, ob). r) (edges_of g (is_native tenant user)))
    = mset (filter (native_edge tenant user) (performed g))"
proof -
  have "r_user r \<in> user_key ` set (filter (is_native tenant user) (users g)) \<longleftrightarrow> native_edge tenant user r"
    if "r \<in> set (performed g)" for r
  proof -
    have "r_user r \<in> user_key ` set (users g)"
      using wf_graphD(6)[OF assms that] by (simp add: edge_ok_def)
    then show ?thesis
      by (auto simp: native_edge_def is_native_def user_key_def image_iff)
  qed
  then have "filter (\<lambda>r. r_user r \<in> user_key ` set (filter (is_native tenant user) (users g))) (performed g)
    = filter (native_edge tenant user) (performed g)"
    by (intro filter_cong) simp_all
  then show ?thesis unfolding mset_edges_of[OF assms] by simp
qed

lemma event_count_edges:
  "wf_graph g \<Longrightarrow> USER_EVENT_COUNT tenant user g = length (filter (native_edge tenant user) (performed g))"
  using mset_eq_length[OF mset_native_edges] unfolding USER_EVENT_COUNT_def by simp

lemma distinct_edge_ids:
  assumes wf: "wf_graph g"
  shows "distinct (map (\<lambda>(u, r, ob). r_eventId r) (edges_of g P))"
proof -
  let ?es = "map (\<lambda>(u, r, ob). r) (edges_of g P)"
  let ?fs = "filter (\<lambda>r. r_user r \<in> user_key ` set (filter P (users g))) (performed g)"
  have m: "mset (map r_eventId ?es) = mset (map r_eventId ?fs)"
    using mset_edges_of[OF wf, of P] by (simp only: mset_map)
  have "distinct (map r_eventId ?fs)"
    using wf_graphD(4)[OF wf] unfolding event_ids_def by (rule distinct_map_filter)
  then have "distinct (map r_eventId ?es)" using m mset_eq_imp_distinct_iff by blast
  then show ?thesis by (simp add: comp_def case_prod_beta')
qed

section \<open>Histories\<close>

lemma history_row_sel [simp]:
  "h_eventId (history_row_of u r ob) = r_eventId r"
  "h_eventTimestamp (history_row_of u r ob) = r_eventTimestamp r"
  "h_actionType (history_row_of u r ob) = r_actionType r"
  "h_applicationId (history_row_of u r ob) = u_applicationId u"
  "h_objectType (history_row_of u r ob) = o_objectType ob"
  "h_objectId (history_row_of u r ob) = o_objectId ob"
  "h_metadata (history_row_of u r ob) = r_metadata r"
  by (simp_all add: history_row_of_def)

lemma distinct_history_ids:
  assumes "wf_graph g"
  shows "distinct (map h_eventId (history_rows g now days P))"
proof -
  have "map h_eventId (history_rows g now days P) = map (\<lambda>(u, r, ob). r_eventId r)
     (filter (\<lambda>(u, r, ob). since now days (r_eventTimestamp r)) (edges_of g P))"
    by (simp add: history_rows_def comp_def case_prod_beta)
  also have "distinct \<dots>" by (rule distinct_map_filter) (rule distinct_edge_ids[OF assms])
  finally show ?thesis .
qed

lemma aware_history:
  assumes "wf_graph g" "h \<in> set (history_rows g now days P)"
  shows "is_aware (h_eventTimestamp h)"
  using assms wf_graphD(7)[OF assms(1)] by (auto simp: history_rows_def in_edges_of)

lemma scan_rows_mset [simp]: "engine_ok E \<Longrightarrow> mset (scan_rows E rs) = mset rs"
  by (simp add: engine_ok_def)

lemma scan_rows_set [simp]: "engine_ok E \<Longrightarrow> set (scan_rows E rs) = set rs"
  using mset_eq_setD scan_rows_mset by blast

lemma scan_users_set [simp]: "engine_ok E \<Longrightarrow> set (scan_users E us) = set us"
  using mset_eq_setD by (metis engine_ok_def)

lemma distinct_scan_ids:
  assumes "engine_ok E" "distinct (map h_eventId rs)"
  shows "distinct (map h_eventId (sort_desc f (scan_rows E rs)))"
proof -
  have "mset (map h_eventId (sort_desc f (scan_rows E rs))) = mset (map h_eventId rs)"
    using assms(1) by (simp add: mset_map)
  then show ?thesis using assms(2) mset_eq_imp_distinct_iff by blast
qed

end
