(* ===== verification/Tenancy.thy ===== *)
theory Tenancy
  imports GraphReads
begin

text \<open>
  Multi-tenancy: the part of the graph that one tenant owns, every read as a function of that
  part, and every write of another tenant leaving it alone.
\<close>

section \<open>The part of a tenant\<close>

definition tenant_view :: "string \<Rightarrow> graph \<Rightarrow> graph" where
  "tenant_view tenant g = \<lparr>users = filter (\<lambda>u. u_tenantId u = tenant) (users g),
     apps = filter (\<lambda>a. fst a = tenant) (apps g),
     objects = filter (\<lambda>ob. o_tenantId ob = tenant) (objects g),
     belongs_to = filter (\<lambda>e. fst (fst e) = tenant) (belongs_to g),
     contains_obj = filter (\<lambda>e. fst (fst e) = tenant) (contains_obj g),
     performed = filter (\<lambda>r. fst (r_user r) = tenant) (performed g),
     same_person = filter (\<lambda>s. fst (s_from s) = tenant) (same_person g), ddl = []\<rparr>"

lemma tenant_view_sel [simp]:
  "users (tenant_view tenant g) = filter (\<lambda>u. u_tenantId u = tenant) (users g)"
  "objects (tenant_view tenant g) = filter (\<lambda>ob. o_tenantId ob = tenant) (objects g)"
  "performed (tenant_view tenant g) = filter (\<lambda>r. fst (r_user r) = tenant) (performed g)"
  by (simp_all add: tenant_view_def)

lemma fst_user_key [simp]: "fst (user_key u) = u_tenantId u"
  by (simp add: user_key_def)

lemma fst_object_key [simp]: "fst (object_key ob) = o_tenantId ob"
  by (simp add: object_key_def)

section \<open>Writes stay inside their tenant\<close>

lemma view_write_result:
  "tenant \<noteq> other \<Longrightarrow> tenant_view other (write_result tenant p t g) = tenant_view other g"
proof -
  assume ne: "tenant \<noteq> other"
  have u: "filter (\<lambda>u. u_tenantId u = other) (users (write_result tenant p t g))
      = filter (\<lambda>u. u_tenantId u = other) (users g)"
    unfolding write_result_def using ne
    by (simp, intro mu.filter_merge) (metis fst_user_key keys_of_params(1))
  have ob: "filter (\<lambda>ob. o_tenantId ob = other) (objects (write_result tenant p t g))
      = filter (\<lambda>ob. o_tenantId ob = other) (objects g)"
    unfolding write_result_def using ne
    by (simp, intro mo.filter_merge) (metis fst_object_key keys_of_params(2))
  show ?thesis
    using u ob ne by (simp add: tenant_view_def) (simp add: write_result_def filter_merge_edge)
qed

lemma filter_map_frame:
  assumes "\<And>x. P (f x) = P x" "\<And>x. P x \<Longrightarrow> f x = x"
  shows "filter P (map f xs) = filter P xs"
  using assms by (induction xs) auto

lemma view_link:
  assumes "tenant \<noteq> other"
  shows "tenant_view other (LINK_IDENTITIES now tenant userA appA userB appB meth confidence g)
       = tenant_view other g"
proof (cases rule: LINK_IDENTITIES_cases[of now tenant userA appA userB appB meth confidence g])
  case (2 a b)
  let ?ks = "[(tenant, appA, userA), (tenant, appB, userB)]"
  have u: "filter (\<lambda>u. u_tenantId u = other) (map (set_canonical ?ks c) us)
      = filter (\<lambda>u. u_tenantId u = other) us" for c us
  proof (rule filter_map_frame)
    show "set_canonical ?ks c u = u" if "u_tenantId u = other" for u
      using that assms by (auto simp: set_canonical_def user_key_def)
  qed simp
  have s: "filter (\<lambda>s. fst (s_from s) = other)
      (filter (\<lambda>s. (s_from s, s_to s) \<noteq> ((tenant, appA, userA), (tenant, appB, userB))) ss)
      = filter (\<lambda>s. fst (s_from s) = other) ss" for ss :: "same_person_edge list"
    using assms by (auto simp: filter_filter intro!: filter_cong)
  show ?thesis
    unfolding 2(5) tenant_view_def using assms u s by (simp del: filter_filter)
qed simp

lemma view_profile:
  assumes "tenant \<noteq> other"
  shows "tenant_view other (UPDATE_USER_PROFILE now tenant user ptext version g) = tenant_view other g"
proof -
  have "filter (\<lambda>u. u_tenantId u = other) (map (profile_update ptext now tenant user version) us)
      = filter (\<lambda>u. u_tenantId u = other) us" for us
    by (rule filter_map_frame)
       (use assms in \<open>auto simp: profile_update_def is_native_def set_profile_def\<close>)
  then show ?thesis by (simp add: UPDATE_USER_PROFILE_eq tenant_view_def)
qed

lemma view_step:
  assumes "graph_step E tenant g g'" "tenant \<noteq> other"
  shows "tenant_view other g' = tenant_view other g"
  using assms(1)
proof (cases rule: graph_step.cases)
  case (event_written p)
  then show ?thesis using assms(2) by (auto simp: WRITE_EVENT_Inr view_write_result)
next
  case schema_run
  then obtain ns where "g' = g\<lparr>ddl := ddl g @ ns\<rparr>" using run_all_ddl_frame by blast
  then show ?thesis by (simp add: tenant_view_def)
qed (simp_all add: assms(2) view_link view_profile)

section \<open>Reads see only their tenant\<close>

lemma edges_of_view:
  assumes wf: "wf_graph g" and P: "\<And>u. P u \<Longrightarrow> u_tenantId u = tenant"
  shows "edges_of (tenant_view tenant g) P = edges_of g P"
proof -
  have us: "filter P (filter (\<lambda>u. u_tenantId u = tenant) (users g)) = filter P (users g)"
    using P by (auto intro!: filter_cong)
  have rs: "filter (\<lambda>r. r_user r = user_key u) (filter (\<lambda>r. fst (r_user r) = tenant) (performed g))
      = filter (\<lambda>r. r_user r = user_key u) (performed g)" if "u \<in> set (filter P (users g))" for u
    using that P by (auto intro!: filter_cong)
  have obs: "filter (\<lambda>ob. object_key ob = r_object r) (filter (\<lambda>ob. o_tenantId ob = tenant) (objects g))
      = filter (\<lambda>ob. object_key ob = r_object r) (objects g)"
    if "u \<in> set (filter P (users g))" "r \<in> set (filter (\<lambda>r. r_user r = user_key u) (performed g))" for u r
  proof -
    have "fst (r_object r) = tenant"
      using that P wf_graphD(6)[OF wf, of r] by (auto simp: edge_ok_def)
    then show ?thesis by (auto intro!: filter_cong) (metis fst_object_key)
  qed
  show ?thesis
    unfolding edges_of_def tenant_view_sel us
    by (intro arg_cong[where f = concat] map_cong refl) (simp_all only: rs obs)
qed

lemma read_history_view:
  assumes "wf_graph g" "\<And>u. P u \<Longrightarrow> u_tenantId u = tenant"
  shows "history_rows (tenant_view tenant g) now days P = history_rows g now days P"
  by (simp only: history_rows_def edges_of_view[OF assms])

lemma native_tenant: "is_native tenant user u \<Longrightarrow> u_tenantId u = tenant"
  by (simp add: is_native_def)

lemma reads_view:
  assumes "wf_graph g"
  shows "USER_HISTORY E now tenant user days (tenant_view tenant g) = USER_HISTORY E now tenant user days g"
    "CROSS_APP_HISTORY E now tenant c days (tenant_view tenant g) = CROSS_APP_HISTORY E now tenant c days g"
    "USER_ACTION_PATTERN tenant user act (tenant_view tenant g) = USER_ACTION_PATTERN tenant user act g"
    "USER_EVENT_COUNT tenant user (tenant_view tenant g) = USER_EVENT_COUNT tenant user g"
proof -
  have h: "history_rows (tenant_view tenant g) now days (is_native tenant user)
      = history_rows g now days (is_native tenant user)"
    by (rule read_history_view[OF assms native_tenant])
  have c: "history_rows (tenant_view tenant g) now days (\<lambda>u. u_tenantId u = tenant \<and> u_canonicalUserId u = Some c)
      = history_rows g now days (\<lambda>u. u_tenantId u = tenant \<and> u_canonicalUserId u = Some c)"
    by (rule read_history_view[OF assms]) simp
  have e: "edges_of (tenant_view tenant g) (is_native tenant user) = edges_of g (is_native tenant user)"
    by (rule edges_of_view[OF assms native_tenant])
  show "USER_HISTORY E now tenant user days (tenant_view tenant g) = USER_HISTORY E now tenant user days g"
    by (simp only: USER_HISTORY_def h)
  show "CROSS_APP_HISTORY E now tenant c days (tenant_view tenant g) = CROSS_APP_HISTORY E now tenant c days g"
    by (simp only: CROSS_APP_HISTORY_def c)
  show "USER_ACTION_PATTERN tenant user act (tenant_view tenant g) = USER_ACTION_PATTERN tenant user act g"
    by (simp only: USER_ACTION_PATTERN_def e)
  show "USER_EVENT_COUNT tenant user (tenant_view tenant g) = USER_EVENT_COUNT tenant user g"
    by (simp only: USER_EVENT_COUNT_def e)
qed

lemma filter_view: "(\<And>u. P u \<Longrightarrow> u_tenantId u = tenant) \<Longrightarrow>
    filter P (filter (\<lambda>u. u_tenantId u = tenant) us) = filter P us"
  by (auto intro!: filter_cong)

lemma node_reads_view:
  "CANONICAL_USER_ID E tenant user (tenant_view tenant g) = CANONICAL_USER_ID E tenant user g"
  "GET_USER_PROFILE E tenant user (tenant_view tenant g) = GET_USER_PROFILE E tenant user g"
  "ACTIVE_USERS now tenant days (tenant_view tenant g) = ACTIVE_USERS now tenant days g"
proof -
  have n: "filter (\<lambda>u. is_native tenant user u \<and> Q u) (filter (\<lambda>u. u_tenantId u = tenant) us)
      = filter (\<lambda>u. is_native tenant user u \<and> Q u) us" for Q us
    by (rule filter_view) (simp add: is_native_def)
  have t: "filter (\<lambda>u. u_tenantId u = tenant \<and> Q u) (filter (\<lambda>u. u_tenantId u = tenant) us)
      = filter (\<lambda>u. u_tenantId u = tenant \<and> Q u) us" for Q us
    by (rule filter_view) simp
  show "CANONICAL_USER_ID E tenant user (tenant_view tenant g) = CANONICAL_USER_ID E tenant user g"
    unfolding CANONICAL_USER_ID_def tenant_view_sel n ..
  show "GET_USER_PROFILE E tenant user (tenant_view tenant g) = GET_USER_PROFILE E tenant user g"
    unfolding GET_USER_PROFILE_def tenant_view_sel n ..
  show "ACTIVE_USERS now tenant days (tenant_view tenant g) = ACTIVE_USERS now tenant days g"
    unfolding ACTIVE_USERS_def tenant_view_sel t ..
qed

section \<open>Profiles\<close>

lemma scan_head:
  "engine_ok E \<Longrightarrow> scan_users E us = u # rest \<Longrightarrow> u \<in> set us"
  using scan_users_set[of E us] by (metis list.set_intros(1))

lemma scan_Nil [simp]: "engine_ok E \<Longrightarrow> scan_users E us = [] \<longleftrightarrow> us = []"
  using scan_users_set[of E us] by (metis set_empty)

text \<open>Any node of the user with a profile gives the answer.\<close>

lemma GET_USER_PROFILE_any:
  assumes E: "engine_ok E" and a: "profiles_agree (users g)"
    and u: "u \<in> set (users g)" "is_native tenant user u" "u_nlqProfile u \<noteq> None"
  shows "GET_USER_PROFILE E tenant user g = profile_of u"
proof -
  let ?us = "filter (\<lambda>u. is_native tenant user u \<and> u_nlqProfile u \<noteq> None) (users g)"
  have "scan_users E ?us \<noteq> []" using u E by (auto simp: filter_empty_conv)
  then obtain v rest where v: "scan_users E ?us = v # rest" by (cases "scan_users E ?us") auto
  then have "v \<in> set ?us" by (rule scan_head[OF E])
  then have v': "v \<in> set (users g)" "is_native tenant user v" "u_nlqProfile v \<noteq> None" by auto
  have "u_tenantId v = u_tenantId u" "u_nativeUserId v = u_nativeUserId u"
    using v'(2) u(2) by (simp_all add: is_native_def)
  with v'(1,3) u(1,3) have "profile_of v = profile_of u"
    using a unfolding profiles_agree_def by metis
  then show ?thesis unfolding GET_USER_PROFILE_def v by simp
qed

lemma GET_USER_PROFILE_None:
  "engine_ok E \<Longrightarrow> GET_USER_PROFILE E tenant user g = None \<longleftrightarrow>
     (\<forall>u \<in> set (users g). is_native tenant user u \<longrightarrow> u_nlqProfile u = None)"
proof -
  assume E: "engine_ok E"
  let ?us = "filter (\<lambda>u. is_native tenant user u \<and> u_nlqProfile u \<noteq> None) (users g)"
  show ?thesis
  proof (cases "?us = []")
    case True
    then have "scan_users E ?us = []" using scan_Nil[OF E, of ?us] by simp
    then have "GET_USER_PROFILE E tenant user g = None" unfolding GET_USER_PROFILE_def by simp
    with True show ?thesis by (auto simp: filter_empty_conv)
  next
    case False
    then obtain u rest where u: "scan_users E ?us = u # rest"
      using scan_Nil[OF E, of ?us] by (cases "scan_users E ?us") auto
    have "u \<in> set ?us" by (rule scan_head[OF E u])
    then have "profile_of u \<noteq> None" by (simp add: profile_of_def)
    then have "GET_USER_PROFILE E tenant user g \<noteq> None" unfolding GET_USER_PROFILE_def u by simp
    with False show ?thesis by (auto simp: filter_empty_conv)
  qed
qed

end
