(* ===== verification/StoreSpec.thy ===== *)
theory StoreSpec
  imports Tenancy Interfaces
begin

text \<open>
  The contract of \<open>GraphStore\<close>: what its methods return on a consistent store that is up,
  and the interpretations that make it a \<open>HistoryReader\<close>, an \<open>EventWriter\<close>, a
  \<open>PatternReader\<close> and a \<open>ProfileStore\<close>.
\<close>

definition store_ok :: "store \<Rightarrow> bool" where
  "store_ok s = (engine_ok (engine s) \<and> wf_graph (graph s) \<and> online s)"

lemma store_okD:
  assumes "store_ok s"
  shows "engine_ok (engine s)" "wf_graph (graph s)" "online s"
  using assms by (simp_all add: store_ok_def)

lemma store_ok_online [simp]: "store_ok s \<Longrightarrow> online s"
  by (simp add: store_ok_def)

section \<open>Writing\<close>

lemma write_params_event_eq:
  assumes "store_ok s"
  shows "write_params_event s tenant p = (case cypher_datetime (engine s) (p_eventTimestamp p) of
     None \<Rightarrow> Inl DatabaseError
   | Some t \<Rightarrow> if p_eventId p \<in> set (event_ids (graph s)) then Inl (DuplicateEventError (p_eventId p))
       else Inr (s\<lparr>graph := write_result tenant p t (graph s)\<rparr>))"
  using wf_graphD(5)[OF store_okD(2)[OF assms]] store_okD(3)[OF assms]
  by (simp add: write_params_event_def WRITE_EVENT_def write_result_def split: option.split)

lemma event_ids_write_result [simp]:
  "event_ids (write_result tenant p t g) = event_ids g @ [p_eventId p]"
  by (simp add: event_ids_def write_result_def)

lemma store_ok_write:
  assumes "store_ok s" "cypher_datetime (engine s) (p_eventTimestamp p) = Some t"
    "p_eventId p \<notin> set (event_ids (graph s))"
  shows "store_ok (s\<lparr>graph := write_result tenant p t (graph s)\<rparr>)"
  using assms by (auto simp: store_ok_def engine_ok_def intro!: wf_write_result)

definition writable_event :: "store \<Rightarrow> json \<Rightarrow> string \<Rightarrow> bool" where
  \<comment> \<open>the store can take the event's parameters and the server accepts its timestamp\<close>
  "writable_event s event i = (\<exists>tenant p t. event_params event = Inr (tenant, p) \<and> p_eventId p = i \<and>
     cypher_datetime (engine s) (p_eventTimestamp p) = Some t)"

definition stored_ids :: "store \<Rightarrow> string set" where
  "stored_ids s = set (event_ids (graph s))"

lemma write_params_event_frame:
  "write_params_event s tenant p = Inr s' \<Longrightarrow> engine s' = engine s \<and> clock s' = clock s \<and> online s' = online s"
  by (auto simp: write_params_event_def session_def set_graph_def split: sum.splits if_splits py_error.splits)

lemma write_event_frame:
  "write_event s event = Inr s' \<Longrightarrow> engine s' = engine s \<and> clock s' = clock s \<and> online s' = online s"
  by (auto simp: write_event_def res_simps split: prod.splits dest!: write_params_event_frame)

interpretation writer: event_writer store_ok writable_event stored_ids write_event
proof
  fix s event i
  assume s: "store_ok s" and w: "writable_event s event i"
  then obtain tenant p t where p: "event_params event = Inr (tenant, p)" "p_eventId p = i"
    "cypher_datetime (engine s) (p_eventTimestamp p) = Some t"
    by (auto simp: writable_event_def)
  show "\<exists>s'. write_event s event = Inr s' \<and> store_ok s' \<and> stored_ids s' = insert i (stored_ids s)"
    if "i \<notin> stored_ids s"
    using that s p store_ok_write[OF s p(3)]
    by (simp add: write_event_def write_params_event_eq stored_ids_def)
  show "write_event s event = Inl (DuplicateEventError i)" if "i \<in> stored_ids s"
    using that s p by (simp add: write_event_def write_params_event_eq stored_ids_def)
next
  show "writable_event s' other j = writable_event s other j" if "write_event s event = Inr s'"
    for s event s' other j
    using write_event_frame[OF that] by (simp add: writable_event_def)
qed

section \<open>Reading\<close>

lemma get_user_history_eq:
  "store_ok s \<Longrightarrow> get_user_history s tenant user days None =
     Inr (USER_HISTORY (engine s) (clock s) tenant user days (graph s))"
  by (simp add: get_user_history_def)

lemma history_ok_scan:
  assumes "store_ok s"
  shows "history_ok (sort_desc (\<lambda>h. dt_instant (h_eventTimestamp h))
     (scan_rows (engine s) (history_rows (graph s) now days P)))"
proof -
  note E = store_okD(1)[OF assms] and wf = store_okD(2)[OF assms]
  show ?thesis
    unfolding history_ok_def newest_first_def
    using sorted_sort_desc distinct_scan_ids[OF E distinct_history_ids[OF wf]] aware_history[OF wf]
      scan_rows_set[OF E] by auto
qed

lemma USER_HISTORY_ok: "store_ok s \<Longrightarrow> history_ok (USER_HISTORY (engine s) now tenant user days (graph s))"
  unfolding USER_HISTORY_def by (rule history_ok_scan)

lemma CROSS_APP_HISTORY_ok:
  "store_ok s \<Longrightarrow> history_ok (CROSS_APP_HISTORY (engine s) now tenant c days (graph s))"
  unfolding CROSS_APP_HISTORY_def by (rule history_ok_scan)

lemma set_USER_HISTORY:
  "engine_ok E \<Longrightarrow> set (USER_HISTORY E now tenant user days g) = set (history_rows g now days (is_native tenant user))"
  by (simp add: USER_HISTORY_def)

interpretation reader: history_reader store_ok "\<lambda>s t u d. get_user_history s t u d None"
    get_canonical_user_id get_cross_app_history
  by unfold_locales
     (simp_all add: get_user_history_eq get_canonical_user_id_def get_cross_app_history_def
       USER_HISTORY_ok CROSS_APP_HISTORY_ok)

section \<open>Profiles\<close>

definition known_user :: "store \<Rightarrow> string \<Rightarrow> string \<Rightarrow> bool" where
  "known_user s tenant user = (\<exists>u \<in> set (users (graph s)). is_native tenant user u)"

lemma update_user_profile_eq:
  "store_ok s \<Longrightarrow> update_user_profile s tenant user ptext version =
     Inr (s\<lparr>graph := UPDATE_USER_PROFILE (clock s) tenant user ptext version (graph s)\<rparr>)"
  by (simp add: update_user_profile_def)

lemma update_user_profile_Inr:
  "update_user_profile s tenant user ptext version = Inr s' \<Longrightarrow> online s \<and>
     s' = s\<lparr>graph := UPDATE_USER_PROFILE (clock s) tenant user ptext version (graph s)\<rparr>"
  by (auto simp: update_user_profile_def session_def split: if_splits)

lemma get_user_profile_eq:
  "store_ok s \<Longrightarrow> get_user_profile s tenant user = Inr (GET_USER_PROFILE (engine s) tenant user (graph s))"
  by (simp add: get_user_profile_def)

lemma get_after_update:
  assumes E: "engine_ok E" and wf: "wf_graph g" and u: "u \<in> set (users g)" "is_native tenant user u"
  shows "GET_USER_PROFILE E tenant user (UPDATE_USER_PROFILE now tenant user ptext version g) =
    Some \<lparr>nlqProfile = ptext, profileGeneratedAt = Some now, profileVersion = Some version\<rparr>"
proof -
  let ?g = "UPDATE_USER_PROFILE now tenant user ptext version g"
  let ?u = "set_profile ptext now version u"
  have "?u \<in> set (users ?g)" using u by (force simp: UPDATE_USER_PROFILE_def)
  moreover have "is_native tenant user ?u" "u_nlqProfile ?u \<noteq> None"
    using u(2) by (simp_all add: is_native_def set_profile_def)
  ultimately have "GET_USER_PROFILE E tenant user ?g = profile_of ?u"
    using wf_graphD(12)[OF wf_update_profile[OF wf]] by (intro GET_USER_PROFILE_any[OF E])
  then show ?thesis by simp
qed

lemma get_other_update:
  assumes E: "engine_ok E" and wf: "wf_graph g" and ne: "(tenant', user') \<noteq> (tenant, user)"
  shows "GET_USER_PROFILE E tenant' user' (UPDATE_USER_PROFILE now tenant user ptext version g)
       = GET_USER_PROFILE E tenant' user' g"
proof -
  have "filter (\<lambda>u. is_native tenant' user' u \<and> u_nlqProfile u \<noteq> None)
      (map (\<lambda>u. if is_native tenant user u then set_profile ptext now version u else u) us)
    = filter (\<lambda>u. is_native tenant' user' u \<and> u_nlqProfile u \<noteq> None) us" for us
    using ne by (induction us) (auto simp: is_native_def set_profile_def)
  then show ?thesis unfolding GET_USER_PROFILE_def UPDATE_USER_PROFILE_def by simp
qed

lemma edges_of_update_profile:
  "edges_of (UPDATE_USER_PROFILE now tenant user ptext version g) (is_native tenant' user')
   = map (\<lambda>(u, r, ob). (profile_update ptext now tenant user version u, r, ob))
       (edges_of g (is_native tenant' user'))"
proof -
  let ?f = "profile_update ptext now tenant user version"
  have n: "is_native tenant' user' (?f u) = is_native tenant' user' u" for u
    by (simp add: is_native_def)
  have f: "filter (is_native tenant' user') (map ?f us) = map ?f (filter (is_native tenant' user') us)" for us
    by (induction us) (simp_all add: n)
  show ?thesis
    unfolding edges_of_def UPDATE_USER_PROFILE_eq
    by (simp add: f map_concat comp_def del: filter_map)
qed

lemma history_rows_update_profile:
  "history_rows (UPDATE_USER_PROFILE now tenant user ptext version g) now' days (is_native tenant' user')
   = history_rows g now' days (is_native tenant' user')"
proof -
  have h: "history_row_of (profile_update ptext now tenant user version u) r ob = history_row_of u r ob"
    for u r ob by (simp add: history_row_of_def)
  show ?thesis
    unfolding history_rows_def edges_of_update_profile
    by (simp add: filter_map comp_def case_prod_unfold h)
qed

lemma count_update_profile:
  "USER_EVENT_COUNT tenant' user' (UPDATE_USER_PROFILE now tenant user ptext version g)
   = USER_EVENT_COUNT tenant' user' g"
  by (simp add: USER_EVENT_COUNT_def edges_of_update_profile)

lemma known_update_profile:
  "known_user (s\<lparr>graph := UPDATE_USER_PROFILE now tenant user ptext version (graph s)\<rparr>) tenant' user'
   = known_user s tenant' user'"
  by (auto simp: known_user_def UPDATE_USER_PROFILE_eq is_native_def)

lemma active_users_known:
  "u \<in> set (ACTIVE_USERS now tenant days (graph s)) \<Longrightarrow> known_user s tenant u"
  by (auto simp: ACTIVE_USERS_def known_user_def is_native_def)

interpretation patterns: pattern_reader store_ok "\<lambda>s t u d. get_user_history s t u d None"
    get_user_event_count
  by unfold_locales (simp_all add: get_user_history_eq USER_HISTORY_ok get_user_event_count_def)

lemma store_ok_update_profile:
  "store_ok s \<Longrightarrow> store_ok (s\<lparr>graph := UPDATE_USER_PROFILE now tenant user ptext version (graph s)\<rparr>)"
  by (simp add: store_ok_def wf_update_profile)

interpretation profiles: profile_store store_ok known_user get_active_users update_user_profile
    get_user_profile
proof
  fix s tenant user ptext version s' tenant' user' and days :: int
  show "\<exists>us. get_active_users s tenant days = Inr us \<and> distinct us \<and> (\<forall>u \<in> set us. known_user s tenant u)"
    if "store_ok s"
    using that active_users_known[of _ "clock s" tenant days s]
    by (simp add: get_active_users_def) (simp add: ACTIVE_USERS_def)
  show "\<exists>s'. update_user_profile s tenant user ptext version = Inr s' \<and> store_ok s'" if "store_ok s"
    using that by (simp add: update_user_profile_eq store_ok_update_profile)
  show "\<exists>p. get_user_profile s tenant user = Inr p" if "store_ok s"
    using that by (simp add: get_user_profile_eq)
  show "\<exists>t. get_user_profile s' tenant user =
      Inr (Some \<lparr>nlqProfile = ptext, profileGeneratedAt = t, profileVersion = Some version\<rparr>)"
    if "store_ok s" "known_user s tenant user" "update_user_profile s tenant user ptext version = Inr s'"
    using that store_ok_update_profile[OF that(1), of "clock s" tenant user ptext version]
      get_after_update[OF store_okD(1,2)[OF that(1)]]
    by (auto simp: update_user_profile_eq get_user_profile_eq known_user_def)
  show "get_user_profile s' tenant' user' = get_user_profile s tenant' user'"
    if "store_ok s" "update_user_profile s tenant user ptext version = Inr s'" "(tenant', user') \<noteq> (tenant, user)"
    using that store_ok_update_profile[OF that(1), of "clock s" tenant user ptext version]
      get_other_update[OF store_okD(1,2)[OF that(1)] that(3)]
    by (auto simp: update_user_profile_eq get_user_profile_eq)
  show "known_user s' tenant' user' = known_user s tenant' user'"
    if "update_user_profile s tenant user ptext version = Inr s'"
    using update_user_profile_Inr[OF that] by (simp add: known_update_profile)
qed

interpretation graphs: profiling_graph store_ok "\<lambda>s t u d. get_user_history s t u d None"
    get_user_event_count known_user get_active_users update_user_profile get_user_profile
proof
  fix s tenant user ptext version s' tenant' user' and days :: int
  assume u: "update_user_profile s tenant user ptext version = Inr s'"
  show "get_user_history s' tenant' user' days None = get_user_history s tenant' user' days None"
    using update_user_profile_Inr[OF u]
    by (simp add: get_user_history_def USER_HISTORY_def history_rows_update_profile)
  show "get_user_event_count s' tenant' user' = get_user_event_count s tenant' user'"
    using update_user_profile_Inr[OF u] by (simp add: get_user_event_count_def count_update_profile)
qed

end
