(* ===== verification/EventsApi.thy ===== *)
theory EventsApi
  imports Schema Interfaces Http StoreSpec
begin

text \<open>
  \<open>api/routes/events.py\<close>: ingestion of one event and of a batch. The handlers change the
  graph and the counter of ingested events; an exception leaves what was written before it, so
  the batch returns its state beside the error. The wall clock is read once a request.
\<close>

section \<open>One event\<close>

record 's ingest =
  i_store :: 's
  i_count :: nat  \<comment> \<open>\<open>events_ingested_total\<close>\<close>

definition MAX_BATCH_SIZE :: nat where
  "MAX_BATCH_SIZE = 100"

definition stamp :: "pydatetime \<Rightarrow> json \<Rightarrow> py_error + json" where
  \<comment> \<open>\<open>event["ingestionTimestamp"] = ...\<close>\<close>
  "stamp now event = (case event of
     JObj d \<Rightarrow> Inr (JObj (AList.update ''ingestionTimestamp'' (JStr (isoformat_utc now)) d))
   | _ \<Rightarrow> Inl TypeError)"

definition write_stamped ::
  "('s \<Rightarrow> json \<Rightarrow> py_error + 's) \<Rightarrow> pydatetime \<Rightarrow> 's ingest \<Rightarrow> json \<Rightarrow> py_error + 's ingest" where
  "write_stamped write now st event = ebind (stamp now event) (\<lambda>e.
     ebind (write (i_store st) e) (\<lambda>s'. Inr \<lparr>i_store = s', i_count = i_count st + 1\<rparr>))"

definition ingest_one ::
  "('s \<Rightarrow> json \<Rightarrow> py_error + 's) \<Rightarrow> validator \<Rightarrow> pydatetime \<Rightarrow> 's ingest \<Rightarrow> json \<Rightarrow> py_error + 's ingest" where
  "ingest_one write V now st event =
     ebind (validate V now event) (\<lambda>_. write_stamped write now st event)"

definition ingest_event ::
  "('s \<Rightarrow> json \<Rightarrow> py_error + 's) \<Rightarrow> validator \<Rightarrow> pydatetime \<Rightarrow> string \<Rightarrow> 's ingest \<Rightarrow> json \<Rightarrow>
   's ingest \<times> (py_error + json response)" where
  "ingest_event write V now request_id st event = (case ingest_one write V now st event of
     Inl (SchemaValidationError errors) \<Rightarrow>
       (st, Inr (json_response 400 (error_body ''validation_error'' (join ''; '' errors) request_id)))
   | Inl (DuplicateEventError i) \<Rightarrow>
       (st, Inr (json_response 409 (error_body ''duplicate_event'' (error_message (DuplicateEventError i)) request_id)))
   | Inl e \<Rightarrow> (st, Inl e)
   | Inr st' \<Rightarrow> (st', ebind (py_item ''eventId'' event) (\<lambda>i.
       if is_str i then Inr (json_response 201 (JObj [(''eventId'', i), (''status'', JStr ''accepted'')]))
       else Inl ModelValidationError)))"

section \<open>A batch\<close>

record batch_event_result =
  br_eventId :: json
  br_status :: string
  br_error :: "string option"

fun validate_batch :: "validator \<Rightarrow> pydatetime \<Rightarrow> json list \<Rightarrow> py_error + (json \<times> string option) list \<times> nat" where
  "validate_batch V now [] = Inr ([], 0)"
| "validate_batch V now (event # events) = (case validate V now event of
     Inr _ \<Rightarrow> ebind (validate_batch V now events) (\<lambda>(vs, n). Inr ((event, None) # vs, n))
   | Inl (SchemaValidationError errors) \<Rightarrow>
       ebind (validate_batch V now events) (\<lambda>(vs, n). Inr ((event, Some (join ''; '' errors)) # vs, n + 1))
   | Inl e \<Rightarrow> Inl e)"

definition batch_result :: "json \<Rightarrow> string \<Rightarrow> string option \<Rightarrow> py_error + batch_event_result" where
  \<comment> \<open>\<open>BatchEventResult(eventId=event.get("eventId"), ...)\<close>: the model wants a string or nothing\<close>
  "batch_result event status err = ebind (py_get ''eventId'' event) (\<lambda>i.
     if is_str i \<or> i = JNull then Inr \<lparr>br_eventId = i, br_status = status, br_error = err\<rparr>
     else Inl ModelValidationError)"

definition persist_batch_event ::
  "('s \<Rightarrow> json \<Rightarrow> py_error + 's) \<Rightarrow> pydatetime \<Rightarrow> 's ingest \<Rightarrow> json \<Rightarrow> 's ingest \<times> (py_error + batch_event_result)" where
  "persist_batch_event write now st event = (case write_stamped write now st event of
     Inl (DuplicateEventError i) \<Rightarrow>
       (st, batch_result event ''rejected'' (Some (error_message (DuplicateEventError i))))
   | Inl e \<Rightarrow> (st, Inl e)
   | Inr st' \<Rightarrow> (st', batch_result event ''accepted'' None))"

fun persist_batch ::
  "('s \<Rightarrow> json \<Rightarrow> py_error + 's) \<Rightarrow> pydatetime \<Rightarrow> 's ingest \<Rightarrow> (json \<times> string option) list \<Rightarrow>
   's ingest \<times> (py_error + batch_event_result list)" where
  "persist_batch write now st [] = (st, Inr [])"
| "persist_batch write now st ((event, err) # rest) =
     (let (st1, r) = (case err of Some m \<Rightarrow> (st, batch_result event ''rejected'' (Some m))
                      | None \<Rightarrow> persist_batch_event write now st event)
      in case r of
           Inl e \<Rightarrow> (st1, Inl e)
         | Inr x \<Rightarrow> (let (st2, rs) = persist_batch write now st1 rest
                     in (st2, ebind rs (\<lambda>xs. Inr (x # xs)))))"

definition result_json :: "batch_event_result \<Rightarrow> json" where
  "result_json r = JObj [(''eventId'', br_eventId r), (''status'', JStr (br_status r)),
     (''error'', case br_error r of None \<Rightarrow> JNull | Some m \<Rightarrow> JStr m)]"

definition accepted_count :: "batch_event_result list \<Rightarrow> nat" where
  "accepted_count rs = length (filter (\<lambda>r. br_status r = ''accepted'') rs)"

definition batch_response :: "batch_event_result list \<Rightarrow> json response" where
  "batch_response rs = json_response 200 (JObj [(''results'', JList (map result_json rs)),
     (''acceptedCount'', JInt (int (accepted_count rs))),
     (''rejectedCount'', JInt (int (length rs) - int (accepted_count rs)))])"

definition too_many_failures :: "nat \<Rightarrow> nat \<Rightarrow> bool" where
  \<comment> \<open>\<open>failures / total > 0.10\<close>\<close>
  "too_many_failures failures n = (real failures / real n > 1/10)"

definition ingest_events_batch ::
  "('s \<Rightarrow> json \<Rightarrow> py_error + 's) \<Rightarrow> validator \<Rightarrow> pydatetime \<Rightarrow> string \<Rightarrow> 's ingest \<Rightarrow> (string \<times> json) list \<Rightarrow>
   's ingest \<times> (py_error + json response)" where
  "ingest_events_batch write V now request_id st body =
     (let events = (case map_of body ''events'' of None \<Rightarrow> JList [] | Some v \<Rightarrow> v)
      in case py_len events of
        Inl e \<Rightarrow> (st, Inl e)
      | Inr n \<Rightarrow>
        if n > MAX_BATCH_SIZE then
          (st, Inr (json_response 400 (error_body ''batch_too_large'' ''batch exceeds max size of 100'' request_id)))
        else (case ebind (py_iter events) (validate_batch V now) of
          Inl e \<Rightarrow> (st, Inl e)
        | Inr (validated, failures) \<Rightarrow>
          if n \<noteq> 0 \<and> too_many_failures failures n then
            (st, Inr (json_response 422 (error_body ''batch_rejected''
               ''more than 10% of events in the batch failed validation'' request_id)))
          else (let (st', rs) = persist_batch write now st validated
                in (st', ebind rs (\<lambda>xs. Inr (batch_response xs))))))"

section \<open>Stamping\<close>

lemma stamp_JObj [simp]: "stamp now (JObj d) =
    Inr (JObj (AList.update ''ingestionTimestamp'' (JStr (isoformat_utc now)) d))"
  by (simp add: stamp_def)

lemma event_params_stamped:
  "event_params (JObj (AList.update ''ingestionTimestamp'' v d)) = event_params (JObj d)"
proof -
  have m: "k \<noteq> ''ingestionTimestamp'' \<Longrightarrow> map_of (AList.update ''ingestionTimestamp'' v d) k = map_of d k" for k
    by (simp add: update_conv')
  have i: "k \<noteq> ''ingestionTimestamp'' \<Longrightarrow> py_item k (JObj (AList.update ''ingestionTimestamp'' v d)) = py_item k (JObj d)" for k
    by (simp add: m)
  have g: "k \<noteq> ''ingestionTimestamp'' \<Longrightarrow> py_get k (JObj (AList.update ''ingestionTimestamp'' v d)) = py_get k (JObj d)" for k
    by (simp add: m dget_def)
  have r: "k \<noteq> ''ingestionTimestamp'' \<Longrightarrow> req_str k (JObj (AList.update ''ingestionTimestamp'' v d)) = req_str k (JObj d)" for k
    by (simp add: req_str_def i del: py_item_JObj)
  show ?thesis unfolding event_params_def by (simp add: i g r del: py_item_JObj py_get_JObj)
qed

section \<open>Validation of a batch\<close>

definition verdict :: "validator \<Rightarrow> pydatetime \<Rightarrow> json \<Rightarrow> string option" where
  \<comment> \<open>the error text of a refused event\<close>
  "verdict V now event = (case validate V now event of
     Inl (SchemaValidationError errors) \<Rightarrow> Some (join ''; '' errors) | _ \<Rightarrow> None)"

lemma validate_verdict:
  "validate V now (JObj d) = Inr () \<longleftrightarrow> verdict V now (JObj d) = None"
proof (cases "validate V now (JObj d)")
  case (Inl e)
  then show ?thesis using validate_errors[OF Inl] by (auto simp: verdict_def)
qed (simp add: verdict_def)

lemma validate_batch_dicts:
  "(\<forall>e \<in> set es. is_dict e) \<Longrightarrow> validate_batch V now es =
     Inr (map (\<lambda>e. (e, verdict V now e)) es, length (filter (\<lambda>e. verdict V now e \<noteq> None) es))"
proof (induction es)
  case (Cons e es)
  then obtain d where e: "e = JObj d" by (cases e) auto
  show ?case
  proof (cases "validate V now e")
    case (Inl x)
    then obtain errs where "x = SchemaValidationError errs" using validate_errors[of V now d x] e by blast
    then show ?thesis using Cons Inl by (simp add: verdict_def)
  next
    case (Inr u)
    then show ?thesis using Cons by (simp add: verdict_def)
  qed
qed simp

section \<open>Persisting\<close>

definition id_of_event :: "json \<Rightarrow> string" where
  "id_of_event e = (case py_get ''eventId'' e of Inr (JStr i) \<Rightarrow> i | _ \<Rightarrow> [])"

fun accepted_flags :: "string set \<Rightarrow> (json \<times> string option) list \<Rightarrow> bool list" where
  \<comment> \<open>what a batch should accept: the valid events whose id is new when their turn comes\<close>
  "accepted_flags known [] = []"
| "accepted_flags known ((e, Some m) # vs) = False # accepted_flags known vs"
| "accepted_flags known ((e, None) # vs) =
     (id_of_event e \<notin> known) # accepted_flags (insert (id_of_event e) known) vs"

definition valid_ids :: "(json \<times> string option) list \<Rightarrow> string set" where
  "valid_ids vs = {id_of_event e |e. (e, None) \<in> set vs}"

definition reportable :: "json \<Rightarrow> bool" where
  \<comment> \<open>the event's id fits the result model\<close>
  "reportable e = (\<exists>i. py_get ''eventId'' e = Inr i \<and> (is_str i \<or> i = JNull))"

lemma batch_result_reportable:
  "reportable e \<Longrightarrow> \<exists>r. batch_result e status err = Inr r \<and> br_status r = status \<and> br_error r = err"
  by (auto simp: reportable_def batch_result_def)

lemma batch_result_unreportable:
  "is_dict e \<Longrightarrow> \<not> reportable e \<Longrightarrow> batch_result e status err = Inl ModelValidationError"
  by (cases e) (auto simp: reportable_def batch_result_def)

lemma persist_batch_append:
  "persist_batch wr now st vs = (st', Inr rs) \<Longrightarrow> persist_batch wr now st (vs @ ws) =
    (let (st2, r) = persist_batch wr now st' ws in (st2, ebind r (\<lambda>xs. Inr (rs @ xs))))"
proof (induction vs arbitrary: st rs)
  case Nil
  then show ?case by (cases "persist_batch wr now st' ws"; cases "snd (persist_batch wr now st' ws)") auto
next
  case (Cons v vs)
  obtain e err where v: "v = (e, err)" by (cases v)
  obtain st1 r where r: "(case err of Some m \<Rightarrow> (st, batch_result e ''rejected'' (Some m))
      | None \<Rightarrow> persist_batch_event wr now st e) = (st1, r)" by (rule prod.exhaust)
  obtain x rs' where p: "r = Inr x" "persist_batch wr now st1 vs = (st', Inr rs')" "rs = x # rs'"
    using Cons.prems r unfolding v by (cases r) (auto simp: res_simps split: prod.splits)
  obtain st2 q where q: "persist_batch wr now st' ws = (st2, q)" by (rule prod.exhaust)
  show ?case using Cons.IH[OF p(2)] r p(1,3) q unfolding v by (cases q) simp_all
qed

lemma valid_ids_simps [simp]:
  "valid_ids [] = {}" "valid_ids ((e, Some m) # vs) = valid_ids vs"
  "valid_ids ((e, None) # vs) = insert (id_of_event e) (valid_ids vs)"
  by (auto simp: valid_ids_def)

lemma accepted_count_Cons: "accepted_count (r # rs) = (if br_status r = ''accepted'' then 1 else 0) + accepted_count rs"
  by (simp add: accepted_count_def)

definition writable_stamped :: "('s \<Rightarrow> json \<Rightarrow> string \<Rightarrow> bool) \<Rightarrow> 's \<Rightarrow> pydatetime \<Rightarrow> json \<Rightarrow> bool" where
  \<comment> \<open>the writer takes the stamped event under the event's id\<close>
  "writable_stamped writable s now e = (\<exists>e'. stamp now e = Inr e' \<and> writable s e' (id_of_event e) \<and>
     py_get ''eventId'' e = Inr (JStr (id_of_event e)))"

context event_writer begin

lemma writable_stamped_stable:
  "write_event s e' = Inr s' \<Longrightarrow> writable_stamped writable s' now e = writable_stamped writable s now e"
  by (simp add: writable_stamped_def writable_stable)

lemma write_stamped_cases:
  assumes "inv (i_store st)" "writable_stamped writable (i_store st) now e"
  shows "id_of_event e \<notin> ids (i_store st) \<Longrightarrow> \<exists>s' e'. write_event (i_store st) e' = Inr s' \<and>
      write_stamped write_event now st e = Inr \<lparr>i_store = s', i_count = i_count st + 1\<rparr> \<and>
      inv s' \<and> ids s' = insert (id_of_event e) (ids (i_store st))"
    and "id_of_event e \<in> ids (i_store st) \<Longrightarrow>
      write_stamped write_event now st e = Inl (DuplicateEventError (id_of_event e))"
proof -
  obtain e' where e: "stamp now e = Inr e'" "writable (i_store st) e' (id_of_event e)"
    using assms(2) by (auto simp: writable_stamped_def)
  show "\<exists>s' e'. write_event (i_store st) e' = Inr s' \<and>
      write_stamped write_event now st e = Inr \<lparr>i_store = s', i_count = i_count st + 1\<rparr> \<and>
      inv s' \<and> ids s' = insert (id_of_event e) (ids (i_store st))" if "id_of_event e \<notin> ids (i_store st)"
    using write_new[OF assms(1) e(2) that] e(1) by (auto simp: write_stamped_def)
  show "write_stamped write_event now st e = Inl (DuplicateEventError (id_of_event e))"
    if "id_of_event e \<in> ids (i_store st)"
    using write_duplicate[OF assms(1) e(2) that] e(1) by (simp add: write_stamped_def)
qed

lemma persist_batch_event_spec:
  assumes i: "inv (i_store st)" and w: "writable_stamped writable (i_store st) now e"
  shows "\<exists>st' r. persist_batch_event write_event now st e = (st', Inr r) \<and> inv (i_store st') \<and>
    ids (i_store st') = insert (id_of_event e) (ids (i_store st)) \<and>
    (br_status r = ''accepted'' \<longleftrightarrow> id_of_event e \<notin> ids (i_store st)) \<and>
    i_count st' = i_count st + (if br_status r = ''accepted'' then 1 else 0) \<and>
    (\<forall>x. writable_stamped writable (i_store st') now x = writable_stamped writable (i_store st) now x)"
proof -
  have rep: "reportable e" using w by (auto simp: writable_stamped_def reportable_def)
  show ?thesis
  proof (cases "id_of_event e \<in> ids (i_store st)")
    case True
    obtain r where r: "batch_result e ''rejected'' (Some (error_message (DuplicateEventError (id_of_event e)))) = Inr r"
      "br_status r = ''rejected''"
      using batch_result_reportable[OF rep] by blast
    then show ?thesis using write_stamped_cases(2)[OF i w True] True i
      by (auto simp: persist_batch_event_def insert_absorb)
  next
    case False
    obtain s' e' where s': "write_event (i_store st) e' = Inr s'"
      "write_stamped write_event now st e = Inr \<lparr>i_store = s', i_count = i_count st + 1\<rparr>"
      "inv s'" "ids s' = insert (id_of_event e) (ids (i_store st))"
      using write_stamped_cases(1)[OF i w False] by blast
    obtain r where "batch_result e ''accepted'' None = Inr r" "br_status r = ''accepted''"
      using batch_result_reportable[OF rep] by blast
    then show ?thesis using s' False writable_stamped_stable[OF s'(1)] by (auto simp: persist_batch_event_def)
  qed
qed

lemma persist_batch_spec:
  assumes "inv (i_store st)"
    "\<forall>e. (e, None) \<in> set vs \<longrightarrow> writable_stamped writable (i_store st) now e"
    "\<forall>e m. (e, Some m) \<in> set vs \<longrightarrow> reportable e"
  shows "\<exists>st' rs. persist_batch write_event now st vs = (st', Inr rs) \<and> inv (i_store st') \<and>
    ids (i_store st') = ids (i_store st) \<union> valid_ids vs \<and>
    map (\<lambda>r. br_status r = ''accepted'') rs = accepted_flags (ids (i_store st)) vs \<and>
    i_count st' = i_count st + accepted_count rs"
  using assms
proof (induction vs arbitrary: st)
  case (Cons v vs)
  obtain e err where v: "v = (e, err)" by (cases v)
  have rep: "\<forall>e m. (e, Some m) \<in> set vs \<longrightarrow> reportable e" using Cons.prems(3) by auto
  show ?case
  proof (cases err)
    case (Some m)
    obtain r where r: "batch_result e ''rejected'' (Some m) = Inr r" "br_status r = ''rejected''"
      using batch_result_reportable[of e "''rejected''" "Some m"] Cons.prems(3) v Some by auto
    obtain st' rs where IH: "persist_batch write_event now st vs = (st', Inr rs)" "inv (i_store st')"
      "ids (i_store st') = ids (i_store st) \<union> valid_ids vs"
      "map (\<lambda>r. br_status r = ''accepted'') rs = accepted_flags (ids (i_store st)) vs"
      "i_count st' = i_count st + accepted_count rs"
      using Cons.IH[OF Cons.prems(1) _ rep] Cons.prems(2) by auto
    show ?thesis using r IH v Some by (simp add: accepted_count_Cons)
  next
    case None
    have w: "writable_stamped writable (i_store st) now e" using Cons.prems(2) v None by simp
    obtain st1 r where r: "persist_batch_event write_event now st e = (st1, Inr r)" "inv (i_store st1)"
      "ids (i_store st1) = insert (id_of_event e) (ids (i_store st))"
      "br_status r = ''accepted'' \<longleftrightarrow> id_of_event e \<notin> ids (i_store st)"
      "i_count st1 = i_count st + (if br_status r = ''accepted'' then 1 else 0)"
      "\<And>x. writable_stamped writable (i_store st1) now x = writable_stamped writable (i_store st) now x"
      using persist_batch_event_spec[OF Cons.prems(1) w] by blast
    obtain st' rs where IH: "persist_batch write_event now st1 vs = (st', Inr rs)" "inv (i_store st')"
      "ids (i_store st') = ids (i_store st1) \<union> valid_ids vs"
      "map (\<lambda>r. br_status r = ''accepted'') rs = accepted_flags (ids (i_store st1)) vs"
      "i_count st' = i_count st1 + accepted_count rs"
      using Cons.IH[OF r(2) _ rep] Cons.prems(2) r(6) by auto
    show ?thesis using r(1,3,4,5) IH v None by (simp add: accepted_count_Cons)
  qed
qed (simp add: accepted_count_def)

end

section \<open>What ingestion keeps\<close>

text \<open>
  A property of the store that every write of a valid, stamped event keeps is kept by the
  handlers, whatever they answer.
\<close>

lemma write_stamped_keeps:
  assumes "write_stamped wr now st e = Inr st'" "P (i_store st)"
    "\<And>s e' s'. stamp now e = Inr e' \<Longrightarrow> wr s e' = Inr s' \<Longrightarrow> P s \<Longrightarrow> P s'"
  shows "P (i_store st')"
  using assms by (auto simp: write_stamped_def res_simps)

lemma ingest_event_keeps:
  assumes "P (i_store st)"
    "\<And>s e' s'. validate V now e = Inr () \<Longrightarrow> stamp now e = Inr e' \<Longrightarrow> wr s e' = Inr s' \<Longrightarrow> P s \<Longrightarrow> P s'"
  shows "P (i_store (fst (ingest_event wr V now rid st e)))"
proof (cases "ingest_one wr V now st e")
  case (Inl x)
  then show ?thesis using assms(1) by (cases x) (simp_all add: ingest_event_def)
next
  case (Inr st')
  then have v: "validate V now e = Inr ()" and w: "write_stamped wr now st e = Inr st'"
    by (auto simp: ingest_one_def res_simps)
  have "P (i_store st')"
    using write_stamped_keeps[where P = P, OF w assms(1)] assms(2)[OF v] by blast
  then show ?thesis by (simp add: ingest_event_def Inr)
qed

lemma persist_batch_event_keeps:
  assumes "P (i_store st)" "\<And>s e' s'. stamp now e = Inr e' \<Longrightarrow> wr s e' = Inr s' \<Longrightarrow> P s \<Longrightarrow> P s'"
  shows "P (i_store (fst (persist_batch_event wr now st e)))"
proof (cases "write_stamped wr now st e")
  case (Inl x)
  then show ?thesis using assms(1) by (cases x) (simp_all add: persist_batch_event_def)
next
  case (Inr st')
  then show ?thesis using write_stamped_keeps[where P = P, OF Inr assms(1)] assms(2)
    by (simp add: persist_batch_event_def)
qed

lemma persist_batch_keeps:
  assumes "P (i_store st)"
    "\<And>s e e' s'. (e, None) \<in> set vs \<Longrightarrow> stamp now e = Inr e' \<Longrightarrow> wr s e' = Inr s' \<Longrightarrow> P s \<Longrightarrow> P s'"
  shows "P (i_store (fst (persist_batch wr now st vs)))"
  using assms
proof (induction vs arbitrary: st)
  case (Cons v vs)
  obtain e err where v: "v = (e, err)" by (cases v)
  let ?r = "case err of Some m \<Rightarrow> (st, batch_result e ''rejected'' (Some m)) | None \<Rightarrow> persist_batch_event wr now st e"
  have 1: "P (i_store (fst ?r))"
    using Cons.prems persist_batch_event_keeps[where P = P and st = st and now = now and e = e and wr = wr] v by (cases err) auto
  have 2: "P (i_store (fst (persist_batch wr now (fst ?r) vs)))"
    using Cons.IH[OF 1] Cons.prems(2) by (meson list.set_intros(2))
  show ?case using 1 2 by (cases ?r) (auto simp: v Let_def split: sum.split prod.split)
qed simp

lemma validate_batch_in:
  "validate_batch V now es = Inr (vs, n) \<Longrightarrow> (e, None) \<in> set vs \<Longrightarrow> e \<in> set es \<and> validate V now e = Inr ()"
proof (induction es arbitrary: vs n)
  case (Cons x es)
  show ?case
  proof (cases "validate V now x")
    case (Inl y)
    then obtain errs ws k where "validate_batch V now es = Inr (ws, k)" "vs = (x, Some errs) # ws"
      using Cons.prems(1) by (cases y) (auto simp: res_simps)
    then show ?thesis using Cons.IH[of ws k] Cons.prems(2) by simp
  next
    case (Inr u)
    then obtain ws k where "validate_batch V now es = Inr (ws, k)" "vs = (x, None) # ws"
      using Cons.prems(1) by (auto simp: res_simps)
    then show ?thesis using Cons.IH[of ws k] Cons.prems(2) Inr by auto
  qed
qed simp

lemma ingest_events_batch_keeps:
  assumes "P (i_store st)"
    "\<And>s e e' s' es. py_iter (case map_of body ''events'' of None \<Rightarrow> JList [] | Some v \<Rightarrow> v) = Inr es \<Longrightarrow> e \<in> set es \<Longrightarrow>
       validate V now e = Inr () \<Longrightarrow> stamp now e = Inr e' \<Longrightarrow> wr s e' = Inr s' \<Longrightarrow> P s \<Longrightarrow> P s'"
  shows "P (i_store (fst (ingest_events_batch wr V now rid st body)))"
proof -
  let ?ev = "case map_of body ''events'' of None \<Rightarrow> JList [] | Some v \<Rightarrow> v"
  have k: "P (i_store (fst (persist_batch wr now st vs)))"
    if "ebind (py_iter ?ev) (validate_batch V now) = Inr (vs, n)" for vs n
  proof -
    obtain es where "py_iter ?ev = Inr es" "validate_batch V now es = Inr (vs, n)"
      using \<open>ebind (py_iter ?ev) (validate_batch V now) = Inr (vs, n)\<close> by (auto simp: res_simps)
    then show ?thesis using persist_batch_keeps[where P = P and st = st and vs = vs and now = now and wr = wr]
        assms validate_batch_in by metis
  qed
  show ?thesis
  proof (cases "py_len ?ev")
    case (Inl e)
    then show ?thesis using assms(1) by (simp add: ingest_events_batch_def)
  next
    case n: (Inr n)
    show ?thesis
    proof (cases "ebind (py_iter ?ev) (validate_batch V now)")
      case (Inl e)
      then show ?thesis using assms(1) n by (simp add: ingest_events_batch_def)
    next
      case (Inr vn)
      then obtain vs f where vn: "ebind (py_iter ?ev) (validate_batch V now) = Inr (vs, f)" by (cases vn) auto
      obtain st' rs where "persist_batch wr now st vs = (st', rs)" by (cases "persist_batch wr now st vs")
      then show ?thesis using assms(1) n vn k[OF vn] by (simp add: ingest_events_batch_def Let_def)
    qed
  qed
qed

section \<open>Writing to the graph store\<close>

lemma write_event_Inr:
  "write_event s e = Inr s' \<Longrightarrow> \<exists>tenant p t. event_params e = Inr (tenant, p) \<and>
     cypher_datetime (engine s) (p_eventTimestamp p) = Some t \<and>
     s' = s\<lparr>graph := write_result tenant p t (graph s)\<rparr>"
  by (auto simp: write_event_def write_params_event_def res_simps session_def set_graph_def WRITE_EVENT_Inr
      split: sum.splits if_splits py_error.splits)

lemma store_ok_write_event: "store_ok s \<Longrightarrow> write_event s e = Inr s' \<Longrightarrow> store_ok s'"
proof -
  assume s: "store_ok s" and w: "write_event s e = Inr s'"
  obtain tenant p where p: "event_params e = Inr (tenant, p)" "write_params_event s tenant p = Inr s'"
    using w by (auto simp: write_event_def res_simps)
  then show ?thesis using write_params_event_eq[OF s, of tenant p] store_ok_write[OF s]
    by (auto split: option.splits if_splits)
qed

lemma event_params_req: "event_params e = Inr (tenant, p) \<Longrightarrow> req_str ''tenantId'' e = Inr tenant"
  by (auto simp: event_params_def res_simps Let_def)

lemma req_str_JObj: "req_str k (JObj d) = Inr v \<Longrightarrow> map_of d k = Some (JStr v)"
  by (cases "map_of d k") (auto simp: req_str_def split: json.splits)

lemma event_params_tenant:
  "event_params (JObj d) = Inr (tenant, p) \<Longrightarrow> map_of d ''tenantId'' = Some (JStr tenant)"
  by (rule req_str_JObj) (rule event_params_req)

lemma view_write_event:
  assumes "write_event s e' = Inr s'" "stamp now (JObj d) = Inr e'" "map_of d ''tenantId'' = Some (JStr tenant)"
    "tenant \<noteq> other"
  shows "tenant_view other (graph s') = tenant_view other (graph s)"
proof -
  obtain t2 p t where w: "event_params e' = Inr (t2, p)" "s' = s\<lparr>graph := write_result t2 p t (graph s)\<rparr>"
    using write_event_Inr[OF assms(1)] by blast
  have "e' = JObj (AList.update ''ingestionTimestamp'' (JStr (isoformat_utc now)) d)" using assms(2) by simp
  then have "event_params (JObj d) = Inr (t2, p)" using w(1) event_params_stamped by metis
  then have "t2 = tenant" using event_params_tenant assms(3) by fastforce
  then show ?thesis using w(2) view_write_result[OF assms(4)] by simp
qed

end
