(* ===== verification/Identity.thy ===== *)
theory Identity
  imports StoreSpec
begin

text \<open>
  \<open>core/identity.py\<close>: exact matching of two application identities, and the link in the
  graph that it leads to.
\<close>

section \<open>Matching\<close>

record app_identity =
  native_user_id :: string
  application_id :: string
  user_id_type :: string

definition EXACT_EMAIL_MATCH :: string where
  "EXACT_EMAIL_MATCH = ''exact_email_match''"

definition EXACT_SSO_MATCH :: string where
  "EXACT_SSO_MATCH = ''exact_sso_match''"

definition EXACT_CONFIDENCE :: real where
  "EXACT_CONFIDENCE = 1"

definition MATCHABLE_TYPES :: "string list" where
  "MATCHABLE_TYPES = [''email'', ''sso_subject'']"

definition normalize_email :: "string \<Rightarrow> string" where
  "normalize_email email = str_lower (strip email)"

definition match_method :: "app_identity \<Rightarrow> app_identity \<Rightarrow> string option" where
  "match_method a b =
     (if user_id_type a \<noteq> user_id_type b then None
      else if user_id_type a \<notin> set MATCHABLE_TYPES then None
      else if user_id_type a = ''email'' then
        (if normalize_email (native_user_id a) = normalize_email (native_user_id b)
         then Some EXACT_EMAIL_MATCH else None)
      else if native_user_id a = native_user_id b then Some EXACT_SSO_MATCH
      else None)"

definition resolve :: "store \<Rightarrow> string \<Rightarrow> string \<Rightarrow> py_error + string option" where
  "resolve s tenant user = get_canonical_user_id s tenant user"

definition attempt_link ::
  "store \<Rightarrow> string \<Rightarrow> app_identity \<Rightarrow> app_identity \<Rightarrow> py_error + store \<times> bool" where
  "attempt_link s tenant a b = (case match_method a b of
     None \<Rightarrow> Inr (s, False)
   | Some method \<Rightarrow> ebind (link_identities s tenant (native_user_id a) (application_id a)
         (native_user_id b) (application_id b) method EXACT_CONFIDENCE) (\<lambda>s'. Inr (s', True)))"

section \<open>Matching is a partial equivalence\<close>

lemma normalize_email_idem: "normalize_email (normalize_email e) = normalize_email e"
  by (simp add: normalize_email_def flip: str_lower_strip)

definition strong_id :: "app_identity \<Rightarrow> (string \<times> string) option" where
  \<comment> \<open>what two identities have in common when they match: the type with the compared text\<close>
  "strong_id a = (if user_id_type a = ''email'' then Some (''email'', normalize_email (native_user_id a))
     else if user_id_type a = ''sso_subject'' then Some (''sso_subject'', native_user_id a) else None)"

lemma match_method_strong_id:
  "match_method a b \<noteq> None \<longleftrightarrow> strong_id a \<noteq> None \<and> strong_id a = strong_id b"
  by (simp add: match_method_def strong_id_def MATCHABLE_TYPES_def)

lemma match_method_same_type: "match_method a b = Some m \<Longrightarrow>
    m = (if user_id_type a = ''email'' then EXACT_EMAIL_MATCH else EXACT_SSO_MATCH)"
  by (auto simp: match_method_def split: if_splits)

section \<open>The link\<close>

definition identity_key :: "string \<Rightarrow> app_identity \<Rightarrow> user_ref" where
  "identity_key tenant a = (tenant, application_id a, native_user_id a)"

lemma attempt_link_Inr:
  assumes "online s"
  shows "attempt_link s tenant a b = Inr (case match_method a b of None \<Rightarrow> (s, False)
    | Some m \<Rightarrow> (s\<lparr>graph := LINK_IDENTITIES (clock s) tenant (native_user_id a) (application_id a)
        (native_user_id b) (application_id b) m 1 (graph s)\<rparr>, True))"
  using assms by (simp add: attempt_link_def link_identities_def EXACT_CONFIDENCE_def split: option.split)

lemma find_user_ex: "k \<in> user_key ` set us \<Longrightarrow> \<exists>u. find (\<lambda>u. user_key u = k) us = Some u"
  using find_key_None[of user_key k us] by (cases "find (\<lambda>u. user_key u = k) us") auto

lemma link_canonical:
  assumes "(tenant, appA, userA) \<in> user_key ` set (users g)" "(tenant, appB, userB) \<in> user_key ` set (users g)"
  shows "\<exists>c. (\<forall>u \<in> set (users (LINK_IDENTITIES now tenant userA appA userB appB method confidence g)).
      user_key u \<in> {(tenant, appA, userA), (tenant, appB, userB)} \<longrightarrow> u_canonicalUserId u = Some c)"
proof -
  let ?ka = "(tenant, appA, userA)" and ?kb = "(tenant, appB, userB)"
  obtain a b where f: "find (\<lambda>u. user_key u = ?ka) (users g) = Some a"
    "find (\<lambda>u. user_key u = ?kb) (users g) = Some b"
    using find_user_ex assms by metis
  let ?c = "coalesce (u_canonicalUserId a) (coalesce (u_canonicalUserId b) (Some (u_nativeUserId a)))"
  obtain c where c: "?c = Some c"
    by (cases "u_canonicalUserId a"; cases "u_canonicalUserId b") (auto simp: coalesce_def)
  have "users (LINK_IDENTITIES now tenant userA appA userB appB method confidence g)
      = map (set_canonical [?ka, ?kb] (Some c)) (users g)"
    using f c by (simp add: LINK_IDENTITIES_def Let_def)
  then show ?thesis by (auto simp: set_canonical_def intro!: exI[of _ c])
qed

lemma link_performed [simp]:
  "performed (LINK_IDENTITIES now tenant userA appA userB appB method confidence g) = performed g"
  "objects (LINK_IDENTITIES now tenant userA appA userB appB method confidence g) = objects g"
  "ddl (LINK_IDENTITIES now tenant userA appA userB appB method confidence g) = ddl g"
  by (auto simp: LINK_IDENTITIES_def Let_def split: option.splits)

lemma link_user_keys [simp]:
  "map user_key (users (LINK_IDENTITIES now tenant userA appA userB appB method confidence g))
     = map user_key (users g)"
  by (auto simp: LINK_IDENTITIES_def Let_def split: option.splits)

lemma edge_row:
  assumes wf: "wf_graph g" and r: "r \<in> set (performed g)" and u: "u \<in> set (users g)"
    "r_user r = user_key u" and P: "P u" and t: "since now days (r_eventTimestamp r)"
  shows "r_eventId r \<in> h_eventId ` set (history_rows g now days P)"
proof -
  have "r_object r \<in> object_key ` set (objects g)"
    using wf_graphD(6)[OF wf r] by (simp add: edge_ok_def)
  then obtain ob where "ob \<in> set (objects g)" "object_key ob = r_object r" by auto
  then have "(u, r, ob) \<in> set (edges_of g P)" using r u P by (simp add: in_edges_of)
  with t have "history_row_of u r ob \<in> set (history_rows g now days P)"
    by (auto simp: history_rows_def image_iff intro!: bexI[of _ "(u, r, ob)"])
  then have "h_eventId (history_row_of u r ob) \<in> h_eventId ` set (history_rows g now days P)"
    by (rule imageI)
  then show ?thesis by simp
qed

section \<open>Properties\<close>

text \<open>
  C15: two identities match exactly when both have a strong identifier (an email, compared
  without case and surrounding space, or an SSO subject, compared as it is) and it is the same;
  so matching is symmetric and transitive.
\<close>

theorem match_is_equal_strong_id:
  "(match_method a b \<noteq> None \<longleftrightarrow> strong_id a \<noteq> None \<and> strong_id a = strong_id b) \<and>
   match_method a b = match_method b a \<and>
   (match_method a b \<noteq> None \<longrightarrow> match_method b c \<noteq> None \<longrightarrow> match_method a c = match_method a b)"
proof (intro conjI impI)
  show s: "match_method a b = match_method b a"
    by (cases "user_id_type a = user_id_type b") (simp_all add: match_method_def eq_commute)
  assume "match_method a b \<noteq> None" "match_method b c \<noteq> None"
  then have "match_method a c \<noteq> None" unfolding match_method_strong_id by metis
  then obtain m m' where "match_method a c = Some m" "match_method a b = Some m'"
    using \<open>match_method a b \<noteq> None\<close> by blast
  then show "match_method a c = match_method a b" using match_method_same_type by metis
qed (rule match_method_strong_id)

theorem match_is_equal_strong_id_witness:
  "match_method \<lparr>native_user_id = '' Ann@x.org'', application_id = ''jira'', user_id_type = ''email''\<rparr>
     \<lparr>native_user_id = ''ann@X.org '', application_id = ''sap'', user_id_type = ''email''\<rparr> \<noteq> None"
proof -
  let ?a = "\<lparr>native_user_id = '' Ann@x.org'', application_id = ''jira'', user_id_type = ''email''\<rparr>"
  let ?b = "\<lparr>native_user_id = ''ann@X.org '', application_id = ''sap'', user_id_type = ''email''\<rparr>"
  have "strong_id ?a \<noteq> None \<and> strong_id ?a = strong_id ?b" by code_simp
  then show ?thesis using match_is_equal_strong_id[of ?a ?b ?b] by blast
qed

end
