(* ===== verification/App.thy ===== *)
theory App
  imports Routes RateLimit TenantGuard EventsApi Identity
begin

text \<open>
  \<open>api/app.py\<close>: the application around the handlers. A request gets its id, is counted by
  the rate limiter, checked against its tenant header, routed, and what a handler raises becomes
  a structured error response. The framework's parsing of the intent body is a parameter.
\<close>

section \<open>State and responses\<close>

record app =
  a_ingest :: "store ingest"
  a_counts :: counts
  a_resolved :: nat  \<comment> \<open>\<open>resolve_intent_total\<close>\<close>

datatype payload =
    JsonPayload json
  | IntentPayload intent_response
  | ProfilePayload profile_response
  | UsersPayload "string list"
  | EventsPayload events_page

record app_config =
  c_settings :: settings
  c_validator :: validator
  c_generator :: generator
  c_parse_intent :: "body \<Rightarrow> intent_request option"  \<comment> \<open>\<open>None\<close>: the framework raises \<open>RequestValidationError\<close>\<close>
  c_unrouted :: "request \<Rightarrow> payload response"
    \<comment> \<open>what the framework answers where no handler is: 404, 405, a redirect, CORS, \<open>/metrics\<close>\<close>

section \<open>Dependencies\<close>

text \<open>\<open>api/dependencies.py\<close>: what the handlers are given, read from the application.\<close>

definition get_settings :: "app_config \<Rightarrow> settings" where
  [simp]: "get_settings C = c_settings C"

definition get_graph_store :: "app \<Rightarrow> store" where
  "get_graph_store a = i_store (a_ingest a)"

abbreviation the_store :: "app \<Rightarrow> store" where
  "the_store \<equiv> get_graph_store"

lemmas the_store_def = get_graph_store_def

definition get_schema_validator :: "app_config \<Rightarrow> validator" where
  [simp]: "get_schema_validator C = c_validator C"

definition get_profile_generator :: "app_config \<Rightarrow> user_patterns \<Rightarrow> py_error + string" where
  [simp]: "get_profile_generator C = generate (c_generator C)"

definition ok_payload :: "payload \<Rightarrow> payload response" where
  "ok_payload p = \<lparr>rs_status = 200, rs_content = p, rs_headers = []\<rparr>"

definition as_payload :: "json response \<Rightarrow> payload response" where
  "as_payload r = \<lparr>rs_status = rs_status r, rs_content = JsonPayload (rs_content r), rs_headers = rs_headers r\<rparr>"

section \<open>Exception handlers\<close>

definition error_content :: "string \<Rightarrow> string \<Rightarrow> string \<Rightarrow> json" where
  \<comment> \<open>\<open>_error_content\<close>: the body of \<open>ErrorResponse\<close>\<close>
  [simp]: "error_content err detail request_id = error_body err detail request_id"

definition internal_error :: "string \<Rightarrow> json response" where
  "internal_error request_id =
     json_response 500 (error_content ''internal_error'' ''an unexpected error occurred'' request_id)"

definition insufficient_detail :: "int \<Rightarrow> string" where
  "insufficient_detail minimum = ''User has fewer than '' @ show_int minimum @
     '' events. Profile generation requires at least '' @ show_int minimum @ '' events.''"

definition handled_error :: "string \<Rightarrow> py_error \<Rightarrow> json response option" where
  \<comment> \<open>the handlers registered for one kind of exception\<close>
  "handled_error request_id e = (case e of
     RequestValidationError errors \<Rightarrow>
       Some (json_response 400 (error_content ''validation_error'' errors request_id))
   | InsufficientDataError u n minimum \<Rightarrow>
       Some (json_response 404 (error_content ''insufficient_data'' (insufficient_detail minimum) request_id))
   | ServiceUnavailable \<Rightarrow>
       Some ((json_response 503 (error_content ''service_unavailable'' ''graph database is unreachable'' request_id))
              \<lparr>rs_headers := [(''Retry-After'', ''5'')]\<rparr>)
   | HTTPException status detail \<Rightarrow> Some (json_response status (JObj [(''detail'', JStr detail)]))
   | _ \<Rightarrow> None)"

definition with_request_id :: "string \<Rightarrow> payload response \<Rightarrow> payload response" where
  "with_request_id request_id r = r\<lparr>rs_headers := rs_headers r @ [(''X-Request-Id'', request_id)]\<rparr>"

section \<open>Routing\<close>

definition user_route :: "string \<Rightarrow> string \<Rightarrow> string \<Rightarrow> string option" where
  \<comment> \<open>the user id in \<open>/prefix/{user_id}/suffix\<close>\<close>
  "user_route prefix suffix path = (case rev (split_on (CHR ''/'') path) of
     s # u # rest \<Rightarrow> if s = suffix \<and> u \<noteq> [] \<and> join ''/'' (rev rest) = prefix then Some u else None
   | _ \<Rightarrow> None)"

definition required_tenant :: "request \<Rightarrow> py_error + string" where
  "required_tenant req = (case rq_tenant req of
     None \<Rightarrow> Inl (RequestValidationError ''header.X-Tenant-Id: Field required'') | Some t \<Rightarrow> Inr t)"

definition dict_body :: "body \<Rightarrow> py_error + (string \<times> json) list" where
  \<comment> \<open>\<open>dict[str, Any] = Body(...)\<close>\<close>
  "dict_body b = (case b of
     Body (JObj d) \<Rightarrow> Inr d
   | NotUtf8 \<Rightarrow> Inl (HTTPException 400 ''There was an error parsing the body'')
   | _ \<Rightarrow> Inl (RequestValidationError ''body''))"

definition post_event ::
  "app_config \<Rightarrow> pydatetime \<Rightarrow> request \<Rightarrow> app \<Rightarrow> app \<times> (py_error + payload response)" where
  "post_event C now req a = (case dict_body (rq_body req) of
     Inl e \<Rightarrow> (a, Inl e)
   | Inr d \<Rightarrow> (let (i, r) = ingest_event write_event (get_schema_validator C) now (rq_id req) (a_ingest a) (JObj d)
              in (a\<lparr>a_ingest := i\<rparr>, ebind r (\<lambda>x. Inr (as_payload x)))))"

definition post_batch ::
  "app_config \<Rightarrow> pydatetime \<Rightarrow> request \<Rightarrow> app \<Rightarrow> app \<times> (py_error + payload response)" where
  "post_batch C now req a = (case dict_body (rq_body req) of
     Inl e \<Rightarrow> (a, Inl e)
   | Inr d \<Rightarrow> (let (i, r) = ingest_events_batch write_event (get_schema_validator C) now (rq_id req) (a_ingest a) d
              in (a\<lparr>a_ingest := i\<rparr>, ebind r (\<lambda>x. Inr (as_payload x)))))"

definition post_intent ::
  "app_config \<Rightarrow> pydatetime \<Rightarrow> request \<Rightarrow> app \<Rightarrow> app \<times> (py_error + payload response)" where
  "post_intent C now req a = (case c_parse_intent C (rq_body req) of
     None \<Rightarrow> (a, Inl (RequestValidationError ''body''))
   | Some b \<Rightarrow> (a\<lparr>a_resolved := a_resolved a + 1\<rparr>,
       ebind (resolve_intent (\<lambda>t u d. get_user_history (the_store a) t u d None)
           (get_canonical_user_id (the_store a)) (get_cross_app_history (the_store a))
           DEFAULT_MAPPINGS (get_settings C) now b)
         (\<lambda>r. Inr (ok_payload (IntentPayload r)))))"

definition get_profile_handler ::
  "app_config \<Rightarrow> pydatetime \<Rightarrow> request \<Rightarrow> string \<Rightarrow> app \<Rightarrow> py_error + payload response" where
  "get_profile_handler C now req user a = ebind (required_tenant req) (\<lambda>tenant.
     ebind (profile_route (\<lambda>t u d. get_user_history (the_store a) t u d None)
         (get_user_event_count (the_store a)) (get_user_profile (the_store a))
         (get_profile_generator C) (get_settings C) now user tenant)
       (\<lambda>r. Inr (ok_payload (ProfilePayload r))))"

definition get_admin_users :: "request \<Rightarrow> app \<Rightarrow> py_error + payload response" where
  "get_admin_users req a = ebind (required_tenant req) (\<lambda>tenant.
     ebind (list_users (get_active_users (the_store a)) tenant (rq_days req))
       (\<lambda>us. Inr (ok_payload (UsersPayload us))))"

definition get_admin_events :: "request \<Rightarrow> string \<Rightarrow> app \<Rightarrow> py_error + payload response" where
  "get_admin_events req user a = ebind (required_tenant req) (\<lambda>tenant.
     ebind (list_user_events (get_user_history (the_store a)) user tenant (rq_days req) (rq_limit req))
       (\<lambda>p. Inr (ok_payload (EventsPayload p))))"

definition route ::
  "app_config \<Rightarrow> pydatetime \<Rightarrow> request \<Rightarrow> app \<Rightarrow> app \<times> (py_error + payload response)" where
  "route C now req a =
     (let m = rq_method req; p = rq_path req
      in if m = ''POST'' \<and> p = ''/v1/events'' then post_event C now req a
         else if m = ''POST'' \<and> p = BATCH_PATH then post_batch C now req a
         else if m = ''POST'' \<and> p = ''/v1/resolve-intent'' then post_intent C now req a
         else if m = ''GET'' \<and> p = ''/healthz'' then (a, Inr (as_payload liveness))
         else if m = ''GET'' \<and> p = ''/readyz'' then
           (a, Inr (as_payload (readiness (verify_connectivity (the_store a)))))
         else if m = ''GET'' \<and> p = ''/v1/admin/users'' then (a, get_admin_users req a)
         else (case (user_route ''/v1/users'' ''profile'' p, user_route ''/v1/admin/users'' ''events'' p) of
             (Some u, _) \<Rightarrow> if m = ''GET'' then (a, get_profile_handler C now req u a) else (a, Inr (c_unrouted C req))
           | (None, Some u) \<Rightarrow> if m = ''GET'' then (a, get_admin_events req u a) else (a, Inr (c_unrouted C req))
           | (None, None) \<Rightarrow> (a, Inr (c_unrouted C req))))"

section \<open>The whole request\<close>

definition app_limits :: "app_config \<Rightarrow> limits" where
  "app_limits C = \<lparr>events_limit = events_rate_limit_per_minute (c_settings C),
     intent_limit = intent_rate_limit_per_minute (c_settings C)\<rparr>"

definition answer :: "request \<Rightarrow> app \<times> (py_error + payload response) \<Rightarrow> app \<times> payload response" where
  \<comment> \<open>an exception without a handler of its own passes the request-id middleware and is answered
    outside it\<close>
  "answer req ar = (case ar of
     (a, Inr r) \<Rightarrow> (a, with_request_id (rq_id req) r)
   | (a, Inl e) \<Rightarrow> (case handled_error (rq_id req) e of
       Some r \<Rightarrow> (a, with_request_id (rq_id req) (as_payload r))
     | None \<Rightarrow> (a, as_payload (internal_error (rq_id req)))))"

definition serve :: "app_config \<Rightarrow> pydatetime \<Rightarrow> request \<Rightarrow> app \<Rightarrow> app \<times> payload response" where
  "serve C now req a =
     (case rate_limit (app_limits C) (dt_instant now) req (a_counts a) of
        Inl e \<Rightarrow> (a, as_payload (internal_error (rq_id req)))
      | Inr (c, Some r) \<Rightarrow> (a\<lparr>a_counts := c\<rparr>, with_request_id (rq_id req) (as_payload r))
      | Inr (c, None) \<Rightarrow>
          (case tenant_check req of
             Inl e \<Rightarrow> (a\<lparr>a_counts := c\<rparr>, as_payload (internal_error (rq_id req)))
           | Inr (Some r) \<Rightarrow> (a\<lparr>a_counts := c\<rparr>, with_request_id (rq_id req) (as_payload r))
           | Inr None \<Rightarrow> answer req (route C now req (a\<lparr>a_counts := c\<rparr>))))"

definition startup :: "settings \<Rightarrow> validator \<Rightarrow> (body \<Rightarrow> intent_request option) \<Rightarrow>
    (request \<Rightarrow> payload response) \<Rightarrow> store \<Rightarrow> py_error + app_config \<times> app" where
  \<comment> \<open>\<open>_startup\<close>: the schema statements run before the first request\<close>
  "startup cfg V parse unrouted s = ebind (initialize s) (\<lambda>s'.
     ebind (build_profile_generator (profile_generator_backend cfg)) (\<lambda>g.
     Inr (\<lparr>c_settings = cfg, c_validator = V\<lparr>max_future_seconds := settings_max_future_seconds cfg\<rparr>,
            c_generator = g, c_parse_intent = parse, c_unrouted = unrouted\<rparr>,
          \<lparr>a_ingest = \<lparr>i_store = s', i_count = 0\<rparr>, a_counts = [], a_resolved = 0\<rparr>)))"

section \<open>What a request keeps\<close>

definition submitted :: "request \<Rightarrow> json \<Rightarrow> bool" where
  \<comment> \<open>the event is the body of a single ingestion or an element of a batch\<close>
  "submitted req e = (\<exists>d. rq_body req = Body (JObj d) \<and>
     (rq_path req = ''/v1/events'' \<and> e = JObj d \<or>
      rq_path req = BATCH_PATH \<and>
        (\<exists>es. py_iter (case map_of d ''events'' of None \<Rightarrow> JList [] | Some v \<Rightarrow> v) = Inr es \<and> e \<in> set es)))"

lemma dict_body_Inr: "dict_body b = Inr d \<longleftrightarrow> b = Body (JObj d)"
  by (auto simp: dict_body_def split: body.splits json.splits)

lemma the_store_simps [simp]:
  "the_store (a\<lparr>a_counts := c\<rparr>) = the_store a" "the_store (a\<lparr>a_resolved := n\<rparr>) = the_store a"
  "the_store (a\<lparr>a_ingest := i\<rparr>) = i_store i"
  by (simp_all add: the_store_def)

lemma fst_answer [simp]: "fst (answer req ar) = fst ar"
  by (cases ar; cases "snd ar") (auto simp: answer_def split: option.split)

lemma post_event_keeps:
  assumes "P (the_store a)" "rq_path req = ''/v1/events''"
    "\<And>e s e' s'. submitted req e \<Longrightarrow> validate (c_validator C) now e = Inr () \<Longrightarrow> stamp now e = Inr e' \<Longrightarrow>
       write_event s e' = Inr s' \<Longrightarrow> P s \<Longrightarrow> P s'"
  shows "P (the_store (fst (post_event C now req a)))"
proof (cases "dict_body (rq_body req)")
  case (Inl e)
  then show ?thesis using assms(1) by (simp add: post_event_def)
next
  case (Inr d)
  then have "submitted req (JObj d)" using assms(2) by (simp add: submitted_def dict_body_Inr)
  then have "P (i_store (fst (ingest_event write_event (c_validator C) now (rq_id req) (a_ingest a) (JObj d))))"
    using assms(1) assms(3)[OF \<open>submitted req (JObj d)\<close>]
    by (intro ingest_event_keeps[where P = P]) (simp_all only: the_store_def)
  then show ?thesis using Inr by (simp add: post_event_def split_beta)
qed

lemma post_batch_keeps:
  assumes "P (the_store a)" "rq_path req = BATCH_PATH"
    "\<And>e s e' s'. submitted req e \<Longrightarrow> validate (c_validator C) now e = Inr () \<Longrightarrow> stamp now e = Inr e' \<Longrightarrow>
       write_event s e' = Inr s' \<Longrightarrow> P s \<Longrightarrow> P s'"
  shows "P (the_store (fst (post_batch C now req a)))"
proof (cases "dict_body (rq_body req)")
  case (Inl e)
  then show ?thesis using assms(1) by (simp add: post_batch_def)
next
  case (Inr d)
  have "P (i_store (fst (ingest_events_batch write_event (c_validator C) now (rq_id req) (a_ingest a) d)))"
  proof (rule ingest_events_batch_keeps)
    show "P (i_store (a_ingest a))" using assms(1) by (simp add: the_store_def)
    fix s e e' s' es
    assume "py_iter (case map_of d ''events'' of None \<Rightarrow> JList [] | Some v \<Rightarrow> v) = Inr es" "e \<in> set es"
    then have "submitted req e" using Inr assms(2) by (auto simp: submitted_def dict_body_Inr)
    then show "validate (c_validator C) now e = Inr () \<Longrightarrow> stamp now e = Inr e' \<Longrightarrow> write_event s e' = Inr s' \<Longrightarrow>
      P s \<Longrightarrow> P s'" by (rule assms(3))
  qed
  then show ?thesis using Inr by (simp add: post_batch_def split_beta)
qed

lemma the_store_intent [simp]: "the_store (fst (post_intent C now req a)) = the_store a"
  by (simp add: post_intent_def split: option.split)

lemma route_keeps:
  assumes "P (the_store a)"
    "\<And>e s e' s'. submitted req e \<Longrightarrow> validate (c_validator C) now e = Inr () \<Longrightarrow> stamp now e = Inr e' \<Longrightarrow>
       write_event s e' = Inr s' \<Longrightarrow> P s \<Longrightarrow> P s'"
  shows "P (the_store (fst (route C now req a)))"
proof -
  consider "rq_method req = ''POST'' \<and> rq_path req = ''/v1/events''" |
    "rq_method req = ''POST'' \<and> rq_path req = BATCH_PATH" |
    "\<not> (rq_method req = ''POST'' \<and> rq_path req = ''/v1/events'')"
    "\<not> (rq_method req = ''POST'' \<and> rq_path req = BATCH_PATH)" by blast
  then show ?thesis
  proof cases
    case 1
    then have "route C now req a = post_event C now req a" by (simp add: route_def Let_def)
    then show ?thesis using post_event_keeps[where P = P, OF assms(1) _ assms(2)] 1 by simp
  next
    case 2
    then have "route C now req a = post_batch C now req a" by (simp add: route_def Let_def BATCH_PATH_def)
    then show ?thesis using post_batch_keeps[where P = P, OF assms(1) _ assms(2)] 2 by simp
  next
    case 3
    have "the_store (fst (route C now req a)) = the_store a"
      unfolding route_def Let_def by (simp only: 3 if_False) (simp split: option.split)
    then show ?thesis using assms(1) by simp
  qed
qed

lemma serve_keeps:
  assumes "P (the_store a)"
    "\<And>e s e' s'. tenant_check req = Inr None \<Longrightarrow> submitted req e \<Longrightarrow> validate (c_validator C) now e = Inr () \<Longrightarrow>
       stamp now e = Inr e' \<Longrightarrow> write_event s e' = Inr s' \<Longrightarrow> P s \<Longrightarrow> P s'"
  shows "P (the_store (fst (serve C now req a)))"
proof -
  have r: "P (the_store (fst (route C now req (a\<lparr>a_counts := c\<rparr>))))" if t: "tenant_check req = Inr None" for c
    by (rule route_keeps) (use assms(1) assms(2)[OF t] in auto)
  show ?thesis
  proof (cases "rate_limit (app_limits C) (dt_instant now) req (a_counts a)")
    case (Inl e)
    then show ?thesis using assms(1) by (simp add: serve_def)
  next
    case (Inr cr)
    then obtain c rr where cr: "rate_limit (app_limits C) (dt_instant now) req (a_counts a) = Inr (c, rr)"
      by (cases cr) auto
    show ?thesis
    proof (cases rr)
      case (Some x)
      then show ?thesis using assms(1) cr by (simp add: serve_def)
    next
      case None
      show ?thesis
      proof (cases "tenant_check req")
        case (Inl e)
        then show ?thesis using assms(1) cr None by (simp add: serve_def)
      next
        case (Inr o')
        then show ?thesis using assms(1) cr None r by (cases o') (simp_all add: serve_def)
      qed
    qed
  qed
qed

lemma serve_store_ok: "store_ok (the_store a) \<Longrightarrow> store_ok (the_store (fst (serve C now req a)))"
  by (rule serve_keeps) (auto intro: store_ok_write_event)

text \<open>A valid event names its tenant, and a request that passes the guard names the header's.\<close>

lemma valid_event_tenant:
  assumes "valid event_schema e"
  shows "\<exists>d t. e = JObj d \<and> map_of d ''tenantId'' = Some (JStr t) \<and> t \<noteq> []"
proof -
  obtain d where d: "e = JObj d" using valid_is_object assms unfolding event_schema_def by blast
  note v = assms[unfolded event_schema_def d]
  have "valid [TypeIs [''string''], PatternPlus tenant_chars, MinLength 1] j \<Longrightarrow> \<exists>t. j = JStr t \<and> t \<noteq> []" for j
    by (cases j) (auto simp: valid_def json_type_def)
  then show ?thesis
    using valid_required[OF v, of "''tenantId''" "[TypeIs [''string''], PatternPlus tenant_chars, MinLength 1]"] d
    by (auto simp: event_required_def)
qed

lemma guarded_tenant:
  assumes "tenant_check req = Inr None" "rq_tenant req = Some h" "submitted req (JObj e)"
    "map_of e ''tenantId'' = Some (JStr t)" "t \<noteq> []"
  shows "t = h"
proof -
  obtain d where b: "rq_body req = Body (JObj d)" using assms(3) by (auto simp: submitted_def)
  consider "rq_path req = ''/v1/events''" "e = d" | es where "rq_path req = BATCH_PATH"
    "py_iter (case map_of d ''events'' of None \<Rightarrow> JList [] | Some v \<Rightarrow> v) = Inr es" "JObj e \<in> set es"
    using assms(3) b by (auto simp: submitted_def)
  then show ?thesis
  proof cases
    case 1
    then show ?thesis using passed_single[OF assms(1,2) 1(1) b] assms(4,5) by simp
  next
    case (2 es)
    have "map_of d ''events'' = Some (JList es)"
      using 2(2,3) by (auto simp: py_iter_def split: option.splits json.splits)
    then show ?thesis using passed_batch[OF assms(1,2) 2(1) b _ 2(3) assms(4)] by simp
  qed
qed

lemma serve_view:
  assumes V: "validator_ok (c_validator C)" and h: "rq_tenant req = Some h" "h \<noteq> other"
  shows "tenant_view other (graph (the_store (fst (serve C now req a)))) = tenant_view other (graph (the_store a))"
proof (rule serve_keeps[where P = "\<lambda>s. tenant_view other (graph s) = tenant_view other (graph (the_store a))"])
  fix e s e' s'
  assume g: "tenant_check req = Inr None" "submitted req e" "validate (c_validator C) now e = Inr ()"
    and w: "stamp now e = Inr e'" "write_event s e' = Inr s'"
    and P: "tenant_view other (graph s) = tenant_view other (graph (the_store a))"
  obtain d t where d: "e = JObj d" "map_of d ''tenantId'' = Some (JStr t)" "t \<noteq> []"
    using valid_event_tenant[OF validate_valid[OF V g(3)]] by blast
  have "t = h" using guarded_tenant[OF g(1) h(1) _ d(2,3)] g(2) d(1) by simp
  then show "tenant_view other (graph s') = tenant_view other (graph (the_store a))"
    using view_write_event[OF w(2) _ d(2)] w(1) d(1) h(2) P by simp
qed simp

end
