(* ===== verification/Scheduler.thy ===== *)
theory Scheduler
  imports Template StoreSpec Routes
begin

text \<open>
  \<open>profiler/scheduler.py\<close>: one profiling pass over the active users of a tenant. A pass
  that fails in the middle keeps the profiles it has stored, so its result carries the state
  beside the error. The detector reads the wall clock once a user: \<open>now user\<close>.
\<close>

section \<open>The pass\<close>

record 's profiling =
  g_user_history :: "'s \<Rightarrow> string \<Rightarrow> string \<Rightarrow> int \<Rightarrow> py_error + history_row list"
  g_event_count :: "'s \<Rightarrow> string \<Rightarrow> string \<Rightarrow> py_error + nat"
  g_active_users :: "'s \<Rightarrow> string \<Rightarrow> int \<Rightarrow> py_error + string list"
  g_update_profile :: "'s \<Rightarrow> string \<Rightarrow> string \<Rightarrow> string \<Rightarrow> int \<Rightarrow> py_error + 's"
  g_get_profile :: "'s \<Rightarrow> string \<Rightarrow> string \<Rightarrow> py_error + stored_profile option"

definition ACTIVE_WINDOW_DAYS :: int where
  "ACTIVE_WINDOW_DAYS = 7"

definition next_version :: "'s profiling \<Rightarrow> 's \<Rightarrow> string \<Rightarrow> string \<Rightarrow> py_error + int" where
  "next_version G s tenant user = ebind (g_get_profile G s tenant user) (\<lambda>existing.
     let current = (case existing of None \<Rightarrow> None | Some p \<Rightarrow> profileVersion p)
     in Inr ((case current of None \<Rightarrow> 0 | Some v \<Rightarrow> v) + 1))"

definition generate_for_user ::
  "'s profiling \<Rightarrow> (user_patterns \<Rightarrow> py_error + string) \<Rightarrow> int \<Rightarrow> (string \<Rightarrow> pydatetime) \<Rightarrow> 's \<Rightarrow>
   string \<Rightarrow> string \<Rightarrow> 's \<times> (py_error + bool)" where
  "generate_for_user G gen min_events now s tenant user =
     (case detect (g_user_history G s) (g_event_count G s) (now user) tenant user of
        Inl e \<Rightarrow> (s, Inl e)
      | Inr patterns \<Rightarrow>
          if int (up_total_events patterns) < min_events then (s, Inr False)
          else (case gen patterns of
                  Inl e \<Rightarrow> (s, Inl e)
                | Inr profile_text \<Rightarrow> (case next_version G s tenant user of
                    Inl e \<Rightarrow> (s, Inl e)
                  | Inr version \<Rightarrow> (case g_update_profile G s tenant user profile_text version of
                      Inl e \<Rightarrow> (s, Inl e)
                    | Inr s' \<Rightarrow> (s', Inr True)))))"

fun run_users ::
  "'s profiling \<Rightarrow> (user_patterns \<Rightarrow> py_error + string) \<Rightarrow> int \<Rightarrow> (string \<Rightarrow> pydatetime) \<Rightarrow> 's \<Rightarrow>
   string \<Rightarrow> string list \<Rightarrow> nat \<Rightarrow> 's \<times> (py_error + nat)" where
  "run_users G gen min_events now s tenant [] generated = (s, Inr generated)"
| "run_users G gen min_events now s tenant (user # rest) generated =
     (case generate_for_user G gen min_events now s tenant user of
        (s', Inl e) \<Rightarrow> (s', Inl e)
      | (s', Inr b) \<Rightarrow>
          run_users G gen min_events now s' tenant rest (if b then generated + 1 else generated))"

definition run_once ::
  "'s profiling \<Rightarrow> (user_patterns \<Rightarrow> py_error + string) \<Rightarrow> int \<Rightarrow> (string \<Rightarrow> pydatetime) \<Rightarrow> 's \<Rightarrow>
   string \<Rightarrow> 's \<times> (py_error + nat)" where
  "run_once G gen min_events now s tenant = (case g_active_users G s tenant ACTIVE_WINDOW_DAYS of
     Inl e \<Rightarrow> (s, Inl e)
   | Inr user_ids \<Rightarrow> run_users G gen min_events now s tenant user_ids 0)"

definition store_profiling :: "store profiling" where
  \<comment> \<open>the scheduler's graph is a \<open>GraphStore\<close>\<close>
  "store_profiling = \<lparr>g_user_history = (\<lambda>s t u d. get_user_history s t u d None),
     g_event_count = get_user_event_count, g_active_users = get_active_users,
     g_update_profile = update_user_profile, g_get_profile = get_user_profile\<rparr>"

definition run_for_tenant :: "settings \<Rightarrow> (string \<Rightarrow> pydatetime) \<Rightarrow> store \<Rightarrow> string \<Rightarrow> store \<times> (py_error + nat)" where
  \<comment> \<open>the command line's pass, with the generator of the configured backend\<close>
  "run_for_tenant cfg now s tenant = (case build_profile_generator (profile_generator_backend cfg) of
     Inl e \<Rightarrow> (s, Inl e)
   | Inr g \<Rightarrow> run_once store_profiling (generate g) (profile_min_events_to_generate cfg) now s tenant)"

section \<open>What a pass does\<close>

definition old_version :: "stored_profile option \<Rightarrow> int" where
  "old_version p = (case p of None \<Rightarrow> 0 | Some r \<Rightarrow> (case profileVersion r of None \<Rightarrow> 0 | Some v \<Rightarrow> v))"

lemma next_version_eq: "g_get_profile G s tenant user = Inr p \<Longrightarrow> next_version G s tenant user = Inr (old_version p + 1)"
  by (simp add: next_version_def old_version_def Let_def split: option.split)

definition patterns_of :: "'s profiling \<Rightarrow> 's \<Rightarrow> (string \<Rightarrow> pydatetime) \<Rightarrow> string \<Rightarrow> string \<Rightarrow> user_patterns" where
  "patterns_of G s now tenant user =
     projr (detect (g_user_history G s) (g_event_count G s) (now user) tenant user)"

definition due :: "'s profiling \<Rightarrow> 's \<Rightarrow> int \<Rightarrow> string \<Rightarrow> string \<Rightarrow> bool" where
  \<comment> \<open>the user has enough events\<close>
  "due G s min_events tenant user = (int (projr (g_event_count G s tenant user)) \<ge> min_events)"

definition profiled ::
  "'s profiling \<Rightarrow> 's \<Rightarrow> 's \<Rightarrow> (user_patterns \<Rightarrow> string) \<Rightarrow> (string \<Rightarrow> pydatetime) \<Rightarrow> string \<Rightarrow> string \<Rightarrow> bool" where
  \<comment> \<open>the profile of the user is the text of its patterns, one version later\<close>
  "profiled G s s' gen now tenant user = (\<exists>p t. g_get_profile G s tenant user = Inr p \<and>
     g_get_profile G s' tenant user = Inr (Some \<lparr>nlqProfile = gen (patterns_of G s now tenant user),
       profileGeneratedAt = t, profileVersion = Some (old_version p + 1)\<rparr>))"

context profiling_graph begin

abbreviation "G \<equiv> \<lparr>g_user_history = user_history, g_event_count = event_count,
  g_active_users = active_users, g_update_profile = update_profile, g_get_profile = get_profile\<rparr>"

lemma detect_patterns:
  assumes "inv s"
  shows "detect (user_history s) (event_count s) (now user) tenant user = Inr (patterns_of G s now tenant user)"
    and "int (up_total_events (patterns_of G s now tenant user)) < m \<longleftrightarrow> \<not> due G s m tenant user"
  using detect_total[OF assms, of tenant user "now user"] by (auto simp: patterns_of_def due_def)

lemma generate_step:
  assumes i: "inv s" and k: "known s tenant user"
  shows "\<exists>s'. generate_for_user G (\<lambda>p. Inr (gen p)) m now s tenant user = (s', Inr (due G s m tenant user)) \<and>
    inv s' \<and> user_history s' = user_history s \<and> event_count s' = event_count s \<and> known s' = known s \<and>
    (\<forall>t' u'. (t', u') \<noteq> (tenant, user) \<longrightarrow> get_profile s' t' u' = get_profile s t' u') \<and>
    (due G s m tenant user \<longrightarrow> profiled G s s' gen now tenant user) \<and> (\<not> due G s m tenant user \<longrightarrow> s' = s)"
proof (cases "due G s m tenant user")
  case False
  then show ?thesis
    using i detect_patterns(1)[OF i, of now user tenant] detect_patterns(2)[OF i, where now = now and user = user and tenant = tenant] by (simp add: generate_for_user_def)
next
  case True
  let ?p = "patterns_of G s now tenant user"
  obtain old where old: "get_profile s tenant user = Inr old" using get_total[OF i] by blast
  let ?v = "old_version old + 1"
  obtain s' where s': "update_profile s tenant user (gen ?p) ?v = Inr s'" "inv s'"
    using update_total[OF i] by blast
  obtain t where t: "get_profile s' tenant user =
      Inr (Some \<lparr>nlqProfile = gen ?p, profileGeneratedAt = t, profileVersion = Some ?v\<rparr>)"
    using get_updated[OF i k s'(1)] by blast
  have g: "generate_for_user G (\<lambda>p. Inr (gen p)) m now s tenant user = (s', Inr True)"
    using True detect_patterns(1)[OF i, of now user tenant]
      detect_patterns(2)[OF i, where now = now and user = user and tenant = tenant] next_version_eq[of G s tenant user] old s'(1)
    by (simp add: generate_for_user_def)
  have h: "user_history s' = user_history s" "event_count s' = event_count s" "known s' = known s"
    using history_stable[OF s'(1)] count_stable[OF s'(1)] known_stable[OF s'(1)] by (blast intro: ext)+
  show ?thesis using True g s'(2) h t old get_other[OF i s'(1)] by (auto simp: profiled_def)
qed

lemma run_users_spec:
  assumes "inv s" "distinct us" "\<And>u. u \<in> set us \<Longrightarrow> known s tenant u"
  shows "\<exists>s'. run_users G (\<lambda>p. Inr (gen p)) m now s tenant us n
      = (s', Inr (n + length (filter (due G s m tenant) us))) \<and> inv s' \<and>
    (\<forall>u \<in> set us. due G s m tenant u \<longrightarrow> profiled G s s' gen now tenant u) \<and>
    (\<forall>t' u'. \<not> (t' = tenant \<and> u' \<in> set us \<and> due G s m tenant u') \<longrightarrow> get_profile s' t' u' = get_profile s t' u')"
  using assms
proof (induction us arbitrary: s n)
  case (Cons u us)
  have k: "known s tenant u" using Cons.prems(3) by simp
  obtain s1 where g: "generate_for_user G (\<lambda>p. Inr (gen p)) m now s tenant u = (s1, Inr (due G s m tenant u))"
    and i1: "inv s1" and fr: "user_history s1 = user_history s" "event_count s1 = event_count s" "known s1 = known s"
    and oth: "\<And>t' u'. (t', u') \<noteq> (tenant, u) \<Longrightarrow> get_profile s1 t' u' = get_profile s t' u'"
    and pr: "due G s m tenant u \<Longrightarrow> profiled G s s1 gen now tenant u" and same: "\<not> due G s m tenant u \<Longrightarrow> s1 = s"
    using generate_step[OF Cons.prems(1) k, of gen m now] by blast
  have d: "due G s1 m tenant = due G s m tenant" "patterns_of G s1 now tenant = patterns_of G s now tenant"
    by (simp_all add: due_def[abs_def] patterns_of_def[abs_def] fr)
  obtain s2 where r: "run_users G (\<lambda>p. Inr (gen p)) m now s1 tenant us (if due G s m tenant u then n + 1 else n)
      = (s2, Inr ((if due G s m tenant u then n + 1 else n) + length (filter (due G s m tenant) us)))"
    and i2: "inv s2" and ps: "\<And>v. v \<in> set us \<Longrightarrow> due G s m tenant v \<Longrightarrow> profiled G s1 s2 gen now tenant v"
    and oth2: "\<And>t' u'. \<not> (t' = tenant \<and> u' \<in> set us \<and> due G s m tenant u') \<Longrightarrow> get_profile s2 t' u' = get_profile s1 t' u'"
    using Cons.IH[OF i1, of "if due G s m tenant u then n + 1 else n"] Cons.prems(2,3) fr(3) d(1) by auto
  have run: "run_users G (\<lambda>p. Inr (gen p)) m now s tenant (u # us) n
      = (s2, Inr (n + length (filter (due G s m tenant) (u # us))))"
    using g r by simp
  have "profiled G s s2 gen now tenant v" if "v \<in> set (u # us)" "due G s m tenant v" for v
  proof (cases "v = u")
    case True
    have "get_profile s2 tenant u = get_profile s1 tenant u" using oth2 Cons.prems(2) by auto
    then show ?thesis using pr that True by (simp add: profiled_def)
  next
    case False
    then have "profiled G s1 s2 gen now tenant v" using ps that by simp
    then show ?thesis using oth[of tenant v] False by (simp add: profiled_def d)
  qed
  moreover have "get_profile s2 t' u' = get_profile s t' u'"
    if "\<not> (t' = tenant \<and> u' \<in> set (u # us) \<and> due G s m tenant u')" for t' u'
  proof -
    have "get_profile s2 t' u' = get_profile s1 t' u'" using oth2 that by auto
    also have "\<dots> = get_profile s t' u'" using oth[of t' u'] same that by (cases "(t', u') = (tenant, u)") auto
    finally show ?thesis .
  qed
  ultimately show ?case using run i2 by blast
qed simp

lemma run_once_spec:
  assumes "inv s"
  shows "\<exists>us s'. active_users s tenant ACTIVE_WINDOW_DAYS = Inr us \<and>
    run_once G (\<lambda>p. Inr (gen p)) m now s tenant = (s', Inr (length (filter (due G s m tenant) us))) \<and> inv s' \<and>
    (\<forall>u \<in> set us. due G s m tenant u \<longrightarrow> profiled G s s' gen now tenant u) \<and>
    (\<forall>t' u'. \<not> (t' = tenant \<and> u' \<in> set us \<and> due G s m tenant u') \<longrightarrow> get_profile s' t' u' = get_profile s t' u')"
proof -
  obtain us where us: "active_users s tenant ACTIVE_WINDOW_DAYS = Inr us" "distinct us"
    "\<forall>u \<in> set us. known s tenant u"
    using active_total[OF assms] by blast
  show ?thesis using run_users_spec[OF assms us(2), of tenant gen m now 0] us by (simp add: run_once_def)
qed

end

end
