(* ===== verification/Samples.thy ===== *)
theory Samples
  imports App Scheduler
begin

text \<open>
  Concrete inputs for the witnesses: an engine that scans in creation order and reads ISO 8601,
  a validator that reports one error where the contract is broken, an event of the contract, a
  store that has just been initialised, one that holds the event, and an application over it.
\<close>

definition sample_engine :: engine where
  "sample_engine = \<lparr>scan_users = (\<lambda>us. us), scan_rows = (\<lambda>rs. rs),
     cypher_datetime = (\<lambda>s. map_option as_aware (fromisoformat (zulu_offset s)))\<rparr>"

definition sample_validator :: validator where
  "sample_validator = \<lparr>iter_errors = (\<lambda>e. if valid event_schema e then []
       else [\<lparr>e_path = [], e_message = ''contract broken''\<rparr>]), max_future_seconds = 300\<rparr>"

definition sample_now :: pydatetime where
  "sample_now = utc 1785576600000000"

definition sample_event :: "(string \<times> json) list" where
  "sample_event = [(''schemaVersion'', JStr ''1.0.0''), (''eventId'', JStr ''e1''),
     (''tenantId'', JStr ''acme''), (''applicationId'', JStr ''jira''),
     (''applicationInstanceId'', JStr ''jira-1''), (''environment'', JStr ''test''),
     (''eventTimestamp'', JStr ''2026-08-01T09:00:00Z''),
     (''actor'', JObj [(''nativeUserId'', JStr ''ann''), (''userIdType'', JStr ''email'')]),
     (''action'', JObj [(''type'', JStr ''close_sprint''), (''category'', JStr ''update'')]),
     (''object'', JObj [(''objectType'', JStr ''sprint''), (''objectId'', JStr ''s1'')]),
     (''source'', JObj [(''connector'', JStr ''sdk''), (''connectorVersion'', JStr ''1.0'')])]"

definition sample_params :: write_params where
  "sample_params = \<lparr>p_applicationId = ''jira'', p_applicationInstanceId = ''jira-1'',
     p_nativeUserId = ''ann'', p_userIdType = ''email'', p_canonicalUserId = None, p_roles = [],
     p_objectType = ''sprint'', p_objectId = ''s1'', p_eventId = ''e1'', p_actionType = ''close_sprint'',
     p_actionCategory = ''update'', p_eventTimestamp = ''2026-08-01T09:00:00Z'', p_metadata = None,
     p_environment = ''test'', p_sessionId = None, p_correlationId = None, p_device = None\<rparr>"

definition empty_store :: store where
  "empty_store = \<lparr>engine = sample_engine, clock = sample_now, online = True,
     graph = empty_graph\<lparr>ddl := map fst INIT_STATEMENTS\<rparr>\<rparr>"

definition sample_time :: pydatetime where
  "sample_time = utc 1785574800000000"

definition sample_store :: store where
  "sample_store = empty_store\<lparr>graph := write_result ''acme'' sample_params sample_time (graph empty_store)\<rparr>"

definition sample_app :: app where
  "sample_app = \<lparr>a_ingest = \<lparr>i_store = sample_store, i_count = 1\<rparr>, a_counts = [], a_resolved = 0\<rparr>"

definition sample_unrouted :: "request \<Rightarrow> payload response" where
  "sample_unrouted req = as_payload (json_response 404 (JObj [(''detail'', JStr ''Not Found'')]))"

definition sample_config :: app_config where
  "sample_config = \<lparr>c_settings = default_settings, c_validator = sample_validator,
     c_generator = TemplateGenerator,
     c_parse_intent = (\<lambda>b. Some \<lparr>iq_tenant_id = ''acme'', iq_user_id = ''ann'', iq_user_id_type = ''email'',
       iq_trigger = None, iq_max_predictions = 3\<rparr>),
     c_unrouted = sample_unrouted\<rparr>"

definition sample_request :: "string \<Rightarrow> string \<Rightarrow> body \<Rightarrow> request" where
  "sample_request m p b = \<lparr>rq_method = m, rq_path = p, rq_tenant = Some ''acme'', rq_body = b,
     rq_id = ''r1'', rq_days = None, rq_limit = None\<rparr>"

section \<open>The assumptions hold for them\<close>

lemma sample_engine_ok [simp]: "engine_ok sample_engine"
  by (auto simp: engine_ok_def sample_engine_def)

lemma sample_validator_ok [simp]: "validator_ok sample_validator"
  by (simp add: validator_ok_def sample_validator_def)

lemma sample_event_valid [simp]: "valid event_schema (JObj sample_event)"
  by code_simp

lemma sample_datetime [simp]: "cypher_datetime sample_engine ''2026-08-01T09:00:00Z'' = Some sample_time"
  unfolding sample_engine_def engine.simps by code_simp

lemma sample_params_eq: "event_params (JObj sample_event) = Inr (''acme'', sample_params)"
  by code_simp

lemma sample_event_accepted: "validate sample_validator sample_now (JObj sample_event) = Inr ()"
proof -
  have i: "iter_errors sample_validator (JObj sample_event) = []" by (simp add: sample_validator_def)
  have t: "validate_timestamp sample_validator sample_now (JObj sample_event) = Inr None"
    unfolding validate_timestamp_def sample_validator_def validator.simps by code_simp
  show ?thesis unfolding validate_dict i t by simp
qed

lemma empty_store_sel [simp]:
  "engine empty_store = sample_engine" "online empty_store" "clock empty_store = sample_now"
  "graph empty_store = empty_graph\<lparr>ddl := map fst INIT_STATEMENTS\<rparr>"
  by (simp_all add: empty_store_def)

lemma empty_store_ok [simp]: "store_ok empty_store"
  using wf_started[OF init_empty_graph] by (simp add: store_ok_def)

lemma empty_store_ids [simp]: "stored_ids empty_store = {}"
  by (simp add: stored_ids_def event_ids_def empty_graph_def)

lemma sample_time_aware [simp]: "is_aware sample_time"
  by (simp add: sample_time_def)

lemma sample_store_sel [simp]:
  "engine sample_store = sample_engine" "online sample_store" "clock sample_store = sample_now"
  by (simp_all add: sample_store_def)

lemma sample_params_sel [simp]: "p_eventTimestamp sample_params = ''2026-08-01T09:00:00Z''" "p_eventId sample_params = ''e1''"
  "p_applicationId sample_params = ''jira''" "p_nativeUserId sample_params = ''ann''"
  by (simp_all add: sample_params_def)

lemma sample_store_ok [simp]: "store_ok sample_store"
  using store_ok_write[OF empty_store_ok, of sample_params sample_time "''acme''"]
  by (simp add: sample_store_def event_ids_def empty_graph_def)

lemma sample_store_ids [simp]: "stored_ids sample_store = {''e1''}"
  by (simp add: stored_ids_def sample_store_def event_ids_def empty_graph_def write_result_def create_performed_def)

lemma sample_user_known [simp]: "(''acme'', ''jira'', ''ann'') \<in> user_key ` set (users (graph sample_store))"
  by (simp add: sample_store_def write_result_def merge_node_def p_user_key_def empty_graph_def user_key_def
      create_user_def)

lemma sample_store_unoccupied [simp]: "the_store sample_app = sample_store"
  by (simp add: the_store_def sample_app_def)

lemma sample_config_sel [simp]: "c_validator sample_config = sample_validator" "c_settings sample_config = default_settings"
  "c_generator sample_config = TemplateGenerator"
  by (simp_all add: sample_config_def)

lemma sample_request_sel [simp]: "rq_method (sample_request m p b) = m" "rq_path (sample_request m p b) = p"
  "rq_tenant (sample_request m p b) = Some ''acme''" "rq_body (sample_request m p b) = b"
  "rq_id (sample_request m p b) = ''r1''" "rq_days (sample_request m p b) = None" "rq_limit (sample_request m p b) = None"
  by (simp_all add: sample_request_def)

end
