(* ===== verification/AppSpec.thy ===== *)
theory AppSpec
  imports App Scheduler
begin

text \<open>
  The contracts of the components put together: valid events are writable, what one ingestion
  and one batch do to the store of an application, the applications that requests can lead to,
  and the answers of the reading handlers on a consistent store.
\<close>

section \<open>Valid events are writable\<close>

definition time_accepted :: "store \<Rightarrow> json \<Rightarrow> bool" where
  \<comment> \<open>the server parses the event's timestamp\<close>
  "time_accepted s e = (\<forall>tenant p. event_params e = Inr (tenant, p) \<longrightarrow>
     cypher_datetime (engine s) (p_eventTimestamp p) \<noteq> None)"

lemma req_str_get: "req_str k (JObj d) = Inr v \<Longrightarrow> py_get k (JObj d) = Inr (JStr v)"
  using req_str_JObj[of k d v] by (simp add: dget_def)

lemma valid_event_parts:
  assumes "valid event_schema e"
  obtains d tenant p where "e = JObj d" "event_params e = Inr (tenant, p)" "p_eventId p = id_of_event e"
    "py_get ''eventId'' e = Inr (JStr (id_of_event e))"
proof -
  obtain d where d: "e = JObj d" using valid_is_object assms unfolding event_schema_def by blast
  obtain tenant p where p: "event_params e = Inr (tenant, p)" "req_str ''eventId'' e = Inr (p_eventId p)"
    using valid_event_params[OF assms] by blast
  have g: "py_get ''eventId'' e = Inr (JStr (p_eventId p))" using p(2) req_str_get d by simp
  then have "id_of_event e = p_eventId p" by (simp add: id_of_event_def)
  then show thesis using that d p g by metis
qed

lemma valid_writable:
  assumes "valid event_schema e" "time_accepted s e"
  shows "writable_stamped writable_event s now e"
proof (rule valid_event_parts[OF assms(1)])
  fix d tenant p
  assume d: "e = JObj d" and p: "event_params e = Inr (tenant, p)" "p_eventId p = id_of_event e"
    and g: "py_get ''eventId'' e = Inr (JStr (id_of_event e))"
  obtain t where t: "cypher_datetime (engine s) (p_eventTimestamp p) = Some t"
    using assms(2) p(1) by (auto simp: time_accepted_def)
  let ?e = "JObj (AList.update ''ingestionTimestamp'' (JStr (isoformat_utc now)) d)"
  have "event_params ?e = Inr (tenant, p)" using p(1) d by (simp add: event_params_stamped)
  then have "writable_event s ?e (id_of_event e)" using p(2) t by (auto simp: writable_event_def)
  then show ?thesis using g d by (auto simp: writable_stamped_def simp del: py_get_JObj)
qed

lemma validated_valid: "validator_ok V \<Longrightarrow> validate V now (JObj d) = Inr () \<Longrightarrow> valid event_schema (JObj d)"
  by (rule validate_valid)

section \<open>One event\<close>

lemma ingest_new:
  assumes s: "store_ok (i_store st)" and V: "validator_ok V" and v: "validate V now e = Inr ()"
    and t: "time_accepted (i_store st) e" and n: "id_of_event e \<notin> stored_ids (i_store st)"
  shows "\<exists>tenant p ts. event_params e = Inr (tenant, p) \<and>
    cypher_datetime (engine (i_store st)) (p_eventTimestamp p) = Some ts \<and>
    ingest_event write_event V now rid st e =
      (\<lparr>i_store = (i_store st)\<lparr>graph := write_result tenant p ts (graph (i_store st))\<rparr>, i_count = i_count st + 1\<rparr>,
       Inr (json_response 201 (JObj [(''eventId'', JStr (id_of_event e)), (''status'', JStr ''accepted'')])))"
proof (rule valid_event_parts[OF validate_valid[OF V v]])
  fix d tenant p
  assume d: "e = JObj d" and p: "event_params e = Inr (tenant, p)" "p_eventId p = id_of_event e"
    and g: "py_get ''eventId'' e = Inr (JStr (id_of_event e))"
  obtain ts where ts: "cypher_datetime (engine (i_store st)) (p_eventTimestamp p) = Some ts"
    using t p(1) by (auto simp: time_accepted_def)
  let ?e = "JObj (AList.update ''ingestionTimestamp'' (JStr (isoformat_utc now)) d)"
  have pe: "event_params ?e = Inr (tenant, p)" using p(1) d by (simp add: event_params_stamped)
  have w: "write_event (i_store st) ?e
      = Inr ((i_store st)\<lparr>graph := write_result tenant p ts (graph (i_store st))\<rparr>)"
    using pe n ts p(2) write_params_event_eq[OF s, of tenant p] by (simp add: write_event_def stored_ids_def)
  have i: "py_item ''eventId'' e = Inr (JStr (id_of_event e))"
    using g d by (auto simp: dget_def split: option.splits)
  show ?thesis
    using w v i ts p(1) d by (simp add: ingest_event_def ingest_one_def write_stamped_def del: py_item_JObj)
qed

lemma ingest_duplicate:
  assumes s: "store_ok (i_store st)" and V: "validator_ok V" and v: "validate V now e = Inr ()"
    and t: "time_accepted (i_store st) e" and n: "id_of_event e \<in> stored_ids (i_store st)"
  shows "ingest_event write_event V now rid st e = (st, Inr (json_response 409
    (error_body ''duplicate_event'' (error_message (DuplicateEventError (id_of_event e))) rid)))"
  using writer.write_stamped_cases(2)[OF s valid_writable[OF validate_valid[OF V v] t] n] v
  by (simp add: ingest_event_def ingest_one_def)

lemma history_after_write:
  assumes s: "store_ok s" and s': "store_ok s'" "s' = s\<lparr>graph := write_result tenant p ts (graph s)\<rparr>"
    and w: "since (clock s) days ts"
  shows "\<exists>hs. get_user_history s' tenant (p_nativeUserId p) days None = Inr hs \<and> p_eventId p \<in> h_eventId ` set hs"
proof -
  let ?g = "write_result tenant p ts (graph s)"
  have wf: "wf_graph ?g" using s' by (simp add: store_ok_def)
  let ?r = "create_performed tenant p ts"
  have r: "?r \<in> set (performed ?g)" by (simp add: write_result_def)
  obtain u where u: "u \<in> set (users ?g)" "r_user ?r = user_key u"
    using wf_graphD(6)[OF wf r] by (auto simp: edge_ok_def)
  have P: "is_native tenant (p_nativeUserId p) u" using u(2) by (auto simp: is_native_def user_key_def p_user_key_def)
  have "r_eventId ?r \<in> h_eventId ` set (history_rows ?g (clock s) days (is_native tenant (p_nativeUserId p)))"
    by (rule edge_row[where P = "is_native tenant (p_nativeUserId p)", OF wf r u P]) (use w in simp)
  then show ?thesis
    using s'(2) get_user_history_eq[OF s'(1)] set_USER_HISTORY[OF store_okD(1)[OF s]] by simp
qed

lemma count_after_write:
  assumes "wf_graph g" "wf_graph (write_result tenant p ts g)"
  shows "USER_EVENT_COUNT tenant' user' (write_result tenant p ts g) = USER_EVENT_COUNT tenant' user' g +
    (if tenant' = tenant \<and> user' = p_nativeUserId p then 1 else 0)"
  unfolding event_count_edges[OF assms(1)] event_count_edges[OF assms(2)]
  by (auto simp: write_result_def native_edge_def p_user_key_def)

section \<open>A batch\<close>

lemma valid_event_reportable: "valid event_schema e \<Longrightarrow> reportable e"
  using valid_event_parts[of e] unfolding reportable_def by force

definition batch_events :: "(string \<times> json) list \<Rightarrow> json list \<Rightarrow> bool" where
  \<comment> \<open>the body of a batch request holds this list of objects\<close>
  "batch_events body es = (map_of body ''events'' = Some (JList es) \<and> (\<forall>e \<in> set es. is_dict e))"

definition failures :: "validator \<Rightarrow> pydatetime \<Rightarrow> json list \<Rightarrow> nat" where
  "failures V now es = length (filter (\<lambda>e. verdict V now e \<noteq> None) es)"

lemma batch_validated:
  assumes "batch_events body es"
  shows "ebind (py_iter (case map_of body ''events'' of None \<Rightarrow> JList [] | Some v \<Rightarrow> v)) (validate_batch V now) =
      Inr (map (\<lambda>e. (e, verdict V now e)) es, failures V now es)"
    "py_len (case map_of body ''events'' of None \<Rightarrow> JList [] | Some v \<Rightarrow> v) = Inr (length es)"
  using assms validate_batch_dicts[of es V now]
  by (simp_all add: batch_events_def py_iter_def py_len_def failures_def)

lemma too_many_failures_iff: "n \<noteq> 0 \<Longrightarrow> too_many_failures k n \<longleftrightarrow> 10 * k > n"
  unfolding too_many_failures_def by (simp add: less_divide_eq) linarith

lemma failures_le: "failures V now es \<le> length es"
  by (simp add: failures_def)

lemma failures_ratio: "(length es \<noteq> 0 \<and> too_many_failures (failures V now es) (length es)) \<longleftrightarrow>
    10 * failures V now es > length es"
  using failures_le[of V now es] too_many_failures_iff[of "length es" "failures V now es"]
  by (cases "length es = 0") auto

text \<open>
  A batch within the limits is taken up to the first event whose id fits no result: valid events
  have a text, so that event is one that failed validation, and the handler raises there.
\<close>

lemma batch_outcome:
  assumes s: "store_ok (i_store st)" and V: "validator_ok V" and b: "batch_events body es"
    and l: "length es \<le> 100" "10 * failures V now es \<le> length es"
    and t: "\<forall>e \<in> set es. verdict V now e = None \<longrightarrow> time_accepted (i_store st) e"
  shows "\<exists>st' rs. ingest_events_batch write_event V now rid st body =
      (st', if \<forall>e \<in> set es. reportable e then Inr (batch_response rs) else Inl ModelValidationError) \<and>
    store_ok (i_store st') \<and> length rs = length (takeWhile reportable es) \<and>
    map (\<lambda>r. br_status r = ''accepted'') rs =
      accepted_flags (stored_ids (i_store st)) (map (\<lambda>e. (e, verdict V now e)) (takeWhile reportable es)) \<and>
    stored_ids (i_store st') = stored_ids (i_store st) \<union>
      {id_of_event e |e. e \<in> set (takeWhile reportable es) \<and> verdict V now e = None} \<and>
    i_count st' = i_count st + accepted_count rs"
proof -
  let ?judge = "map (\<lambda>e. (e, verdict V now e))" and ?es = "takeWhile reportable es"
  have sub: "set ?es \<subseteq> set es" by (auto dest: set_takeWhileD)
  have dict: "is_dict e" if "e \<in> set es" for e using b that by (simp add: batch_events_def)
  have valid: "validate V now e = Inr ()" if "e \<in> set es" "verdict V now e = None" for e
    using dict[OF that(1)] that(2) validate_verdict by (cases e) auto
  have w: "\<forall>e. (e, None) \<in> set (?judge ?es) \<longrightarrow> writable_stamped writable_event (i_store st) now e"
  proof (intro allI impI)
    fix e assume "(e, None) \<in> set (?judge ?es)"
    then have e: "e \<in> set es" "verdict V now e = None" using sub by auto
    show "writable_stamped writable_event (i_store st) now e"
      using valid_writable[OF validate_valid[OF V valid[OF e]]] t e by blast
  qed
  have rep: "\<forall>e m. (e, Some m) \<in> set (?judge ?es) \<longrightarrow> reportable e" by (auto dest: set_takeWhileD)
  obtain st' rs where p: "persist_batch write_event now st (?judge ?es) = (st', Inr rs)" "store_ok (i_store st')"
    "stored_ids (i_store st') = stored_ids (i_store st) \<union> valid_ids (?judge ?es)"
    "map (\<lambda>r. br_status r = ''accepted'') rs = accepted_flags (stored_ids (i_store st)) (?judge ?es)"
    "i_count st' = i_count st + accepted_count rs"
    using writer.persist_batch_spec[OF s w rep] by blast
  have f: "length (accepted_flags known vs) = length vs" for known vs
    by (induction known vs rule: accepted_flags.induct) auto
  have len: "length rs = length ?es" using arg_cong[OF p(4), of length] f by simp
  have ids: "valid_ids (?judge ?es) = {id_of_event e |e. e \<in> set ?es \<and> verdict V now e = None}"
    unfolding valid_ids_def by (rule Collect_cong) (auto simp: image_iff)
  have whole: "persist_batch write_event now st (?judge es) =
      (st', if \<forall>e \<in> set es. reportable e then Inr rs else Inl ModelValidationError)"
  proof (cases "dropWhile reportable es")
    case Nil
    have k: "?es = es" using takeWhile_dropWhile_id[of reportable es] Nil by simp
    have all: "\<forall>e \<in> set es. reportable e" using Nil by (simp only: dropWhile_eq_Nil_conv)
    show ?thesis unfolding if_P[OF all] using p(1) unfolding k .
  next
    case (Cons e es')
    have e: "\<not> reportable e" using Cons by (metis hd_dropWhile list.sel(1) list.distinct(1))
    have d: "es = ?es @ e # es'" using Cons takeWhile_dropWhile_id[of reportable es] by simp
    then have m: "e \<in> set es" by (metis in_set_conv_decomp)
    have "verdict V now e \<noteq> None"
      using e valid[OF m] validate_valid[OF V] valid_event_reportable by blast
    then obtain x where x: "verdict V now e = Some x" by blast
    have "persist_batch write_event now st (?judge ?es @ ?judge (e # es')) = (st', Inl ModelValidationError)"
      unfolding persist_batch_append[OF p(1)] using batch_result_unreportable[OF dict[OF m] e] x by simp
    then have "persist_batch write_event now st (?judge es) = (st', Inl ModelValidationError)"
      by (subst d) simp
    then show ?thesis using e m by auto
  qed
  have "ingest_events_batch write_event V now rid st body =
      (st', if \<forall>e \<in> set es. reportable e then Inr (batch_response rs) else Inl ModelValidationError)"
    unfolding ingest_events_batch_def Let_def batch_validated[OF b]
    using l whole failures_ratio[of es V now] by (auto simp: MAX_BATCH_SIZE_def)
  then show ?thesis using p(2-5) len unfolding ids by blast
qed

lemma batch_ok:
  assumes "store_ok (i_store st)" "validator_ok V" "batch_events body es"
    "length es \<le> 100" "10 * failures V now es \<le> length es"
    "\<forall>e \<in> set es. verdict V now e = None \<longrightarrow> time_accepted (i_store st) e" and r: "\<forall>e \<in> set es. reportable e"
  shows "\<exists>st' rs. ingest_events_batch write_event V now rid st body = (st', Inr (batch_response rs)) \<and>
    store_ok (i_store st') \<and> length rs = length es \<and>
    map (\<lambda>r. br_status r = ''accepted'') rs =
      accepted_flags (stored_ids (i_store st)) (map (\<lambda>e. (e, verdict V now e)) es) \<and>
    stored_ids (i_store st') = stored_ids (i_store st) \<union> {id_of_event e |e. e \<in> set es \<and> verdict V now e = None} \<and>
    i_count st' = i_count st + accepted_count rs"
proof -
  have k: "takeWhile reportable es = es" using r by (simp add: takeWhile_eq_all_conv)
  have "(if \<forall>e \<in> set es. reportable e then x else y) = x" for x y :: "py_error + json response" using r by simp
  then show ?thesis using batch_outcome[OF assms(1-6), of rid] unfolding k by (simp only:)
qed

lemma batch_refused:
  assumes b: "batch_events body es" and l: "100 < length es \<or> length es < 10 * failures V now es"
  shows "\<exists>body'. ingest_events_batch write_event V now rid st body = (st, Inr (json_response
    (if 100 < length es then 400 else 422) body'))"
  unfolding ingest_events_batch_def Let_def batch_validated[OF b]
  using l failures_ratio[of es V now] by (auto simp: MAX_BATCH_SIZE_def)

section \<open>Applications\<close>

inductive app_reachable :: "app_config \<Rightarrow> store \<Rightarrow> app \<Rightarrow> bool" for C s where
  started: "startup (c_settings C) V parse unrouted s = Inr (C, a) \<Longrightarrow> app_reachable C s a"
| served: "app_reachable C s a \<Longrightarrow> app_reachable C s (fst (serve C now req a))"

lemma wf_run_all_ddl: "wf_graph g \<Longrightarrow> run_all_ddl sts g = Inr g' \<Longrightarrow> wf_graph g'"
  using run_all_ddl_frame[of sts g g'] wf_ddl by blast

lemma startup_store:
  "startup cfg V parse unrouted s = Inr (C, a) \<Longrightarrow> initialize s = Inr (the_store a)"
  by (auto simp: startup_def res_simps the_store_def)

lemma initialize_Inr: "initialize s = Inr s' \<longleftrightarrow> online s \<and> (\<exists>g. run_all_ddl INIT_STATEMENTS (graph s) = Inr g \<and> s' = s\<lparr>graph := g\<rparr>)"
  by (auto simp: initialize_def session_def set_graph_def split: sum.splits)

lemma initialize_empty_ok:
  assumes "engine_ok (engine s)" "graph s = empty_graph" "initialize s = Inr s'"
  shows "store_ok s'"
  using assms wf_started by (auto simp: initialize_Inr store_ok_def)

lemma initialize_ok: "store_ok s \<Longrightarrow> initialize s = Inr s' \<Longrightarrow> store_ok s'"
  using wf_run_all_ddl by (auto simp: initialize_Inr store_ok_def)

lemma app_reachable_store_ok:
  "app_reachable C s a \<Longrightarrow> engine_ok (engine s) \<Longrightarrow> graph s = empty_graph \<or> store_ok s \<Longrightarrow> store_ok (the_store a)"
proof (induction rule: app_reachable.induct)
  case (started V parse unrouted a)
  then show ?case using startup_store[OF started(1)] initialize_empty_ok initialize_ok by blast
qed (simp add: serve_store_ok)

lemma run_ddl_done: "fst st \<in> set (ddl g) \<Longrightarrow> run_ddl st g = Inr g"
  by (simp add: run_ddl_def)

lemma run_all_ddl_done: "fst ` set sts \<subseteq> set (ddl g) \<Longrightarrow> run_all_ddl sts g = Inr g"
  by (induction sts) (simp_all add: run_ddl_done)

lemma run_all_ddl_adds: "run_all_ddl sts g = Inr g' \<Longrightarrow> set (ddl g') = set (ddl g) \<union> fst ` set sts"
proof (induction sts arbitrary: g)
  case (Cons st sts)
  then obtain h where h: "run_ddl st g = Inr h" "run_all_ddl sts h = Inr g'" by (auto simp: res_simps)
  have "set (ddl h) = insert (fst st) (set (ddl g))" using h(1) by (auto simp: run_ddl_def split: if_splits)
  then show ?case using Cons.IH[OF h(2)] by auto
qed simp

section \<open>Linked identities\<close>

lemma attempt_link_history:
  assumes s: "store_ok s" and m: "match_method a b = Some m"
    and k: "identity_key tenant a \<in> user_key ` set (users (graph s))" "identity_key tenant b \<in> user_key ` set (users (graph s))"
  shows "\<exists>s' c. attempt_link s tenant a b = Inr (s', True) \<and> store_ok s' \<and>
    (\<forall>days. \<exists>hs. get_cross_app_history s' tenant c days = Inr hs \<and>
      (\<forall>r \<in> set (performed (graph s)). r_user r \<in> {identity_key tenant a, identity_key tenant b} \<longrightarrow>
         since (clock s) days (r_eventTimestamp r) \<longrightarrow> r_eventId r \<in> h_eventId ` set hs))"
proof -
  let ?g = "LINK_IDENTITIES (clock s) tenant (native_user_id a) (application_id a) (native_user_id b) (application_id b) m 1 (graph s)"
  let ?s = "s\<lparr>graph := ?g\<rparr>"
  have wf: "wf_graph ?g" using wf_link store_okD(2)[OF s] by blast
  have ok: "store_ok ?s" using s wf by (simp add: store_ok_def)
  have al: "attempt_link s tenant a b = Inr (?s, True)" using attempt_link_Inr[of s tenant a b] s m by simp
  obtain c where c: "\<forall>u \<in> set (users ?g). user_key u \<in> {identity_key tenant a, identity_key tenant b} \<longrightarrow> u_canonicalUserId u = Some c"
    using link_canonical[OF k[unfolded identity_key_def]] unfolding identity_key_def by blast
  have "r_eventId r \<in> h_eventId ` set (CROSS_APP_HISTORY (engine s) (clock s) tenant c days ?g)"
    if r: "r \<in> set (performed (graph s))" "r_user r \<in> {identity_key tenant a, identity_key tenant b}"
      "since (clock s) days (r_eventTimestamp r)" for r days
  proof -
    have r': "r \<in> set (performed ?g)" using r(1) by simp
    obtain u where u: "u \<in> set (users ?g)" "r_user r = user_key u"
      using wf_graphD(6)[OF wf r'] by (auto simp: edge_ok_def)
    have P: "u_tenantId u = tenant \<and> u_canonicalUserId u = Some c"
      using c u r(2) by (auto simp: identity_key_def user_key_def)
    show ?thesis unfolding CROSS_APP_HISTORY_def
      using edge_row[where P = "\<lambda>u. u_tenantId u = tenant \<and> u_canonicalUserId u = Some c", OF wf r' u P r(3)]
        store_okD(1)[OF s] by simp
  qed
  then show ?thesis using al ok by (intro exI[of _ ?s] exI[of _ c]) (simp add: get_cross_app_history_def)
qed

end
