(* ===== verification/ReadSpec.thy ===== *)
theory ReadSpec
  imports AppSpec
begin

text \<open>
  What the reading handlers answer: the profile of a user, the page of a user's events, and
  every route while the database cannot be reached.
\<close>

text \<open>The clients' lemmas on the store, which its theory could not yet name.\<close>

lemmas store_detect_total = pattern_reader.detect_total[OF patterns.pattern_reader_axioms]
lemmas store_score_total = history_reader.score_total[OF reader.history_reader_axioms]

section \<open>The profile of a user\<close>

definition profile_answer ::
  "store \<Rightarrow> (user_patterns \<Rightarrow> string) \<Rightarrow> settings \<Rightarrow> string \<Rightarrow> string \<Rightarrow> user_patterns \<Rightarrow> py_error + profile_response" where
  \<comment> \<open>the stored text wins over a generated one, and a user with too few events has none\<close>
  "profile_answer s gen cfg user tenant p =
     (if int (USER_EVENT_COUNT tenant user (graph s)) < profile_min_events_to_generate cfg
      then Inl (InsufficientDataError user (int (USER_EVENT_COUNT tenant user (graph s))) (profile_min_events_to_generate cfg))
      else Inr (case GET_USER_PROFILE (engine s) tenant user (graph s) of
          Some q \<Rightarrow> to_response user (nlqProfile q) (profileGeneratedAt q) (profileVersion q) p
        | None \<Rightarrow> to_response user (gen p) None None p))"

lemma profile_route_answer:
  assumes "store_ok s"
  shows "\<exists>p. up_total_events p = USER_EVENT_COUNT tenant user (graph s) \<and>
    up_by_application p = detect_action_patterns
      (USER_HISTORY (engine s) (clock s) tenant user PROFILING_WINDOW_DAYS (graph s)) \<and>
    profile_route (\<lambda>t u d. get_user_history s t u d None) (get_user_event_count s) (get_user_profile s)
      (\<lambda>p. Inr (gen p)) cfg now user tenant = profile_answer s gen cfg user tenant p"
proof -
  obtain events n p where p: "get_user_history s tenant user PROFILING_WINDOW_DAYS None = Inr events"
    "get_user_event_count s tenant user = Inr n"
    "detect (\<lambda>t u d. get_user_history s t u d None) (get_user_event_count s) now tenant user = Inr p"
    "up_total_events p = n" "up_by_application p = detect_action_patterns events"
    using store_detect_total[OF assms, of tenant user now] by blast
  have e: "events = USER_HISTORY (engine s) (clock s) tenant user PROFILING_WINDOW_DAYS (graph s)"
    using p(1) get_user_history_eq[OF assms] by simp
  have n: "n = USER_EVENT_COUNT tenant user (graph s)" using p(2) assms by (simp add: get_user_event_count_def)
  show ?thesis using p(3-5) e n get_user_profile_eq[OF assms, of tenant user]
    by (intro exI[of _ p]) (simp add: profile_route_def profile_answer_def split: option.split)
qed

lemma get_profile_handler_answer:
  assumes s: "store_ok (the_store a)" and g: "c_generator C = TemplateGenerator" and t: "rq_tenant req = Some tenant"
  shows "\<exists>p. up_total_events p = USER_EVENT_COUNT tenant user (graph (the_store a)) \<and>
    up_by_application p = detect_action_patterns (USER_HISTORY (engine (the_store a)) (clock (the_store a))
      tenant user PROFILING_WINDOW_DAYS (graph (the_store a))) \<and>
    get_profile_handler C now req user a = ebind (profile_answer (the_store a) template_generate (c_settings C) user tenant p)
      (\<lambda>r. Inr (ok_payload (ProfilePayload r)))"
proof -
  have "generate TemplateGenerator = (\<lambda>p. Inr (template_generate p))" by (rule ext) (simp add: generate_def)
  then show ?thesis
    using profile_route_answer[OF s, of tenant user template_generate "c_settings C" now] t
    by (auto simp: get_profile_handler_def required_tenant_def g)
qed

section \<open>The page of a user's events\<close>

lemma USER_HISTORY_newest: "store_ok s \<Longrightarrow> h \<in> set (take n (USER_HISTORY (engine s) now tenant user days (graph s))) \<Longrightarrow>
    h' \<in> set (drop n (USER_HISTORY (engine s) now tenant user days (graph s))) \<Longrightarrow>
    dt_instant (h_eventTimestamp h') \<le> dt_instant (h_eventTimestamp h)"
proof -
  let ?hs = "USER_HISTORY (engine s) now tenant user days (graph s)"
  have "sorted_wrt (\<lambda>x y. dt_instant (h_eventTimestamp y) \<le> dt_instant (h_eventTimestamp x)) (take n ?hs @ drop n ?hs)"
    unfolding append_take_drop_id USER_HISTORY_def by (rule sorted_sort_desc)
  then show "h \<in> set (take n ?hs) \<Longrightarrow> h' \<in> set (drop n ?hs) \<Longrightarrow> ?thesis" unfolding sorted_wrt_append by blast
qed

lemma get_user_history_limited:
  "store_ok s \<Longrightarrow> get_user_history s tenant user days (Some n) =
     Inr (take n (USER_HISTORY (engine s) (clock s) tenant user days (graph s)))"
  by (simp add: get_user_history_def USER_HISTORY_LIMITED_def)

lemma list_user_events_page:
  assumes s: "store_ok s" and r: "list_user_events (get_user_history s) user tenant days limit = Inr pg"
  shows "\<exists>d n. query_int ''query.days'' DEFAULT_EVENT_WINDOW_DAYS 1 None days = Inr d \<and>
    query_int ''query.limit'' DEFAULT_EVENT_LIMIT 1 (Some MAX_EVENT_LIMIT) limit = Inr n \<and> 1 \<le> n \<and> n \<le> 5000 \<and>
    pg = \<lparr>pg_userId = user, pg_events = take (nat n) (USER_HISTORY (engine s) (clock s) tenant user d (graph s)),
      pg_limit = n, pg_truncated = (n \<le> int (length (USER_HISTORY (engine s) (clock s) tenant user d (graph s))))\<rparr>"
proof -
  obtain d n where q: "query_int ''query.days'' DEFAULT_EVENT_WINDOW_DAYS 1 None days = Inr d"
    "query_int ''query.limit'' DEFAULT_EVENT_LIMIT 1 (Some MAX_EVENT_LIMIT) limit = Inr n"
    using r by (auto simp: list_user_events_def res_simps)
  have n: "1 \<le> n" "n \<le> 5000" using query_int_Inr[OF q(2)] by (auto simp: MAX_EVENT_LIMIT_def)
  have "(n \<le> int (min l (nat n))) = (n \<le> int l)" for l using n by auto
  then show ?thesis using r q n by (auto simp: list_user_events_def get_user_history_limited[OF s])
qed

section \<open>Without the database\<close>

fun reaches_write :: "(json \<times> string option) list \<Rightarrow> bool" where
  \<comment> \<open>a valid event, before which every refused one can be reported\<close>
  "reaches_write [] = False"
| "reaches_write ((e, None) # vs) = True"
| "reaches_write ((e, Some m) # vs) = (reportable e \<and> reaches_write vs)"

definition batch_reaches_write :: "validator \<Rightarrow> pydatetime \<Rightarrow> (string \<times> json) list \<Rightarrow> bool" where
  \<comment> \<open>within the limits of a batch, and with a valid event to write\<close>
  "batch_reaches_write V now body =
     (let events = (case map_of body ''events'' of None \<Rightarrow> JList [] | Some v \<Rightarrow> v)
      in case (py_len events, ebind (py_iter events) (validate_batch V now)) of
           (Inr n, Inr (vs, k)) \<Rightarrow> n \<le> 100 \<and> 10 * k \<le> n \<and> reaches_write vs
         | _ \<Rightarrow> False)"

definition in_bounds :: "int \<Rightarrow> int option \<Rightarrow> int option \<Rightarrow> bool" where
  \<comment> \<open>a query parameter that is absent or between its bounds\<close>
  "in_bounds low high q = (\<forall>v. q = Some v \<longrightarrow> low \<le> v \<and> (\<forall>h. high = Some h \<longrightarrow> v \<le> h))"

definition needs_store :: "app_config \<Rightarrow> pydatetime \<Rightarrow> request \<Rightarrow> bool" where
  \<comment> \<open>the request reaches a query: a valid event, alone or in a batch, an intent the framework
    parses, or a read with its tenant and legal parameters\<close>
  "needs_store C now req = (
     rq_method req = ''POST'' \<and>
       (rq_path req = ''/v1/events'' \<and>
          (\<exists>d. rq_body req = Body (JObj d) \<and> validate (c_validator C) now (JObj d) = Inr ()) \<or>
        rq_path req = ''/v1/events/batch'' \<and>
          (\<exists>d. rq_body req = Body (JObj d) \<and> batch_reaches_write (c_validator C) now d) \<or>
        rq_path req = ''/v1/resolve-intent'' \<and> c_parse_intent C (rq_body req) \<noteq> None) \<or>
     rq_method req = ''GET'' \<and> rq_tenant req \<noteq> None \<and>
       (rq_path req = ''/v1/admin/users'' \<and> in_bounds 1 None (rq_days req) \<or>
        (\<exists>u. user_route ''/v1/admin/users'' ''events'' (rq_path req) = Some u) \<and>
          in_bounds 1 None (rq_days req) \<and> in_bounds 1 (Some 5000) (rq_limit req) \<or>
        (\<exists>u. user_route ''/v1/users'' ''profile'' (rq_path req) = Some u)))"

definition readiness_probe :: "request \<Rightarrow> bool" where
  "readiness_probe req = (rq_method req = ''GET'' \<and> rq_path req = ''/readyz'')"

definition not_ready :: "string \<Rightarrow> payload response" where
  "not_ready request_id = with_request_id request_id (as_payload
     (json_response 503 (JObj [(''status'', JStr ''unavailable'')])))"

definition unavailable :: "string \<Rightarrow> payload response" where
  "unavailable request_id = with_request_id request_id (as_payload
     ((json_response 503 (error_body ''service_unavailable'' ''graph database is unreachable'' request_id))
        \<lparr>rs_headers := [(''Retry-After'', ''5'')]\<rparr>))"

lemma write_event_offline:
  "\<not> online s \<Longrightarrow> write_event s e = Inr s' \<Longrightarrow> False"
  by (auto simp: write_event_def write_params_event_def res_simps)

lemma post_event_offline:
  assumes "\<not> online (the_store a)" "validator_ok (c_validator C)" "rq_body req = Body (JObj d)"
    "validate (c_validator C) now (JObj d) = Inr ()"
  shows "post_event C now req a = (a, Inl ServiceUnavailable)"
proof -
  have v: "valid event_schema (JObj d)" by (rule validate_valid[OF assms(2,4)])
  obtain tenant p where p: "event_params (JObj d) = Inr (tenant, p)" using valid_event_params[OF v] by blast
  then have "write_event (i_store (a_ingest a)) (JObj (AList.update ''ingestionTimestamp'' (JStr (isoformat_utc now)) d))
      = Inl ServiceUnavailable"
    using assms(1) by (simp add: write_event_def event_params_stamped write_params_event_def the_store_def)
  then have "ingest_event write_event (c_validator C) now (rq_id req) (a_ingest a) (JObj d) = (a_ingest a, Inl ServiceUnavailable)"
    using assms(4) by (simp add: ingest_event_def ingest_one_def write_stamped_def)
  then show ?thesis using assms(3) by (simp add: post_event_def dict_body_def)
qed

text \<open>A batch: its first write fails, and without one its answer owes nothing to the store.\<close>

lemma write_stamped_offline:
  assumes "\<not> online (i_store st)" "validator_ok V" "validate V now e = Inr ()"
  shows "write_stamped write_event now st e = Inl ServiceUnavailable"
proof -
  have v: "valid event_schema e" by (rule validate_valid[OF assms(2,3)])
  then obtain d where d: "e = JObj d" using valid_is_object[of _ _ e] unfolding event_schema_def by blast
  obtain tenant p where "event_params (JObj d) = Inr (tenant, p)" using valid_event_params[OF v] d by blast
  then show ?thesis using assms(1) by (simp add: d write_stamped_def write_event_def event_params_stamped write_params_event_def)
qed

lemma reportable_result: "(\<exists>r. batch_result e status err = Inr r) \<longleftrightarrow> reportable e"
  by (cases "py_get ''eventId'' e") (auto simp: reportable_def batch_result_def)

lemma persist_batch_offline:
  assumes "\<not> online (i_store st)" "validator_ok V" "\<forall>e. (e, None) \<in> set vs \<longrightarrow> validate V now e = Inr ()" "reaches_write vs"
  shows "persist_batch write_event now st vs = (st, Inl ServiceUnavailable)"
  using assms(3,4)
proof (induction vs rule: reaches_write.induct)
  case (2 e vs)
  then show ?case using write_stamped_offline[OF assms(1,2)] by (simp add: persist_batch_event_def)
next
  case (3 e m vs)
  then obtain r where "batch_result e ''rejected'' (Some m) = Inr r" using reportable_result by fastforce
  then show ?case using 3 by simp
qed simp

lemma persist_batch_unreached: "\<not> reaches_write vs \<Longrightarrow> \<exists>r. \<forall>st. persist_batch wr now st vs = (st, r)"
proof (induction vs rule: reaches_write.induct)
  case (3 e m vs)
  show ?case
  proof (cases "batch_result e ''rejected'' (Some m)")
    case (Inr r)
    then have "\<not> reaches_write vs" using 3(2) reportable_result[of e "''rejected''" "Some m"] by auto
    then obtain q where "\<forall>st. persist_batch wr now st vs = (st, q)" using 3(1) by blast
    then show ?thesis using Inr by simp
  qed simp
qed simp_all

lemma too_many_iff: "k \<le> n \<Longrightarrow> (n \<noteq> 0 \<and> too_many_failures k n) = (\<not> 10 * k \<le> n)"
  using too_many_failures_iff[of n k] by (cases "n = 0") auto

lemma validate_batch_le: "validate_batch V now es = Inr (vs, k) \<Longrightarrow> k \<le> length es"
proof (induction es arbitrary: vs k)
  case (Cons e es)
  show ?case
  proof (cases "validate V now e")
    case (Inl x)
    then obtain ws n where "validate_batch V now es = Inr (ws, n)" "k = n + 1"
      using Cons.prems by (cases x) (auto simp: res_simps)
    then show ?thesis using Cons.IH by fastforce
  next
    case (Inr u)
    then obtain ws where "validate_batch V now es = Inr (ws, k)" using Cons.prems by (auto simp: res_simps)
    then show ?thesis using Cons.IH by fastforce
  qed
qed simp

lemma py_iter_len: "py_iter j = Inr es \<Longrightarrow> py_len j = Inr n \<Longrightarrow> n = length es"
  by (cases j) (auto simp: py_iter_def py_len_def)

lemma batch_failures_le:
  assumes "py_len j = Inr n" "ebind (py_iter j) (validate_batch V now) = Inr (vs, k)"
  shows "k \<le> n"
  using assms py_iter_len validate_batch_le by (fastforce simp: res_simps)

lemma batch_offline:
  assumes "\<not> online (i_store st)" "validator_ok V" "batch_reaches_write V now body"
  shows "ingest_events_batch write_event V now rid st body = (st, Inl ServiceUnavailable)"
proof -
  let ?ev = "case map_of body ''events'' of None \<Rightarrow> JList [] | Some v \<Rightarrow> v"
  obtain n vs k where b: "py_len ?ev = Inr n" "ebind (py_iter ?ev) (validate_batch V now) = Inr (vs, k)"
    "n \<le> 100" "10 * k \<le> n" "reaches_write vs"
    using assms(3) by (auto simp: batch_reaches_write_def Let_def split: sum.splits)
  obtain es where "validate_batch V now es = Inr (vs, k)" using b(2) by (auto simp: res_simps)
  then have "\<forall>e. (e, None) \<in> set vs \<longrightarrow> validate V now e = Inr ()" using validate_batch_in by blast
  note p = persist_batch_offline[OF assms(1,2) this b(5)]
  show ?thesis
    unfolding ingest_events_batch_def Let_def b(1,2) sum.case prod.case
    using b(3,4) p too_many_iff[OF batch_failures_le[OF b(1,2)]] by (auto simp: MAX_BATCH_SIZE_def)
qed

lemma batch_without_store:
  assumes "\<not> batch_reaches_write V now body"
  shows "snd (ingest_events_batch wr V now rid st body) = snd (ingest_events_batch wr V now rid st' body)"
proof -
  let ?ev = "case map_of body ''events'' of None \<Rightarrow> JList [] | Some v \<Rightarrow> v"
  show ?thesis
  proof (cases "py_len ?ev")
    case n: (Inr n)
    show ?thesis
    proof (cases "ebind (py_iter ?ev) (validate_batch V now)")
      case (Inr x)
      obtain vs k where x: "x = (vs, k)" by (rule prod.exhaust)
      show ?thesis
      proof (cases "n \<le> 100 \<and> 10 * k \<le> n")
        case True
        then have "\<not> reaches_write vs" using assms n Inr by (simp add: batch_reaches_write_def x)
        then obtain r where "\<forall>st. persist_batch wr now st vs = (st, r)" using persist_batch_unreached by blast
        then show ?thesis unfolding ingest_events_batch_def Let_def n Inr x by simp
      next
        case False
        then show ?thesis unfolding ingest_events_batch_def Let_def n Inr x sum.case prod.case
          using too_many_iff[OF batch_failures_le[OF n Inr[unfolded x]]] by (auto simp: MAX_BATCH_SIZE_def)
      qed
    qed (simp add: ingest_events_batch_def n)
  qed (simp add: ingest_events_batch_def)
qed

lemma event_without_store:
  assumes "validate V now e \<noteq> Inr ()"
  shows "snd (ingest_event wr V now rid st e) = snd (ingest_event wr V now rid st' e)"
proof -
  obtain x where "validate V now e = Inl x" using assms by (cases "validate V now e") auto
  then have "ingest_one wr V now st e = Inl x" for st by (simp add: ingest_one_def)
  then show ?thesis by (cases x) (simp_all add: ingest_event_def)
qed

section \<open>Routes without the database\<close>

lemma user_route_other:
  "user_route ''/v1/users'' ''profile'' p = Some u \<Longrightarrow> p \<noteq> ''/healthz'' \<and> p \<noteq> ''/readyz'' \<and> p \<noteq> ''/v1/admin/users''"
  by (auto simp: user_route_def)

lemma events_route_other:
  "user_route ''/v1/admin/users'' ''events'' p = Some u \<Longrightarrow> p \<noteq> ''/healthz'' \<and> p \<noteq> ''/readyz'' \<and> p \<noteq> ''/v1/admin/users'' \<and>
    user_route ''/v1/users'' ''profile'' p = None"
  by (auto simp: user_route_def split: list.splits if_splits)

lemma query_int_in_bounds: "(\<exists>v. query_int name dflt low high q = Inr v) \<longleftrightarrow> in_bounds low high q"
  if "low \<le> dflt" "\<forall>h. high = Some h \<longrightarrow> dflt \<le> h"
  using that by (cases q; cases high) (auto simp: query_int_def in_bounds_def)

lemma params_in_bounds:
  "(\<exists>v. query_int ''query.days'' ALL_USERS_WINDOW_DAYS 1 None q = Inr v) \<longleftrightarrow> in_bounds 1 None q"
  "(\<exists>v. query_int ''query.days'' DEFAULT_EVENT_WINDOW_DAYS 1 None q = Inr v) \<longleftrightarrow> in_bounds 1 None q"
  "(\<exists>v. query_int ''query.limit'' DEFAULT_EVENT_LIMIT 1 (Some MAX_EVENT_LIMIT) q = Inr v) \<longleftrightarrow> in_bounds 1 (Some 5000) q"
  by (simp_all add: query_int_in_bounds ALL_USERS_WINDOW_DAYS_def DEFAULT_EVENT_WINDOW_DAYS_def DEFAULT_EVENT_LIMIT_def MAX_EVENT_LIMIT_def)

lemma route_offline:
  assumes off: "\<not> online (the_store a)" and V: "validator_ok (c_validator C)" and n: "needs_store C now req"
  shows "\<exists>a'. route C now req a = (a', Inl ServiceUnavailable) \<and> the_store a' = the_store a"
proof -
  have h: "get_user_history (the_store a) t u d l = Inl ServiceUnavailable" for t u d l
    using off by (simp add: get_user_history_def)
  from n consider
    (event) d where "rq_method req = ''POST''" "rq_path req = ''/v1/events''" "rq_body req = Body (JObj d)"
      "validate (c_validator C) now (JObj d) = Inr ()"
  | (batch) d where "rq_method req = ''POST''" "rq_path req = BATCH_PATH" "rq_body req = Body (JObj d)"
      "batch_reaches_write (c_validator C) now d"
  | (intent) b where "rq_method req = ''POST''" "rq_path req = ''/v1/resolve-intent''" "c_parse_intent C (rq_body req) = Some b"
  | (users) t where "rq_method req = ''GET''" "rq_tenant req = Some t" "rq_path req = ''/v1/admin/users''"
      "in_bounds 1 None (rq_days req)"
  | (events) t u where "rq_method req = ''GET''" "rq_tenant req = Some t"
      "user_route ''/v1/admin/users'' ''events'' (rq_path req) = Some u"
      "in_bounds 1 None (rq_days req)" "in_bounds 1 (Some 5000) (rq_limit req)"
  | (profile) t u where "rq_method req = ''GET''" "rq_tenant req = Some t"
      "user_route ''/v1/users'' ''profile'' (rq_path req) = Some u"
    unfolding needs_store_def BATCH_PATH_def by blast
  then show ?thesis
  proof cases
    case event
    then show ?thesis using post_event_offline[OF off V event(3,4)] by (simp add: route_def)
  next
    case batch
    have "post_batch C now req a = (a, Inl ServiceUnavailable)"
      using batch_offline[OF _ V batch(4), of "a_ingest a"] off batch(3)
      by (simp add: post_batch_def dict_body_def the_store_def)
    then show ?thesis using batch(1,2) by (simp add: route_def BATCH_PATH_def)
  next
    case intent
    then show ?thesis using h
      by (auto simp: route_def BATCH_PATH_def post_intent_def resolve_intent_def score_def collect_history_def Let_def)
  next
    case users
    obtain d where "query_int ''query.days'' ALL_USERS_WINDOW_DAYS 1 None (rq_days req) = Inr d"
      using users(4) params_in_bounds(1) by blast
    then show ?thesis using users(1-3) off
      by (simp add: route_def BATCH_PATH_def get_admin_users_def required_tenant_def list_users_def get_active_users_def)
  next
    case events
    obtain d n where "query_int ''query.days'' DEFAULT_EVENT_WINDOW_DAYS 1 None (rq_days req) = Inr d"
      "query_int ''query.limit'' DEFAULT_EVENT_LIMIT 1 (Some MAX_EVENT_LIMIT) (rq_limit req) = Inr n"
      using events(4,5) params_in_bounds(2,3) by blast
    then show ?thesis using h events(1-3) events_route_other[OF events(3)]
      by (simp add: route_def get_admin_events_def required_tenant_def list_user_events_def)
  next
    case profile
    then show ?thesis using h user_route_other[OF profile(3)]
      by (simp add: route_def get_profile_handler_def required_tenant_def profile_route_def detect_def)
  qed
qed

text \<open>Every other request but the probe is answered without the store.\<close>

lemma reads_without_tenant:
  assumes "rq_tenant req = None"
  shows "get_profile_handler C now req u a = get_profile_handler C now req u b"
    "get_admin_users req a = get_admin_users req b" "get_admin_events req u a = get_admin_events req u b"
  using assms by (simp_all add: get_profile_handler_def get_admin_users_def get_admin_events_def required_tenant_def)

lemma post_event_without_store:
  assumes "\<forall>d. rq_body req = Body (JObj d) \<longrightarrow> validate (c_validator C) now (JObj d) \<noteq> Inr ()"
  shows "snd (post_event C now req a) = snd (post_event C now req b)"
proof (cases "dict_body (rq_body req)")
  case (Inr d)
  then have "validate (c_validator C) now (JObj d) \<noteq> Inr ()" using assms by (simp add: dict_body_Inr)
  from event_without_store[OF this, of write_event "rq_id req" "a_ingest a" "a_ingest b"]
  show ?thesis using Inr by (simp add: post_event_def split_beta)
qed (simp add: post_event_def)

lemma post_batch_without_store:
  assumes "\<forall>d. rq_body req = Body (JObj d) \<longrightarrow> \<not> batch_reaches_write (c_validator C) now d"
  shows "snd (post_batch C now req a) = snd (post_batch C now req b)"
proof (cases "dict_body (rq_body req)")
  case (Inr d)
  then have "\<not> batch_reaches_write (c_validator C) now d" using assms by (simp add: dict_body_Inr)
  from batch_without_store[OF this, of write_event "rq_id req" "a_ingest a" "a_ingest b"]
  show ?thesis using Inr by (simp add: post_batch_def split_beta)
qed (simp add: post_batch_def)

lemma query_int_refused:
  assumes "\<not> (\<exists>v. query_int name dflt low high q = Inr v)"
  shows "\<exists>e. query_int name dflt low high q = Inl e"
  using assms by (cases "query_int name dflt low high q") auto

lemma admin_users_refused:
  assumes "\<not> in_bounds 1 None (rq_days req)"
  shows "get_admin_users req a = get_admin_users req b"
  using query_int_refused[OF assms[folded params_in_bounds(1)]] by (auto simp: get_admin_users_def list_users_def)

lemma admin_events_refused:
  assumes "\<not> (in_bounds 1 None (rq_days req) \<and> in_bounds 1 (Some 5000) (rq_limit req))"
  shows "get_admin_events req u a = get_admin_events req u b"
proof (cases "in_bounds 1 None (rq_days req)")
  case True
  then obtain d where d: "query_int ''query.days'' DEFAULT_EVENT_WINDOW_DAYS 1 None (rq_days req) = Inr d"
    using params_in_bounds(2) by blast
  have "\<not> in_bounds 1 (Some 5000) (rq_limit req)" using True assms by blast
  from query_int_refused[OF this[folded params_in_bounds(3)]] d
  show ?thesis by (auto simp: get_admin_events_def list_user_events_def)
next
  case False
  from query_int_refused[OF this[folded params_in_bounds(2)]]
  show ?thesis by (auto simp: get_admin_events_def list_user_events_def)
qed

lemma route_without_store:
  assumes n: "\<not> needs_store C now req" and r: "\<not> readiness_probe req"
  shows "snd (route C now req a) = snd (route C now req b)"
proof -
  have e: "snd (post_event C now req a) = snd (post_event C now req b)"
    if "rq_method req = ''POST'' \<and> rq_path req = ''/v1/events''"
    using n that by (intro post_event_without_store) (auto simp: needs_store_def)
  have t: "snd (post_batch C now req a) = snd (post_batch C now req b)"
    if "rq_method req = ''POST'' \<and> rq_path req = BATCH_PATH"
    using n that by (intro post_batch_without_store) (auto simp: needs_store_def BATCH_PATH_def)
  have i: "snd (post_intent C now req a) = snd (post_intent C now req b)"
    if "rq_method req = ''POST'' \<and> rq_path req = ''/v1/resolve-intent''"
    using n that by (auto simp: needs_store_def post_intent_def)
  have u: "get_admin_users req a = get_admin_users req b" if "rq_method req = ''GET'' \<and> rq_path req = ''/v1/admin/users''"
    using n that reads_without_tenant(2) admin_users_refused unfolding needs_store_def by blast
  have p: "get_profile_handler C now req w a = get_profile_handler C now req w b"
    if "rq_method req = ''GET''" "user_route ''/v1/users'' ''profile'' (rq_path req) = Some w" for w
    using n that reads_without_tenant(1) unfolding needs_store_def by blast
  have v: "get_admin_events req w a = get_admin_events req w b"
    if "rq_method req = ''GET''" "user_route ''/v1/admin/users'' ''events'' (rq_path req) = Some w" for w
    using n that reads_without_tenant(3) admin_events_refused unfolding needs_store_def by blast
  show ?thesis
    using e t i u p v r unfolding route_def Let_def readiness_probe_def by (auto split: option.split)
qed

lemma snd_answer_cong: "snd ar = snd br \<Longrightarrow> snd (answer req ar) = snd (answer req br)"
  by (cases ar; cases br) (auto simp: answer_def split: sum.split option.split)

lemma serve_offline:
  assumes off: "\<not> online (the_store a)" and V: "validator_ok (c_validator C)"
    and r: "rate_limit (app_limits C) (dt_instant now) req (a_counts a) = Inr (c, None)"
    and t: "tenant_check req = Inr None"
  shows "needs_store C now req \<Longrightarrow> \<exists>a'. serve C now req a = (a', unavailable (rq_id req)) \<and> the_store a' = the_store a"
    and "readiness_probe req \<Longrightarrow> \<exists>a'. serve C now req a = (a', not_ready (rq_id req)) \<and> the_store a' = the_store a"
    and "\<not> needs_store C now req \<Longrightarrow> \<not> readiness_probe req \<Longrightarrow> a_counts b = a_counts a \<Longrightarrow>
      snd (serve C now req b) = snd (serve C now req a)"
proof -
  show "\<exists>a'. serve C now req a = (a', unavailable (rq_id req)) \<and> the_store a' = the_store a" if n: "needs_store C now req"
  proof -
    obtain a' where a: "route C now req (a\<lparr>a_counts := c\<rparr>) = (a', Inl ServiceUnavailable)" "the_store a' = the_store a"
      using route_offline[OF _ V n, of "a\<lparr>a_counts := c\<rparr>"] off by auto
    then show ?thesis using r t by (simp add: serve_def answer_def handled_error_def unavailable_def)
  qed
  show "\<exists>a'. serve C now req a = (a', not_ready (rq_id req)) \<and> the_store a' = the_store a" if "readiness_probe req"
    using that off r t
    by (simp add: serve_def answer_def route_def readiness_probe_def readiness_def verify_connectivity_def session_def not_ready_def)
  show "snd (serve C now req b) = snd (serve C now req a)"
    if "\<not> needs_store C now req" "\<not> readiness_probe req" "a_counts b = a_counts a"
    using r t that(3) snd_answer_cong[OF route_without_store[OF that(1,2)]] by (simp add: serve_def)
qed

section \<open>The ranking\<close>

definition well_ranked ::
  "history_row list \<Rightarrow> (string, string) pydict \<Rightarrow> pydatetime \<Rightarrow> int \<Rightarrow> nat \<Rightarrow> prediction list \<Rightarrow> bool" where
  \<comment> \<open>at most n predictions, one an action, best first, each repeating the newest row of its action,
    and no action left out while there was room or while it scored higher\<close>
  "well_ranked hs kw now days n ps = (length ps \<le> n \<and> distinct (map pr_actionType ps) \<and>
     sorted_wrt (\<lambda>p q. pr_confidence q \<le> pr_confidence p) ps \<and>
     (\<forall>p \<in> set ps. grounded hs p \<and> 6/100 \<le> pr_confidence p \<and> pr_confidence p \<le> 1) \<and>
     (\<forall>(a, c) \<in> set (candidates_of hs). a \<notin> pr_actionType ` set ps \<longrightarrow>
        length ps = n \<and> (\<forall>p \<in> set ps. pr_confidence (score_candidate a c kw now days) \<le> pr_confidence p)))"

lemma well_ranked_take: "well_ranked hs kw now days n (take n (rank_candidates (candidates_of hs) kw now days))"
proof -
  let ?all = "rank_candidates (candidates_of hs) kw now days"
  have m: "set (take n ?all) \<subseteq> set ?all" by (rule set_take_subset)
  have d: "sorted_wrt (\<lambda>p q. pr_confidence q \<le> pr_confidence p) (take n ?all @ drop n ?all)"
    unfolding append_take_drop_id by (rule ranked_sorted)
  have out: "length (take n ?all) = n \<and>
      (\<forall>p \<in> set (take n ?all). pr_confidence (score_candidate a c kw now days) \<le> pr_confidence p)"
    if c: "(a, c) \<in> set (candidates_of hs)" and a: "a \<notin> pr_actionType ` set (take n ?all)" for a c
  proof -
    let ?p = "score_candidate a c kw now days"
    have "?p \<in> set ?all" using c unfolding rank_candidates_all set_sort_desc set_map
      by (intro image_eqI[of _ _ "(a, c)"]) simp_all
    moreover have "pr_actionType ?p = a" by simp
    then have "?p \<notin> set (take n ?all)" using a by (metis imageI)
    ultimately have p: "?p \<in> set (drop n ?all)" by (metis Un_iff append_take_drop_id set_append)
    then have "drop n ?all \<noteq> []" by (metis empty_iff set_empty)
    then show ?thesis using d p unfolding sorted_wrt_append by simp
  qed
  show ?thesis unfolding well_ranked_def
  proof (intro conjI ballI)
    show "distinct (map pr_actionType (take n ?all))" using distinct_take[OF distinct_ranked] by (simp only: take_map)
    show "grounded hs p" "6/100 \<le> pr_confidence p" "pr_confidence p \<le> 1" if "p \<in> set (take n ?all)" for p
      using ranked_grounded[of p hs kw now days] m that by blast+
    show "sorted_wrt (\<lambda>p q. pr_confidence q \<le> pr_confidence p) (take n ?all)"
      using d unfolding sorted_wrt_append by blast
  qed (use out in auto)
qed

lemma score_well_ranked:
  assumes "store_ok s" "0 \<le> n"
  shows "\<exists>hs ps. collect_history (\<lambda>t u d. get_user_history s t u d None) (get_canonical_user_id s)
      (get_cross_app_history s) tenant user days = Inr hs \<and>
    score (\<lambda>t u d. get_user_history s t u d None) (get_canonical_user_id s) (get_cross_app_history s)
      mappings now tenant user trigger n days = Inr ps \<and>
    well_ranked hs (match_keywords mappings trigger) now days (nat n) ps"
  using store_score_total[OF assms(1), of tenant user days mappings now trigger n] well_ranked_take
  unfolding slice_to_nonneg[OF assms(2)] by blast

end
