(* ===== verification/Mcp.thy ===== *)
theory Mcp
  imports ReadSpec
begin

text \<open>
  \<open>mcp/server.py\<close>: the two tools of the MCP server over the scorer, the detector and the
  store that the REST routes use. The protocol around them is a third party's.
\<close>

section \<open>The tools\<close>

record app_context =
  x_graph_store :: store
  x_generator :: generator
  x_min_events :: int

definition DEFAULT_HISTORY_DAYS :: int where
  \<comment> \<open>the default of \<open>history_days\<close> of \<open>score\<close>, which the tool does not pass\<close>
  "DEFAULT_HISTORY_DAYS = 14"

definition build_lifespan :: "settings \<Rightarrow> store \<Rightarrow> py_error + app_context" where
  \<comment> \<open>the store is initialised before the first call\<close>
  "build_lifespan cfg s = ebind (initialize s) (\<lambda>s'.
     ebind (build_profile_generator (profile_generator_backend cfg)) (\<lambda>g.
     Inr \<lparr>x_graph_store = s', x_generator = g, x_min_events = profile_min_events_to_generate cfg\<rparr>))"

definition resolve_user_intent ::
  "app_context \<Rightarrow> pydatetime \<Rightarrow> string \<Rightarrow> string \<Rightarrow> string \<Rightarrow> int \<Rightarrow> py_error + prediction list" where
  "resolve_user_intent X now tenant user trigger_text max_predictions =
     score (\<lambda>t u d. get_user_history (x_graph_store X) t u d None) (get_canonical_user_id (x_graph_store X))
       (get_cross_app_history (x_graph_store X)) DEFAULT_MAPPINGS now tenant user (Some trigger_text)
       max_predictions DEFAULT_HISTORY_DAYS"

record mcp_profile =
  mp_userId :: string
  mp_profile :: string
  mp_generatedAt :: "string option"
  mp_version :: "int option"
  mp_totalEvents :: nat
  mp_applications :: "(string, string list) pydict"

datatype mcp_answer = InsufficientData string | McpProfile mcp_profile

definition profile_payload ::
  "string \<Rightarrow> string \<Rightarrow> string option \<Rightarrow> int option \<Rightarrow> user_patterns \<Rightarrow> mcp_profile" where
  "profile_payload user profile_text generated_at version patterns =
     \<lparr>mp_userId = user, mp_profile = profile_text, mp_generatedAt = generated_at, mp_version = version,
      mp_totalEvents = up_total_events patterns,
      mp_applications = map (\<lambda>(app, ps). (app, map ap_action_type ps)) (up_by_application patterns)\<rparr>"

definition get_user_profile_tool ::
  "app_context \<Rightarrow> pydatetime \<Rightarrow> string \<Rightarrow> string \<Rightarrow> py_error + mcp_answer" where
  "get_user_profile_tool X now tenant user =
     (let s = x_graph_store X
      in ebind (detect (\<lambda>t u d. get_user_history s t u d None) (get_user_event_count s) now tenant user) (\<lambda>patterns.
         if int (up_total_events patterns) < x_min_events X then
           Inr (InsufficientData (insufficient_detail (x_min_events X)))
         else ebind (get_user_profile s tenant user) (\<lambda>stored. case stored of
           Some p \<Rightarrow> Inr (McpProfile (profile_payload user (nlqProfile p)
             (map_option isoformat (profileGeneratedAt p)) (profileVersion p) patterns))
         | None \<Rightarrow> ebind (generate (x_generator X) patterns) (\<lambda>txt.
             Inr (McpProfile (profile_payload user txt None None patterns))))))"

section \<open>The tools and the routes\<close>

definition mcp_of_response :: "profile_response \<Rightarrow> mcp_profile" where
  \<comment> \<open>the part of a REST profile that the tool returns\<close>
  "mcp_of_response r = \<lparr>mp_userId = pf_userId r, mp_profile = pf_profile r,
     mp_generatedAt = map_option isoformat (pf_generatedAt r), mp_version = pf_version r,
     mp_totalEvents = pf_totalEvents r,
     mp_applications = map (\<lambda>(app, ps). (app, map apo_actionType ps)) (pf_byApplication r)\<rparr>"

definition mcp_view :: "int \<Rightarrow> py_error + profile_response \<Rightarrow> py_error + mcp_answer" where
  \<comment> \<open>what the tool makes of the route's outcome: too little data is an answer, not an error\<close>
  "mcp_view minimum r = (case r of
     Inl (InsufficientDataError u n m) \<Rightarrow> Inr (InsufficientData (insufficient_detail minimum))
   | Inl e \<Rightarrow> Inl e
   | Inr p \<Rightarrow> Inr (McpProfile (mcp_of_response p)))"

lemma mcp_of_to_response:
  "mcp_of_response (to_response u t g v p) = profile_payload u t (map_option isoformat g) v p"
  by (simp add: mcp_of_response_def to_response_def profile_payload_def out_pattern_def case_prod_beta comp_def)

lemma resolve_user_intent_rest:
  assumes "prediction_history_days cfg = 14"
  shows "resolve_user_intent X now tenant user text n = ebind
    (resolve_intent (\<lambda>t u d. get_user_history (x_graph_store X) t u d None) (get_canonical_user_id (x_graph_store X))
       (get_cross_app_history (x_graph_store X)) DEFAULT_MAPPINGS cfg now
       \<lparr>iq_tenant_id = tenant, iq_user_id = user, iq_user_id_type = typ,
        iq_trigger = Some \<lparr>t_source = src, t_text = Some text, t_timestamp = at'\<rparr>, iq_max_predictions = n\<rparr>)
    (\<lambda>r. Inr (ir_predictions r))"
proof -
  have e: "ebind m Inr = m" for m :: "py_error + prediction list" by (cases m) simp_all
  have b: "ebind (ebind m (\<lambda>x. Inr (f x))) (\<lambda>r. Inr (g r)) = ebind m (\<lambda>x. Inr (g (f x)))"
    for m :: "py_error + prediction list" and f :: "prediction list \<Rightarrow> intent_response" and g :: "intent_response \<Rightarrow> prediction list"
    by (cases m) simp_all
  show ?thesis
    unfolding resolve_user_intent_def resolve_intent_def Let_def b DEFAULT_HISTORY_DAYS_def
    by (simp add: assms e)
qed

lemma profile_tool_rest:
  assumes s: "store_ok (x_graph_store X)" and g: "x_generator X = TemplateGenerator"
    and m: "x_min_events X = profile_min_events_to_generate cfg"
  shows "get_user_profile_tool X now tenant user = mcp_view (x_min_events X)
    (profile_route (\<lambda>t u d. get_user_history (x_graph_store X) t u d None) (get_user_event_count (x_graph_store X))
       (get_user_profile (x_graph_store X)) (generate (x_generator X)) cfg now user tenant)"
proof -
  obtain p where p: "detect (\<lambda>t u d. get_user_history (x_graph_store X) t u d None)
      (get_user_event_count (x_graph_store X)) now tenant user = Inr p"
    using store_detect_total[OF s, of tenant user now] by blast
  obtain q where q: "get_user_profile (x_graph_store X) tenant user = Inr q"
    using get_user_profile_eq[OF s] by blast
  show ?thesis
    by (cases q) (simp_all add: get_user_profile_tool_def profile_route_def Let_def p q g m mcp_view_def
        mcp_of_to_response generate_def)
qed

end
