(* ===== verification/Contract.thy ===== *)
theory Contract
  imports Schema
begin

text \<open>
  Events as producers write them: the shape that the Jira connector, the log listener and the
  sample generators give an event, with what the contract asks of each of its fields.
\<close>

section \<open>The parts\<close>

definition contract_tenant :: "string \<Rightarrow> bool" where
  "contract_tenant t = (matches_plus tenant_chars t \<and> t \<noteq> [])"

lemma valid_tenant [simp]:
  "valid [TypeIs [''string''], PatternPlus tenant_chars, MinLength (Suc 0)] (JStr t) = contract_tenant t"
  by (auto simp: valid_def json_type_def contract_tenant_def Suc_le_eq)

lemma contract_tenant_chars: "t \<noteq> [] \<Longrightarrow> set t \<subseteq> set tenant_chars \<Longrightarrow> contract_tenant t"
proof -
  assume t: "t \<noteq> []" "set t \<subseteq> set tenant_chars"
  have n: "\<forall>c \<in> set tenant_chars. code c \<noteq> 10" by code_simp
  then have "code (last t) \<noteq> 10" using t by (meson last_in_set subsetD)
  then show ?thesis using t by (auto simp: contract_tenant_def matches_plus_def drop_final_newline_def)
qed

lemma valid_version [simp]: "valid [TypeIs [''string''], Const (JStr ''1.0.0'')] (JStr v) = (v = ''1.0.0'')"
  by (auto simp: valid_def json_type_def)

section \<open>The whole\<close>

definition event_fields ::
  "string \<Rightarrow> string \<Rightarrow> string \<Rightarrow> string \<Rightarrow> string \<Rightarrow> string \<Rightarrow> json \<Rightarrow> json \<Rightarrow> json \<Rightarrow> json \<Rightarrow> (string \<times> json) list" where
  "event_fields event_id tenant app inst env ts actor action obj source =
     [(''schemaVersion'', JStr ''1.0.0''), (''eventId'', JStr event_id), (''tenantId'', JStr tenant),
      (''applicationId'', JStr app), (''applicationInstanceId'', JStr inst), (''environment'', JStr env),
      (''eventTimestamp'', JStr ts), (''actor'', actor), (''action'', action), (''object'', obj), (''source'', source)]"

lemma valid_event_fields:
  assumes "contract_tenant tenant" "app \<noteq> []" "inst \<noteq> []" "env \<in> set environments" "valid actor_schema actor"
    "valid action_schema action" "valid object_ref_schema obj" "valid source_schema source"
    "context = [] \<or> (\<exists>c. context = [(''context'', c)] \<and> valid context_schema c)"
  shows "valid event_schema (JObj (event_fields event_id tenant app inst env ts actor action obj source @ context))"
  unfolding event_schema_def valid_object_schema event_fields_def event_required_def
  using assms by auto

lemma event_fields_get [simp]:
  "map_of (event_fields i t a n e ts ac x ob so @ ctx) ''eventId'' = Some (JStr i)"
  "map_of (event_fields i t a n e ts ac x ob so @ ctx) ''tenantId'' = Some (JStr t)"
  "map_of (event_fields i t a n e ts ac x ob so @ ctx) ''eventTimestamp'' = Some (JStr ts)"
  "map_of (event_fields i t a n e ts ac x ob so @ ctx) ''applicationId'' = Some (JStr a)"
  "map_of (event_fields i t a n e ts ac x ob so @ ctx) ''actor'' = Some ac"
  "map_of (event_fields i t a n e ts ac x ob so @ ctx) ''action'' = Some x"
  "map_of (event_fields i t a n e ts ac x ob so @ ctx) ''object'' = Some ob"
  by (simp_all add: event_fields_def)

lemma valid_actor_plain:
  "u \<noteq> [] \<Longrightarrow> ty \<in> set user_id_types \<Longrightarrow>
     valid actor_schema (JObj [(''nativeUserId'', JStr u), (''userIdType'', JStr ty)])"
  by (auto simp: actor_schema_def valid_object_schema)

lemma valid_actor_roles:
  "u \<noteq> [] \<Longrightarrow> ty \<in> set user_id_types \<Longrightarrow>
     valid actor_schema (JObj [(''nativeUserId'', JStr u), (''userIdType'', JStr ty), (''roles'', JList (map JStr rs))])"
  by (auto simp: actor_schema_def valid_object_schema)

lemma valid_action_plain:
  "a \<noteq> [] \<Longrightarrow> c \<in> set action_categories \<Longrightarrow>
     valid action_schema (JObj [(''type'', JStr a), (''category'', JStr c)])"
  by (auto simp: action_schema_def valid_object_schema)

lemma valid_action_metadata:
  "a \<noteq> [] \<Longrightarrow> c \<in> set action_categories \<Longrightarrow>
     valid action_schema (JObj [(''type'', JStr a), (''category'', JStr c), (''metadata'', JObj m)])"
  by (auto simp: action_schema_def valid_object_schema)

lemma valid_object_plain:
  "ty \<noteq> [] \<Longrightarrow> i \<noteq> [] \<Longrightarrow>
     valid object_ref_schema (JObj [(''objectType'', JStr ty), (''objectId'', JStr i)])"
  by (auto simp: object_ref_schema_def valid_object_schema)

lemma valid_object_details:
  "ty \<noteq> [] \<Longrightarrow> i \<noteq> [] \<Longrightarrow>
     valid object_ref_schema (JObj [(''objectType'', JStr ty), (''objectId'', JStr i), (''objectDetails'', JObj m)])"
  by (auto simp: object_ref_schema_def valid_object_schema)

lemma valid_source_plain:
  "c \<noteq> [] \<Longrightarrow> v \<noteq> [] \<Longrightarrow>
     valid source_schema (JObj [(''connector'', JStr c), (''connectorVersion'', JStr v)])"
  by (auto simp: source_schema_def valid_object_schema)

lemmas contract_parts = valid_actor_plain valid_actor_roles valid_action_plain valid_action_metadata
  valid_object_plain valid_object_details valid_source_plain

end
