(* ===== verification/Calendar.thy ===== *)
theory Calendar
  imports IsoFormat
begin

text \<open>
  The calendar functions of \<open>IsoFormat\<close> are inverse to each other, and a timestamp that
  \<open>isoformat\<close> wrote reads back as the instant it was written from.
\<close>

section \<open>Ordinals and dates\<close>

lemma upto_12: "[1..12] = [1,2,3,4,5,6,7,8,9,10,11,12::int]"
  by (simp add: upto_rec1)

lemma days_before_month_eq:
  "days_before_month y 1 = 0" "days_before_month y 2 = 31"
  "days_before_month y 3 = (if is_leap y then 60 else 59)"
  "days_before_month y 4 = (if is_leap y then 91 else 90)"
  "days_before_month y 5 = (if is_leap y then 121 else 120)"
  "days_before_month y 6 = (if is_leap y then 152 else 151)"
  "days_before_month y 7 = (if is_leap y then 182 else 181)"
  "days_before_month y 8 = (if is_leap y then 213 else 212)"
  "days_before_month y 9 = (if is_leap y then 244 else 243)"
  "days_before_month y 10 = (if is_leap y then 274 else 273)"
  "days_before_month y 11 = (if is_leap y then 305 else 304)"
  "days_before_month y 12 = (if is_leap y then 335 else 334)"
  by (simp_all add: days_before_month_def days_in_month_def upto_rec1)

definition month_of :: "int \<Rightarrow> int \<Rightarrow> int" where
  \<comment> \<open>the month of the day of the year, as \<open>ord2ymd\<close> finds it\<close>
  "month_of y r = (case filter (\<lambda>m. days_before_month y m \<le> r) (rev [1..12]) of [] \<Rightarrow> 1 | m # _ \<Rightarrow> m)"

lemma month_of_valid:
  assumes "0 \<le> r" "r < (if is_leap y then 366 else 365)"
  shows "1 \<le> month_of y r \<and> month_of y r \<le> 12 \<and> days_before_month y (month_of y r) \<le> r \<and>
    r - days_before_month y (month_of y r) < days_in_month y (month_of y r)"
proof (cases "is_leap y")
  case True
  then show ?thesis using assms
    by (simp add: month_of_def upto_12 days_before_month_eq days_in_month_def)
next
  case False
  then show ?thesis using assms
    by (simp add: month_of_def upto_12 days_before_month_eq days_in_month_def)
qed

lemma days_before_year_cycles:
  assumes "0 \<le> b" "b \<le> 3" "0 \<le> c" "c \<le> 24" "0 \<le> d" "d \<le> 3"
  shows "days_before_year (400 * a + 100 * b + 4 * c + d + 1) = 146097 * a + 36524 * b + 1461 * c + 365 * d"
    and "is_leap (400 * a + 100 * b + 4 * c + d + 1) \<longleftrightarrow> d = 3 \<and> (c \<noteq> 24 \<or> b = 3)"
proof -
  let ?p = "400 * a + 100 * b + 4 * c + d"
  have "?p div 4 = 100 * a + 25 * b + c" "?p div 100 = 4 * a + b" "?p div 400 = a" using assms by auto
  then show "days_before_year (?p + 1) = 146097 * a + 36524 * b + 1461 * c + 365 * d"
    by (simp add: days_before_year_def Let_def)
  have z: "x mod k = 0 \<longleftrightarrow> x = k" if "0 < x" "x \<le> k" for x k :: int
    using that by (cases "x = k") auto
  have "(?p + 1) mod 4 = (d + 1) mod 4" using mod_mult_self2[of "d + 1" 4 "100 * a + 25 * b + c"] by (simp add: algebra_simps)
  then have m4: "(?p + 1) mod 4 = 0 \<longleftrightarrow> d = 3" using z[of "d + 1" 4] assms by auto
  have "(?p + 1) mod 100 = (4 * c + d + 1) mod 100"
    using mod_mult_self2[of "4 * c + d + 1" 100 "4 * a + b"] by (simp add: algebra_simps)
  moreover have "4 * c + d + 1 = 100 \<longleftrightarrow> d = 3 \<and> c = 24" using assms by presburger
  ultimately have m100: "(?p + 1) mod 100 = 0 \<longleftrightarrow> d = 3 \<and> c = 24" using z[of "4 * c + d + 1" 100] assms by simp
  have "(?p + 1) mod 400 = (100 * b + 4 * c + d + 1) mod 400"
    using mod_mult_self2[of "100 * b + 4 * c + d + 1" 400 a] by (simp add: algebra_simps)
  moreover have "100 * b + 4 * c + d + 1 = 400 \<longleftrightarrow> d = 3 \<and> c = 24 \<and> b = 3" using assms by presburger
  ultimately have m400: "(?p + 1) mod 400 = 0 \<longleftrightarrow> d = 3 \<and> c = 24 \<and> b = 3"
    using z[of "100 * b + 4 * c + d + 1" 400] assms by simp
  show "is_leap (?p + 1) \<longleftrightarrow> d = 3 \<and> (c \<noteq> 24 \<or> b = 3)" unfolding is_leap_def m4 m100 m400 by blast
qed

lemma div_pred: "0 < k \<Longrightarrow> y div k = (y - 1) div k + (if y mod k = 0 then 1 else 0)" for k y :: int
proof -
  assume k: "0 < k"
  show ?thesis
  proof (cases "y mod k = 0")
    case True
    then have "y - 1 = (y div k - 1) * k + (k - 1)" using div_mult_mod_eq[of y k] by (simp add: algebra_simps)
    then have "(y - 1) div k = y div k - 1" using k by (intro int_div_pos_eq[of _ _ _ "k - 1"]) (simp_all add: mult.commute)
    then show ?thesis using True by simp
  next
    case False
    then have "y - 1 = y div k * k + (y mod k - 1)" using div_mult_mod_eq[of y k] by simp
    moreover have "0 < y mod k" "y mod k < k" using k False pos_mod_bound[of k y] pos_mod_sign[of k y] by linarith+
    ultimately have "y - 1 = k * (y div k) + (y mod k - 1)" "0 \<le> y mod k - 1" "y mod k - 1 < k" by (simp_all add: mult.commute)
    then have "(y - 1) div k = y div k" by (rule int_div_pos_eq)
    then show ?thesis using False by simp
  qed
qed

lemma numeral_dvd_centuries: "(100::int) dvd 400" "(4::int) dvd 100"
  by simp_all

lemma century_arith:
  fixes y A B C :: int
  assumes "r \<longrightarrow> q" "q \<longrightarrow> p"
  shows "365 * y + (A + (if p then 1 else 0)) - (B + (if q then 1 else 0)) + (C + (if r then 1 else 0))
    = 365 * (y - 1) + A - B + C + (if p \<and> (\<not> q \<or> r) then 335 else 334) + 31"
  using assms by (cases p; cases q; cases r) simp_all

lemma december_31: "days_before_year (y + 1) = days_before_year y + days_before_month y 12 + 31"
proof -
  have m: "y mod 400 = 0 \<longrightarrow> y mod 100 = 0" "y mod 100 = 0 \<longrightarrow> y mod 4 = 0"
    by (metis dvd_trans mod_0_imp_dvd dvd_imp_mod_0 dvd_triv_left numeral_dvd_centuries(1))
       (metis dvd_trans mod_0_imp_dvd dvd_imp_mod_0 numeral_dvd_centuries(2))
  have d: "y div 4 = (y - 1) div 4 + (if y mod 4 = 0 then 1 else 0)"
    "y div 100 = (y - 1) div 100 + (if y mod 100 = 0 then 1 else 0)"
    "y div 400 = (y - 1) div 400 + (if y mod 400 = 0 then 1 else 0)"
    by (rule div_pred; simp)+
  have e: "days_before_year (y + 1) = 365 * y + y div 4 - y div 100 + y div 400"
    "days_before_year y = 365 * (y - 1) + (y - 1) div 4 - (y - 1) div 100 + (y - 1) div 400"
    by (simp_all add: days_before_year_def Let_def)
  show ?thesis
    unfolding e days_before_month_eq is_leap_def unfolding d by (rule century_arith[OF m])
qed

lemma ord2ymd_month_of:
  "ord2ymd n = (let n0 = n - 1; a = n0 div 146097; r400 = n0 mod 146097; b = r400 div 36524; r100 = r400 mod 36524;
      c = r100 div 1461; r4 = r100 mod 1461; d = r4 div 365; r = r4 mod 365; y = 400 * a + 100 * b + 4 * c + d + 1
    in if d = 4 \<or> b = 4 then (y - 1, 12, 31) else (y, month_of y r, r - days_before_month y (month_of y r) + 1))"
  by (simp add: ord2ymd_def month_of_def Let_def algebra_simps)

lemma ord2ymd_inverse:
  assumes "1 \<le> n" "n \<le> max_ordinal" "ord2ymd n = (y, m, d)"
  shows "valid_ymd y m d" "ymd2ord y m d = n"
proof -
  define a where "a = (n - 1) div 146097"
  define r400 where "r400 = (n - 1) mod 146097"
  define b where "b = r400 div 36524"
  define r100 where "r100 = r400 mod 36524"
  define c where "c = r100 div 1461"
  define r4 where "r4 = r100 mod 1461"
  define e where "e = r4 div 365"
  define r where "r = r4 mod 365"
  note ds = a_def r400_def b_def r100_def c_def r4_def e_def r_def
  have n: "n = 146097 * a + 36524 * b + 1461 * c + 365 * e + r + 1" unfolding ds by presburger
  have r400: "0 \<le> r400" "r400 < 146097" unfolding r400_def by simp_all
  have b: "0 \<le> b" "b \<le> 4" using r400 unfolding b_def by auto
  have r100: "0 \<le> r100" "r100 < 36524" unfolding r100_def by simp_all
  have c: "0 \<le> c" "c \<le> 24" using r100 unfolding c_def by auto
  have r4: "0 \<le> r4" "r4 < 1461" unfolding r4_def by simp_all
  have e: "0 \<le> e" "e \<le> 4" using r4 unfolding e_def by auto
  have r: "0 \<le> r" "r < 365" unfolding r_def by simp_all
  have a: "0 \<le> a" using assms(1) unfolding a_def by (simp add: pos_imp_zdiv_nonneg_iff)
  let ?y = "400 * a + 100 * b + 4 * c + e + 1"
  have o: "(y, m, d) = (if e = 4 \<or> b = 4 then (?y - 1, 12, 31)
      else (?y, month_of ?y r, r - days_before_month ?y (month_of ?y r) + 1))"
    unfolding assms(3)[symmetric] ord2ymd_month_of Let_def ds ..
  have "ymd2ord y m d = n \<and> 1 \<le> m \<and> m \<le> 12 \<and> 1 \<le> d \<and> d \<le> days_in_month y m"
  proof (cases "e = 4 \<or> b = 4")
    case False
    then have e3: "e \<le> 3" "b \<le> 3" using e b by auto
    note k = days_before_year_cycles[OF b(1) e3(2) c e(1) e3(1)]
    have "r < (if is_leap ?y then 366 else 365)" using r by auto
    note v = month_of_valid[OF r(1) this]
    have y: "y = ?y" "m = month_of ?y r" "d = r - days_before_month ?y m + 1" using o False by auto
    show ?thesis using v k(1)[of a] n unfolding y ymd2ord_def by simp
  next
    case True
    have y: "y = ?y - 1" "m = 12" "d = 31" using o True by auto
    have "days_before_year (y + 1) + 1 = n + 1"
    proof (cases "b = 4")
      case b4: True
      have "r400 = 146096" using b4 r400 unfolding b_def by auto
      then have "r100 = 0" unfolding r100_def by simp
      then have z: "c = 0" "e = 0" "r = 0" unfolding c_def r4_def e_def r_def by simp_all
      have "days_before_year (400 * (a + 1) + 100 * 0 + 4 * 0 + 0 + 1) = 146097 * (a + 1)"
        using days_before_year_cycles(1)[of 0 0 0 "a + 1"] by simp
      then show ?thesis using n y(1) z b4 by simp
    next
      case b4: False
      then have e4: "e = 4" "b \<le> 3" using True b by auto
      have r4': "r4 = 1460" "r = 0" using e4(1) r4 div_mult_mod_eq[of r4 365] r unfolding e_def r_def by simp_all
      have c23: "c \<le> 23"
      proof (rule ccontr)
        assume "\<not> c \<le> 23"
        then have "c = 24" using c by simp
        then have "r100 = 1461 * 24 + r4" unfolding r4_def using div_mult_mod_eq[of r100 1461] by (simp add: c_def)
        then show False using r4'(1) r100 by simp
      qed
      have "days_before_year (400 * a + 100 * b + 4 * (c + 1) + 0 + 1) = 146097 * a + 36524 * b + 1461 * (c + 1)"
        using days_before_year_cycles(1)[of b "c + 1" 0 a] b(1) e4(2) c(1) c23 by simp
      moreover have "y + 1 = 400 * a + 100 * b + 4 * (c + 1) + 0 + 1" using y(1) e4(1) by simp
      ultimately show ?thesis using n e4(1) r4'(2) by simp
    qed
    then have "ymd2ord y m d = n" using december_31[of y] unfolding y(2,3) ymd2ord_def by simp
    then show ?thesis unfolding y(2,3) by (simp add: days_in_month_def)
  qed
  moreover have "1 \<le> y \<and> y \<le> 9999"
  proof -
    have p: "1 \<le> ?y" using a b c e by simp
    have "?y - 1 \<noteq> 0" if "e = 4 \<or> b = 4" using that a b c e by auto
    then have y1: "1 \<le> y" using o p by (auto split: if_splits)
    have "n \<le> 3652059" using assms(2) by (simp add: max_ordinal_def)
    then have "a \<le> 24" using n b c e r by linarith
    then have "400 * a + 100 * b + 4 * c + e \<le> 9998"
    proof (cases "a = 24 \<and> b \<ge> 3")
      case True
      then have "b < 4" using n \<open>n \<le> 3652059\<close> c e r by linarith
      then have b3: "a = 24" "b = 3" using True by auto
      then have "c = 24 \<Longrightarrow> e < 3" using n \<open>n \<le> 3652059\<close> r by linarith
      then show ?thesis using b3 c e by (cases "c = 24") auto
    next
      case False
      then have "a \<le> 23 \<or> a \<le> 24 \<and> b \<le> 2" using \<open>a \<le> 24\<close> by linarith
      then show ?thesis using b c e by linarith
    qed
    then have "?y \<le> 9999" by simp
    then show ?thesis using o y1 by (auto split: if_splits)
  qed
  ultimately show "valid_ymd y m d" "ymd2ord y m d = n" by (auto simp: valid_ymd_def)
qed

section \<open>Texts\<close>

definition min_instant :: int where
  "min_instant = (1 - epoch_ordinal) * us_per_day"

definition max_instant :: int where
  \<comment> \<open>the first instant after the year 9999\<close>
  "max_instant = (max_ordinal + 1 - epoch_ordinal) * us_per_day"

definition in_calendar :: "int \<Rightarrow> bool" where
  "in_calendar t = (min_instant \<le> t \<and> t < max_instant)"

lemma length_show_nat: "n < 10 ^ Suc k \<Longrightarrow> length (show_nat n) \<le> Suc k"
proof (induction k arbitrary: n)
  case 0
  then show ?case by (simp add: show_nat.simps[of n])
next
  case (Suc k)
  then have "n div 10 < 10 ^ Suc k" by auto
  then show ?case using Suc.IH[of "n div 10"] by (simp add: show_nat.simps[of n])
qed

lemma length_zfill: "n < 10 ^ Suc k \<Longrightarrow> length (zfill (Suc k) (show_nat n)) = Suc k"
  using length_show_nat[of n k] by (simp add: zfill_def)

lemma digits_zfill: "c \<in> set (zfill w (show_nat n)) \<Longrightarrow> is_digit c"
  using digits_show_nat by (auto simp: zfill_def is_digit_def code_def)

lemma read_zfill_nat: "read_digits 0 (zfill w (show_nat n)) = n"
  by (simp add: zfill_def read_digits_append read_zfill read_show_nat)

lemma digits_at_zfill:
  "0 \<le> k \<Longrightarrow> k < 10 ^ Suc w \<Longrightarrow> length a = p \<Longrightarrow>
     digits_at p (Suc w) (a @ zfill (Suc w) (show_nat (nat k)) @ b) = Some k"
proof -
  assume k: "0 \<le> k" "k < 10 ^ Suc w" and a: "length a = p"
  have "nat k < 10 ^ Suc w" using k by (simp add: nat_less_iff)
  then have l: "length (zfill (Suc w) (show_nat (nat k))) = Suc w" by (rule length_zfill)
  show ?thesis using a l k(1) digits_zfill by (auto simp: digits_at_def Let_def read_zfill_nat)
qed

lemma is_digit_neq:
  "is_digit c \<Longrightarrow> c \<noteq> CHR ''W'' \<and> c \<noteq> CHR ''-'' \<and> c \<noteq> CHR ''+'' \<and> c \<noteq> CHR ''Z'' \<and> c \<noteq> CHR '':'' \<and> c \<noteq> CHR ''.''"
  by (auto simp: is_digit_def code_def)

lemma two_first: "0 \<le> k \<Longrightarrow> k < 100 \<Longrightarrow> \<exists>x y. two k = [x, y] \<and> is_digit x \<and> is_digit y"
proof -
  assume k: "0 \<le> k" "k < 100"
  obtain x y where "two k = [x, y]" using length_two[OF k] by (auto simp: numeral_2_eq_2 length_Suc_conv)
  then show ?thesis using digits_two[of _ k] by auto
qed

definition ymd_text :: "int \<Rightarrow> int \<Rightarrow> int \<Rightarrow> string" where
  "ymd_text y m d = zfill 4 (show_nat (nat y)) @ ''-'' @ two m @ ''-'' @ two d"

lemma date_text_eq: "date_text n = (case ord2ymd n of (y, m, d) \<Rightarrow> ymd_text y m d)"
  by (simp add: date_text_def ymd_text_def split: prod.split)

lemma valid_ymd_bounds:
  "valid_ymd y m d \<Longrightarrow> 1 \<le> y \<and> y < 10 ^ Suc 3 \<and> 0 \<le> m \<and> m < 100 \<and> 0 \<le> d \<and> d < 100"
  by (auto simp: valid_ymd_def days_in_month_def split: if_splits)

lemma length_4: "length xs = 4 \<Longrightarrow> \<exists>a b c e. xs = [a, b, c, e]"
  by (auto simp: eval_nat_numeral length_Suc_conv)

lemma year_text:
  assumes "valid_ymd y m d"
  shows "\<exists>a b c e. zfill 4 (show_nat (nat y)) = [a, b, c, e]"
proof -
  have "nat y < 10 ^ Suc 3" using valid_ymd_bounds[OF assms] by (simp add: nat_less_iff)
  then have "length (zfill (Suc 3) (show_nat (nat y))) = Suc 3" by (rule length_zfill)
  then show ?thesis using length_4 by simp
qed

lemma length_ymd_text:
  assumes "valid_ymd y m d"
  shows "length (ymd_text y m d) = 10"
proof -
  obtain a b c e where "zfill 4 (show_nat (nat y)) = [a, b, c, e]" using year_text[OF assms] by blast
  then show ?thesis using valid_ymd_bounds[OF assms] by (simp add: ymd_text_def length_two)
qed

lemma parse_ymd_text:
  assumes v: "valid_ymd y m d"
  shows "parse_date (ymd_text y m d) = Some (ymd2ord y m d)"
proof -
  note b = valid_ymd_bounds[OF v]
  obtain a1 a2 a3 a4 where y: "zfill 4 (show_nat (nat y)) = [a1, a2, a3, a4]" using year_text[OF v] by blast
  obtain m1 m2 where m: "two m = [m1, m2]" "is_digit m1" using two_first[of m] b by blast
  obtain d1 d2 where d: "two d = [d1, d2]" using two_first[of d] b by blast
  have Y: "digits_at 0 4 (ymd_text y m d) = Some y"
    using digits_at_zfill[of y 3 "[]" 0 "''-'' @ two m @ ''-'' @ two d"] b by (simp add: ymd_text_def)
  have M: "digits_at 5 2 (ymd_text y m d) = Some m"
    using digits_at_two[of m "zfill 4 (show_nat (nat y)) @ ''-''" 5 "''-'' @ two d"] b y by (simp add: ymd_text_def)
  have D: "digits_at 8 2 (ymd_text y m d) = Some d"
    using digits_at_two[of d "zfill 4 (show_nat (nat y)) @ ''-'' @ two m @ ''-''" 8 "[]"] b y m by (simp add: ymd_text_def)
  have c: "char_at 4 (ymd_text y m d) = Some (CHR ''-'')" "char_at 5 (ymd_text y m d) = Some m1"
    "char_at 7 (ymd_text y m d) = Some (CHR ''-'')"
    by (simp_all add: ymd_text_def y m d char_at_def)
  have w: "m1 \<noteq> CHR ''W''" using is_digit_neq[OF m(2)] by simp
  show ?thesis
    unfolding parse_date_def using Y M D c w v length_ymd_text[OF v] by simp
qed

section \<open>The round trip\<close>

lemma parse_comps_clock:
  assumes "0 \<le> hh" "hh < 100" "0 \<le> mm" "mm < 100" "0 \<le> ss" "ss < 100"
    and f: "rest = [] \<and> fr = None \<or> (\<exists>f. f \<noteq> [] \<and> rest = ''.'' @ f \<and> fr = Some f)"
  shows "parse_comps 3 False (clock_text hh mm ss @ rest) = Some ([hh, mm, ss], fr)"
proof -
  have d: "digits_at 0 2 (two k @ b) = Some k" if "0 \<le> k" "k < 100" for k b
    using digits_at_two[of k "[]" 0 b] that by simp
  have n: "two k \<noteq> []" if "0 \<le> k" "k < 100" for k using length_two[OF that] by auto
  have "parse_comps 1 True (two ss @ rest) = Some ([ss], fr)"
    using d[of ss rest] drop_two[of ss rest] assms(5,6) f by auto
  then have "parse_comps 2 True (two mm @ '':'' @ two ss @ rest) = Some ([mm, ss], fr)"
    using d[of mm] drop_two[of mm] n[of ss] assms by (simp add: numeral_2_eq_2)
  then have "parse_comps 3 False (two hh @ '':'' @ two mm @ '':'' @ two ss @ rest) = Some ([hh, mm, ss], fr)"
    using d[of hh] drop_two[of hh] n[of mm] assms by (simp add: numeral_3_eq_3 numeral_2_eq_2)
  then show ?thesis by (simp add: clock_text_def)
qed

lemma parse_micro:
  assumes "0 \<le> us" "us < 1000000"
  shows "parse_fraction (zfill 6 (show_nat (nat us))) = Some us" "zfill 6 (show_nat (nat us)) \<noteq> []"
proof -
  have "nat us < 10 ^ Suc 5" using assms by (simp add: nat_less_iff)
  then have "length (zfill (Suc 5) (show_nat (nat us))) = Suc 5" by (rule length_zfill)
  then have l: "length (zfill 6 (show_nat (nat us))) = 6" by simp
  then show n: "zfill 6 (show_nat (nat us)) \<noteq> []" by auto
  show "parse_fraction (zfill 6 (show_nat (nat us))) = Some us"
    using l n digits_zfill[of _ 6 "nat us"] assms by (auto simp: parse_fraction_def read_zfill_nat)
qed

lemma parse_clock_micro:
  assumes "0 \<le> hh" "hh < 100" "0 \<le> mm" "mm < 100" "0 \<le> ss" "ss < 100" "0 \<le> us" "us < 1000000"
  shows "parse_clock (clock_text hh mm ss @ micro_text us) = Some (hh, mm, ss, us)"
proof (cases "us = 0")
  case True
  then show ?thesis using parse_comps_clock[OF assms(1-6), of "[]" None]
    by (simp add: parse_clock_def micro_text_def numeral_eq_Suc)
next
  case False
  then show ?thesis
    using parse_comps_clock[OF assms(1-6), of "micro_text us" "Some (zfill 6 (show_nat (nat us)))"] parse_micro[OF assms(7,8)]
    by (simp add: parse_clock_def micro_text_def numeral_eq_Suc)
qed

lemma clock_no_zone: "0 \<le> hh \<Longrightarrow> hh < 100 \<Longrightarrow> 0 \<le> mm \<Longrightarrow> mm < 100 \<Longrightarrow> 0 \<le> ss \<Longrightarrow> ss < 100 \<Longrightarrow>
    c \<in> set (clock_text hh mm ss @ micro_text us) \<Longrightarrow> \<not> is_zone_start c"
  using digits_two[of c] digits_zfill[of c 6 "nat us"] is_digit_neq[of c]
  by (auto simp: clock_text_def micro_text_def is_zone_start_def split: if_splits)

lemma split_zone_append: "(\<And>c. c \<in> set k \<Longrightarrow> \<not> is_zone_start c) \<Longrightarrow> is_zone_start z \<Longrightarrow>
    split_zone (k @ z # zs) = (k, z # zs)"
  by (simp add: split_zone_def takeWhile_append dropWhile_append)

lemma find_separator_ymd:
  assumes v: "valid_ymd y m d"
  shows "find_separator (ymd_text y m d @ ''T'' @ rest) = Some 10"
proof -
  obtain a1 a2 a3 a4 where y: "zfill 4 (show_nat (nat y)) = [a1, a2, a3, a4]" using year_text[OF v] by blast
  obtain m1 m2 where m: "two m = [m1, m2]" "is_digit m1" using two_first[of m] valid_ymd_bounds[OF v] by blast
  have "m1 \<noteq> CHR ''W''" using is_digit_neq[OF m(2)] by simp
  then show ?thesis using length_ymd_text[OF v]
    by (simp add: find_separator_def ymd_text_def y m char_at_def)
qed

lemma fromisoformat_eq:
  assumes "\<not> length s < 7" "find_separator s = Some n" "n \<noteq> length s" "parse_date (take n s) = Some day"
    "split_zone (drop (n + 1) s) = (clk, zn)" "parse_clock clk = Some k" "parse_zone zn = Some z" "valid_clock k"
  shows "fromisoformat s = Some (DateTime ((day - epoch_ordinal) * us_per_day + clock_us k) z)"
  using assms by (simp add: fromisoformat_def)

lemma clock_arith:
  fixes a b c p q u :: int
  shows "a = b * 60 + p \<Longrightarrow> b = c * 60 + q \<Longrightarrow> c * 3600000000 + q * 60000000 + p * 1000000 + u = a * 1000000 + u"
  by simp

lemma fromisoformat_parts:
  assumes v: "valid_ymd y m d" and k: "0 \<le> hh" "hh < 24" "0 \<le> mm" "mm < 60" "0 \<le> ss" "ss < 60" "0 \<le> us" "us < 1000000"
  shows "fromisoformat (ymd_text y m d @ ''T'' @ clock_text hh mm ss @ micro_text us @ ''+00:00'') =
    Some (DateTime ((ymd2ord y m d - epoch_ordinal) * us_per_day + clock_us (hh, mm, ss, us)) (Some 0))"
proof -
  let ?k = "clock_text hh mm ss @ micro_text us"
  let ?s = "ymd_text y m d @ ''T'' @ ?k @ ''+00:00''"
  have f: "find_separator ?s = Some 10" using find_separator_ymd[OF v] by simp
  have l: "length (ymd_text y m d) = 10" by (rule length_ymd_text[OF v])
  have t: "parse_date (take 10 ?s) = Some (ymd2ord y m d)" "drop (10 + 1) ?s = ?k @ ''+00:00''"
    using l parse_ymd_text[OF v] by simp_all
  have z: "split_zone (drop (10 + 1) ?s) = (?k, ''+00:00'')"
    unfolding t(2) using split_zone_append[of ?k "CHR ''+''" "''00:00''"] clock_no_zone[of hh mm ss _ us] k
    by (simp add: is_zone_start_def)
  have c: "parse_clock ?k = Some (hh, mm, ss, us)" using parse_clock_micro[of hh mm ss us] k by simp
  have o: "parse_zone ''+00:00'' = Some (Some 0)" by code_simp
  have "\<not> length ?s < 7" "10 \<noteq> length ?s" using l by simp_all
  then have "fromisoformat ?s = Some (DateTime ((ymd2ord y m d - epoch_ordinal) * us_per_day + clock_us (hh, mm, ss, us)) (Some 0))"
    by (intro fromisoformat_eq[OF _ f _ t(1) z c o]) (use k in \<open>simp_all add: valid_clock_def\<close>)
  then show ?thesis by simp
qed

lemma clock_split:
  fixes r :: int
  assumes "0 \<le> r" "r < us_per_day"
  shows "clock_us (r div us_per_hour, r div us_per_minute mod 60, r div us_per_second mod 60, r mod us_per_second) = r"
    "0 \<le> r div us_per_hour" "r div us_per_hour < 24"
proof -
  have 1: "r = r div us_per_second * us_per_second + r mod us_per_second" by simp
  have 2: "r div us_per_second div 60 = r div us_per_minute" "r div us_per_minute div 60 = r div us_per_hour"
    by (simp_all add: us_defs zdiv_zmult2_eq[symmetric])
  have 3: "r div us_per_second = r div us_per_minute * 60 + r div us_per_second mod 60"
    "r div us_per_minute = r div us_per_hour * 60 + r div us_per_minute mod 60"
    using 2 by (metis div_mult_mod_eq)+
  show "clock_us (r div us_per_hour, r div us_per_minute mod 60, r div us_per_second mod 60, r mod us_per_second) = r"
    using clock_arith[OF 3, of "r mod us_per_second"] 1 unfolding clock_us_def us_defs prod.case by simp
  show "0 \<le> r div us_per_hour" using assms(1) by (simp add: us_defs pos_imp_zdiv_nonneg_iff)
  show "r div us_per_hour < 24" using assms(2) by (simp add: us_defs)
qed

lemma fromisoformat_isoformat:
  assumes "in_calendar t"
  shows "fromisoformat (isoformat_utc (utc t)) = Some (utc t)"
proof -
  define day where "day = t div us_per_day"
  define r where "r = t mod us_per_day"
  obtain y m d where ymd: "ord2ymd (day + epoch_ordinal) = (y, m, d)" by (cases "ord2ymd (day + epoch_ordinal)") auto
  have "1 \<le> day + epoch_ordinal" "day + epoch_ordinal \<le> max_ordinal"
    using assms by (auto simp: in_calendar_def min_instant_def max_instant_def day_def us_defs epoch_ordinal_def max_ordinal_def)
  note inv = ord2ymd_inverse[OF this ymd]
  have r: "0 \<le> r" "r < us_per_day" by (simp_all add: r_def us_defs)
  note k = clock_split[OF r]
  have us: "0 \<le> r mod us_per_second" "r mod us_per_second < 1000000" by (simp_all add: us_defs)
  have e: "isoformat_utc (utc t) = ymd_text y m d @ ''T'' @ clock_text (r div us_per_hour) (r div us_per_minute mod 60)
      (r div us_per_second mod 60) @ micro_text (r mod us_per_second) @ ''+00:00''"
    using ymd by (simp add: isoformat_utc_def Let_def ymd_text_def micro_text_def day_def r_def)
  have "t = day * us_per_day + r" by (simp add: day_def r_def)
  then show ?thesis
    unfolding e using fromisoformat_parts[OF inv(1) k(2,3) _ _ _ _ us] k(1) inv(2) by (simp add: utc_def)
qed

end
