(* ===== verification/Jira.thy ===== *)
theory Jira
  imports Contract Calendar
begin

text \<open>
  \<open>connectors/jira/transformer.py\<close>: a webhook payload as an event of the contract, or
  nothing. A payload is decoded JSON, so every access is a branch that may raise; the fresh id
  and the wall clock are arguments.
\<close>

section \<open>The mapping\<close>

definition CONNECTOR_NAME :: string where
  "CONNECTOR_NAME = ''jira-connector''"

definition CONNECTOR_VERSION :: string where
  "CONNECTOR_VERSION = ''1.0.0''"

definition CHANGELOG_FIELD_ACTIONS :: "(string \<times> (string \<times> string)) list" where
  "CHANGELOG_FIELD_ACTIONS = [(''status'', (''update_issue_status'', ''update'')),
     (''assignee'', (''assign_issue'', ''update''))]"

definition ISSUE_EVENTS :: "string list" where
  "ISSUE_EVENTS = [''jira:issue_created'', ''jira:issue_updated'', ''jira:issue_deleted'']"

definition SPRINT_EVENTS :: "string list" where
  "SPRINT_EVENTS = [''sprint_started'', ''sprint_closed'']"

definition changelog_action :: "json \<Rightarrow> py_error + (string \<times> string) option" where
  \<comment> \<open>\<open>_CHANGELOG_FIELD_ACTIONS.get(field)\<close>: a list or an object cannot be a key\<close>
  "changelog_action field = (case field of
     JStr f \<Rightarrow> Inr (map_of CHANGELOG_FIELD_ACTIONS f)
   | JList _ \<Rightarrow> Inl TypeError | JObj _ \<Rightarrow> Inl TypeError
   | _ \<Rightarrow> Inr None)"

fun first_mapped :: "json list \<Rightarrow> py_error + (string \<times> string) option" where
  "first_mapped [] = Inr None"
| "first_mapped (item # items) = ebind (py_get ''field'' item) (\<lambda>f. ebind (changelog_action f) (\<lambda>m. case m of
     Some a \<Rightarrow> Inr (Some a) | None \<Rightarrow> first_mapped items))"

definition resolve_issue_updated_action :: "json \<Rightarrow> py_error + (string \<times> string) option" where
  "resolve_issue_updated_action payload =
     ebind (py_get ''changelog'' payload) (\<lambda>changelog.
     ebind (py_get ''items'' (py_or changelog (JObj []))) (\<lambda>items.
     ebind (py_iter (py_or items (JList []))) first_mapped))"

definition resolve_action :: "json \<Rightarrow> json \<Rightarrow> py_error + (string \<times> string) option" where
  "resolve_action webhook_event payload =
     (if webhook_event = JStr ''jira:issue_created'' then Inr (Some (''create_issue'', ''create''))
      else if webhook_event = JStr ''jira:issue_deleted'' then Inr (Some (''delete_issue'', ''delete''))
      else if webhook_event = JStr ''jira:issue_updated'' then resolve_issue_updated_action payload
      else if webhook_event = JStr ''comment_created'' then Inr (Some (''add_comment'', ''create''))
      else if webhook_event = JStr ''sprint_started'' then Inr (Some (''start_sprint'', ''update''))
      else if webhook_event = JStr ''sprint_closed'' then Inr (Some (''close_sprint'', ''update''))
      else Inr None)"

definition resolve_actor :: "json \<Rightarrow> py_error + json option" where
  "resolve_actor payload = ebind (py_get ''user'' payload) (\<lambda>user.
     if \<not> truthy user then Inr None
     else ebind (py_get ''emailAddress'' user) (\<lambda>email.
       if truthy email then Inr (Some (JObj [(''nativeUserId'', email), (''userIdType'', JStr ''email'')]))
       else ebind (py_get ''accountId'' user) (\<lambda>account_id.
         if truthy account_id
         then Inr (Some (JObj [(''nativeUserId'', account_id), (''userIdType'', JStr ''app_native_id'')]))
         else Inr None)))"

definition resolve_issue_object :: "json \<Rightarrow> py_error + json option" where
  "resolve_issue_object payload = ebind (py_get ''issue'' payload) (\<lambda>issue.
     if \<not> truthy issue then Inr None
     else ebind (py_get ''key'' issue) (\<lambda>key.
       ebind (if truthy key then Inr key else py_get ''id'' issue) (\<lambda>issue_key.
       if \<not> truthy issue_key then Inr None
       else Inr (Some (JObj [(''objectType'', JStr ''issue''), (''objectId'', JStr (py_str issue_key))])))))"

definition issue_details :: "json \<Rightarrow> py_error + (string \<times> json) list" where
  \<comment> \<open>the \<open>objectDetails\<close> of a comment\<close>
  "issue_details payload = ebind (py_get ''issue'' payload) (\<lambda>issue.
     if \<not> truthy issue then Inr []
     else ebind (py_get ''key'' issue) (\<lambda>key.
       Inr (if truthy key then [(''objectDetails'', JObj [(''issueKey'', key)])] else [])))"

definition resolve_comment_object :: "json \<Rightarrow> py_error + json option" where
  "resolve_comment_object payload = ebind (py_get ''comment'' payload) (\<lambda>comment.
     if \<not> truthy comment then Inr None
     else ebind (py_get ''id'' comment) (\<lambda>i.
       if i = JNull then Inr None
       else ebind (issue_details payload) (\<lambda>ds.
         Inr (Some (JObj ([(''objectType'', JStr ''comment''), (''objectId'', JStr (py_str i))] @ ds))))))"

definition resolve_sprint_object :: "json \<Rightarrow> py_error + json option" where
  "resolve_sprint_object payload = ebind (py_get ''sprint'' payload) (\<lambda>sprint.
     if \<not> truthy sprint then Inr None
     else ebind (py_get ''id'' sprint) (\<lambda>i.
       if i = JNull then Inr None
       else Inr (Some (JObj [(''objectType'', JStr ''sprint''), (''objectId'', JStr (py_str i))]))))"

definition resolve_object :: "json \<Rightarrow> json \<Rightarrow> py_error + json option" where
  "resolve_object webhook_event payload = (case webhook_event of
     JStr w \<Rightarrow> if w \<in> set ISSUE_EVENTS then resolve_issue_object payload
       else if w = ''comment_created'' then resolve_comment_object payload
       else if w \<in> set SPRINT_EVENTS then resolve_sprint_object payload
       else Inr None
   | JList _ \<Rightarrow> Inl TypeError | JObj _ \<Rightarrow> Inl TypeError
   | _ \<Rightarrow> Inr None)"

section \<open>The timestamp\<close>

definition from_timestamp :: "real \<Rightarrow> py_error + pydatetime" where
  \<comment> \<open>\<open>datetime.fromtimestamp(seconds, tz=timezone.utc)\<close>, to the nearest microsecond\<close>
  "from_timestamp seconds = (let us = pyround (seconds * 1000000)
     in if \<bar>us\<bar> \<ge> 2 ^ 63 * 1000000 then Inl OverflowError
        else if min_instant \<le> us \<and> us < max_instant then Inr (utc us)
        else Inl (ValueError ''year is out of range''))"

definition json_number :: "json \<Rightarrow> real option" where
  \<comment> \<open>\<open>isinstance(raw, int | float)\<close>, booleans included\<close>
  "json_number j = (case j of
     JInt i \<Rightarrow> Some (of_int i)
   | JFloat m e \<Rightarrow> Some (of_int m * 10 powi e)
   | JBool b \<Rightarrow> Some (if b then 1 else 0)
   | _ \<Rightarrow> None)"

definition resolve_timestamp :: "pydatetime \<Rightarrow> json \<Rightarrow> py_error + string" where
  "resolve_timestamp now payload = ebind (py_get ''timestamp'' payload) (\<lambda>raw. case json_number raw of
     Some n \<Rightarrow> ebind (from_timestamp (n / 1000)) (\<lambda>t. Inr (isoformat t))
   | None \<Rightarrow> Inr (isoformat_utc now))"

section \<open>The event\<close>

definition transform ::
  "string \<Rightarrow> pydatetime \<Rightarrow> json \<Rightarrow> string \<Rightarrow> string \<Rightarrow> string \<Rightarrow> py_error + json option" where
  "transform event_id now payload tenant_id application_instance_id environment =
     ebind (py_get ''webhookEvent'' payload) (\<lambda>webhook_event.
     ebind (resolve_action webhook_event payload) (\<lambda>action. case action of
       None \<Rightarrow> Inr None
     | Some (action_type, action_category) \<Rightarrow>
     ebind (resolve_actor payload) (\<lambda>actor. case actor of
       None \<Rightarrow> Inr None
     | Some ac \<Rightarrow>
     ebind (resolve_object webhook_event payload) (\<lambda>obj. case obj of
       None \<Rightarrow> Inr None
     | Some ob \<Rightarrow>
     ebind (resolve_timestamp now payload) (\<lambda>ts.
     Inr (Some (JObj
       [(''schemaVersion'', JStr ''1.0.0''), (''eventId'', JStr event_id), (''tenantId'', JStr tenant_id),
        (''applicationId'', JStr ''jira''), (''applicationInstanceId'', JStr application_instance_id),
        (''environment'', JStr environment), (''eventTimestamp'', JStr ts), (''actor'', ac),
        (''action'', JObj [(''type'', JStr action_type), (''category'', JStr action_category)]),
        (''object'', ob),
        (''source'', JObj [(''connector'', JStr CONNECTOR_NAME), (''connectorVersion'', JStr CONNECTOR_VERSION)])])))))))"

section \<open>What comes out is an event\<close>

definition jira_actions :: "(string \<times> string) set" where
  "jira_actions = {(''create_issue'', ''create''), (''delete_issue'', ''delete''),
     (''update_issue_status'', ''update''), (''assign_issue'', ''update''), (''add_comment'', ''create''),
     (''start_sprint'', ''update''), (''close_sprint'', ''update'')}"

lemma first_mapped_action: "first_mapped items = Inr (Some a) \<Longrightarrow> a \<in> jira_actions"
proof (induction items)
  case (Cons item items)
  have "changelog_action f = Inr (Some a) \<Longrightarrow> a \<in> jira_actions" for f
    by (auto simp: changelog_action_def CHANGELOG_FIELD_ACTIONS_def jira_actions_def split: json.splits if_splits)
  then show ?case using Cons by (auto simp: res_simps split: option.splits)
qed simp

lemma resolve_action_known: "resolve_action w payload = Inr (Some a) \<Longrightarrow> a \<in> jira_actions"
  by (auto simp: resolve_action_def resolve_issue_updated_action_def res_simps jira_actions_def split: if_splits
      dest!: first_mapped_action)

lemma jira_actions_contract: "(a, c) \<in> jira_actions \<Longrightarrow> a \<noteq> [] \<and> c \<in> set action_categories"
  by (auto simp: jira_actions_def action_categories_def)

definition string_users :: "json \<Rightarrow> bool" where
  \<comment> \<open>the user's identifiers are strings, as Jira sends them\<close>
  "string_users payload = (\<forall>user v. py_get ''user'' payload = Inr user \<longrightarrow>
     py_get ''emailAddress'' user = Inr v \<or> py_get ''accountId'' user = Inr v \<longrightarrow> v = JNull \<or> is_str v)"

lemma resolve_actor_valid:
  assumes "resolve_actor payload = Inr (Some ac)" "string_users payload"
  shows "valid actor_schema ac"
proof -
  have s: "\<exists>s. v = JStr s \<and> s \<noteq> []" if "truthy v" "v = JNull \<or> is_str v" for v using that by (cases v) auto
  obtain user where u: "py_get ''user'' payload = Inr user" "truthy user"
    using assms(1) by (auto simp: resolve_actor_def res_simps split: if_splits)
  obtain v ty where v: "ac = JObj [(''nativeUserId'', v), (''userIdType'', JStr ty)]" "truthy v"
    "ty \<in> set user_id_types" "py_get ''emailAddress'' user = Inr v \<or> py_get ''accountId'' user = Inr v"
    using assms(1) u by (auto simp: resolve_actor_def res_simps user_id_types_def split: if_splits)
  obtain s where "v = JStr s" "s \<noteq> []" using s[OF v(2)] v(4) assms(2) u(1) unfolding string_users_def by blast
  then show ?thesis using v(1,3) by (simp add: valid_actor_plain)
qed

lemma py_str_neq_JNull: "i \<noteq> JNull \<Longrightarrow> i \<noteq> JStr [] \<Longrightarrow> py_str i \<noteq> []"
  by (cases i) (auto simp: py_str_def)

definition named_objects :: "json \<Rightarrow> bool" where
  \<comment> \<open>the ids of comments and sprints are not empty strings\<close>
  "named_objects payload = (\<forall>k \<in> {''comment'', ''sprint''}. \<forall>x. py_get k payload = Inr x \<longrightarrow>
     py_get ''id'' x \<noteq> Inr (JStr []))"

lemma resolve_object_valid:
  assumes "resolve_object w payload = Inr (Some ob)" "named_objects payload"
  shows "valid object_ref_schema ob"
proof -
  have i: "valid object_ref_schema ob" if "resolve_issue_object payload = Inr (Some ob)"
    using that py_str_nonempty by (auto simp: resolve_issue_object_def res_simps valid_object_plain split: if_splits)
  have c: "valid object_ref_schema ob" if "resolve_comment_object payload = Inr (Some ob)"
    using that assms(2) py_str_neq_JNull
    by (auto simp: resolve_comment_object_def issue_details_def res_simps valid_object_plain valid_object_details
        named_objects_def split: if_splits)
  have s: "valid object_ref_schema ob" if "resolve_sprint_object payload = Inr (Some ob)"
    using that assms(2) py_str_neq_JNull
    by (auto simp: resolve_sprint_object_def res_simps valid_object_plain named_objects_def split: if_splits)
  show ?thesis using assms(1) i c s by (auto simp: resolve_object_def split: json.splits if_splits)
qed

lemma transform_event:
  assumes "transform i now payload tenant inst env = Inr (Some e)"
  shows "\<exists>action category ac ob ts w. py_get ''webhookEvent'' payload = Inr w \<and>
    resolve_action w payload = Inr (Some (action, category)) \<and> resolve_actor payload = Inr (Some ac) \<and>
    resolve_object w payload = Inr (Some ob) \<and> resolve_timestamp now payload = Inr ts \<and>
    e = JObj (event_fields i tenant ''jira'' inst env ts ac
      (JObj [(''type'', JStr action), (''category'', JStr category)]) ob
      (JObj [(''connector'', JStr CONNECTOR_NAME), (''connectorVersion'', JStr CONNECTOR_VERSION)]))"
  using assms unfolding transform_def event_fields_def by (auto simp: res_simps split: option.splits prod.splits)

lemma transform_valid:
  assumes t: "transform i now payload tenant inst env = Inr (Some e)"
    and "contract_tenant tenant" "inst \<noteq> []" "env \<in> set environments" "string_users payload" "named_objects payload"
  shows "valid event_schema e"
proof -
  obtain action category ac ob ts w where r: "resolve_action w payload = Inr (Some (action, category))"
    "resolve_actor payload = Inr (Some ac)" "resolve_object w payload = Inr (Some ob)"
    and e: "e = JObj (event_fields i tenant ''jira'' inst env ts ac
      (JObj [(''type'', JStr action), (''category'', JStr category)]) ob
      (JObj [(''connector'', JStr CONNECTOR_NAME), (''connectorVersion'', JStr CONNECTOR_VERSION)]))"
    using transform_event[OF t] by blast
  have "valid event_schema (JObj (event_fields i tenant ''jira'' inst env ts ac
      (JObj [(''type'', JStr action), (''category'', JStr category)]) ob
      (JObj [(''connector'', JStr CONNECTOR_NAME), (''connectorVersion'', JStr CONNECTOR_VERSION)]) @ []))"
  proof (rule valid_event_fields)
    show "valid action_schema (JObj [(''type'', JStr action), (''category'', JStr category)])"
      using jira_actions_contract[OF resolve_action_known[OF r(1)]] by (simp add: valid_action_plain)
    show "valid source_schema (JObj [(''connector'', JStr CONNECTOR_NAME), (''connectorVersion'', JStr CONNECTOR_VERSION)])"
      by (simp add: valid_source_plain CONNECTOR_NAME_def CONNECTOR_VERSION_def)
  qed (use assms r resolve_actor_valid resolve_object_valid in simp_all)
  then show ?thesis using e by simp
qed

section \<open>Properties\<close>

text \<open>
  The timestamp reads back, with the parser of the event validator, as the instant of the payload's
  milliseconds, to the nearest microsecond, and as the time of the call when it has none.
\<close>

lemma jira_timestamp_round_trip:
  assumes "resolve_timestamp now payload = Inr ts" "in_calendar (dt_instant now)" "py_get ''timestamp'' payload = Inr raw"
  shows "fromisoformat ts = Some (utc (case json_number raw of
    Some n \<Rightarrow> pyround (n / 1000 * 1000000) | None \<Rightarrow> dt_instant now))"
proof (cases "json_number raw")
  case None
  then have "ts = isoformat_utc now" using assms(1,3) by (simp add: resolve_timestamp_def)
  then show ?thesis using None fromisoformat_isoformat[OF assms(2)] by (simp add: isoformat_utc_def)
next
  case (Some n)
  then obtain t where t: "from_timestamp (n / 1000) = Inr t" "ts = isoformat t"
    using assms(1,3) by (auto simp: resolve_timestamp_def res_simps)
  then have "t = utc (pyround (n / 1000 * 1000000))" "in_calendar (pyround (n / 1000 * 1000000))"
    by (auto simp: from_timestamp_def in_calendar_def Let_def split: if_splits)
  then show ?thesis using Some t(2) fromisoformat_isoformat isoformat_utc_eq by simp
qed

text \<open>
  C31: whatever payload Jira sends, an event that comes out of the transformer is one the contract
  admits, when the connector's own tenant, instance and environment are and the payload names its
  users by strings and its comments and sprints by ids that are not empty. Its timestamp reads
  back, with the parser of the event validator, as the instant of the payload's milliseconds, to
  the nearest microsecond, and as the time of the call when the payload has none.
\<close>

theorem jira_event_is_valid:
  assumes "transform i now payload tenant inst env = Inr (Some e)" "contract_tenant tenant" "inst \<noteq> []"
    "env \<in> set environments" "string_users payload" "named_objects payload" "in_calendar (dt_instant now)"
  shows "valid event_schema e \<and> (\<exists>d ts raw. e = JObj d \<and> map_of d ''eventTimestamp'' = Some (JStr ts) \<and>
    py_get ''timestamp'' payload = Inr raw \<and> fromisoformat ts = Some (utc (case json_number raw of
      Some n \<Rightarrow> pyround (n / 1000 * 1000000) | None \<Rightarrow> dt_instant now)))"
proof -
  obtain action category ac ob ts where r: "resolve_timestamp now payload = Inr ts"
    and e: "e = JObj (event_fields i tenant ''jira'' inst env ts ac
      (JObj [(''type'', JStr action), (''category'', JStr category)]) ob
      (JObj [(''connector'', JStr CONNECTOR_NAME), (''connectorVersion'', JStr CONNECTOR_VERSION)]))"
    using transform_event[OF assms(1)] by blast
  obtain raw where raw: "py_get ''timestamp'' payload = Inr raw" using r by (auto simp: resolve_timestamp_def res_simps)
  show ?thesis
    using transform_valid[OF assms(1-6)] jira_timestamp_round_trip[OF r assms(7) raw] raw
    unfolding e by (auto simp: event_fields_def)
qed

definition sample_payload :: json where
  "sample_payload = JObj [(''webhookEvent'', JStr ''jira:issue_updated''), (''timestamp'', JInt 1785574800000),
     (''user'', JObj [(''accountId'', JStr ''u1'')]), (''issue'', JObj [(''key'', JStr ''AB-1'')]),
     (''changelog'', JObj [(''items'', JList [JObj [(''field'', JStr ''summary'')], JObj [(''field'', JStr ''status'')]])])]"

definition sample_jira_event :: json where
  "sample_jira_event = JObj (event_fields ''j1'' ''acme'' ''jira'' ''jira-1'' ''production'' ''2026-08-01T09:00:00+00:00''
     (JObj [(''nativeUserId'', JStr ''u1''), (''userIdType'', JStr ''app_native_id'')])
     (JObj [(''type'', JStr ''update_issue_status''), (''category'', JStr ''update'')])
     (JObj [(''objectType'', JStr ''issue''), (''objectId'', JStr ''AB-1'')])
     (JObj [(''connector'', JStr ''jira-connector''), (''connectorVersion'', JStr ''1.0.0'')]))"

lemma sample_transform: "transform ''j1'' now sample_payload ''acme'' ''jira-1'' ''production'' = Inr (Some sample_jira_event)"
proof -
  have a: "resolve_action (JStr ''jira:issue_updated'') sample_payload = Inr (Some (''update_issue_status'', ''update''))"
    by code_simp
  have u: "resolve_actor sample_payload = Inr (Some (JObj [(''nativeUserId'', JStr ''u1''), (''userIdType'', JStr ''app_native_id'')]))"
    by code_simp
  have b: "resolve_object (JStr ''jira:issue_updated'') sample_payload =
      Inr (Some (JObj [(''objectType'', JStr ''issue''), (''objectId'', JStr ''AB-1'')]))"
    by code_simp
  have r: "pyround 1785574800000000 = 1785574800000000" using pyround_of_int[of 1785574800000000] by simp
  have c: "min_instant \<le> 1785574800000000 \<and> 1785574800000000 < max_instant"
    "isoformat (utc 1785574800000000) = ''2026-08-01T09:00:00+00:00''" by code_simp+
  have t: "resolve_timestamp now sample_payload = Inr ''2026-08-01T09:00:00+00:00''"
    using c by (simp add: resolve_timestamp_def sample_payload_def dget_def json_number_def from_timestamp_def r)
  have w: "py_get ''webhookEvent'' sample_payload = Inr (JStr ''jira:issue_updated'')" by code_simp
  show ?thesis
    unfolding transform_def w a u b t sample_jira_event_def event_fields_def CONNECTOR_NAME_def CONNECTOR_VERSION_def
    by (simp add: a u b t)
qed

lemma sample_payload_ok:
  "contract_tenant ''acme''" "string_users sample_payload" "named_objects sample_payload"
  subgoal by code_simp
  subgoal by (auto simp: sample_payload_def string_users_def py_get_def dget_def)
  subgoal by (auto simp: sample_payload_def named_objects_def py_get_def dget_def)
  done

theorem jira_event_is_valid_witness: "valid event_schema sample_jira_event \<and>
  (\<exists>d ts. sample_jira_event = JObj d \<and> map_of d ''eventTimestamp'' = Some (JStr ts) \<and>
     fromisoformat ts = Some (utc (pyround (1785574800000 / 1000 * 1000000))))"
proof -
  have c: "in_calendar (dt_instant (utc 0))" by code_simp
  have p: "py_get ''timestamp'' sample_payload = Inr (JInt 1785574800000)" by code_simp
  have n: "json_number (JInt 1785574800000) = Some 1785574800000" by (simp add: json_number_def)
  show ?thesis
    using jira_event_is_valid[OF sample_transform sample_payload_ok(1) _ _ sample_payload_ok(2,3) c] p n
    by (auto simp: environments_def)
qed

end
