(* ===== verification/HttpClient.thy ===== *)
theory HttpClient
  imports App
begin

text \<open>
  The client side of HTTP as the connectors use \<open>httpx\<close>: a call is answered with a status
  and a body that may be JSON, or fails in transport; \<open>raise_for_status\<close> refuses every status
  outside the two hundreds. The other end of a call is a function on a state, and the engine's
  own application is one.
\<close>

datatype outcome = Replied nat "json option" | NoReply

definition raise_for_status :: "nat \<Rightarrow> py_error + unit" where
  "raise_for_status status = (if 200 \<le> status \<and> status \<le> 299 then Inr () else Inl (HTTPStatusError status))"

definition response_json :: "json option \<Rightarrow> py_error + json" where
  \<comment> \<open>\<open>response.json()\<close>\<close>
  "response_json b = (case b of None \<Rightarrow> Inl (ValueError ''invalid JSON'') | Some j \<Rightarrow> Inr j)"

definition json_of_payload :: "payload \<Rightarrow> json option" where
  "json_of_payload p = (case p of JsonPayload j \<Rightarrow> Some j | _ \<Rightarrow> None)"

definition post_request :: "string \<Rightarrow> string \<Rightarrow> string \<Rightarrow> json \<Rightarrow> request" where
  \<comment> \<open>\<open>post(path, json=body, headers={"X-Tenant-Id": tenant})\<close>\<close>
  "post_request request_id path tenant body = \<lparr>rq_method = ''POST'', rq_path = path, rq_tenant = Some tenant,
     rq_body = Body body, rq_id = request_id, rq_days = None, rq_limit = None\<rparr>"

definition engine_post ::
  "app_config \<Rightarrow> pydatetime \<Rightarrow> string \<Rightarrow> string \<Rightarrow> app \<Rightarrow> string \<Rightarrow> json \<Rightarrow> app \<times> outcome" where
  \<comment> \<open>the engine at the other end\<close>
  "engine_post C now request_id path a tenant body =
     (let (a', r) = serve C now (post_request request_id path tenant body) a
      in (a', Replied (rs_status r) (json_of_payload (rs_content r))))"

lemma post_request_sel [simp]:
  "rq_method (post_request i p t b) = ''POST''" "rq_path (post_request i p t b) = p"
  "rq_tenant (post_request i p t b) = Some t" "rq_body (post_request i p t b) = Body b" "rq_id (post_request i p t b) = i"
  by (simp_all add: post_request_def)

text \<open>An event that names the tenant of its header passes the guard.\<close>

lemma tenant_check_own:
  "map_of d ''tenantId'' = Some (JStr t) \<Longrightarrow>
     tenant_check (post_request i ''/v1/events'' t (JObj d)) = Inr None"
  by (simp add: tenant_check_def TENANT_SCOPED_PATHS_def BATCH_PATH_def loads_body_def extract_tenant_ids_def dget_def)

lemma serve_event:
  assumes "rate_limit (app_limits C) (dt_instant now) (post_request i ''/v1/events'' t (JObj d)) (a_counts a) = Inr (c, None)"
    "map_of d ''tenantId'' = Some (JStr t)"
    "ingest_event write_event (c_validator C) now i (a_ingest a) (JObj d) = (g, Inr r)"
  shows "engine_post C now i ''/v1/events'' a t (JObj d) =
    (a\<lparr>a_counts := c, a_ingest := g\<rparr>, Replied (rs_status r) (Some (rs_content r)))"
  using assms tenant_check_own[OF assms(2), of i]
  by (simp add: engine_post_def serve_def route_def post_event_def dict_body_def answer_def with_request_id_def
      as_payload_def json_of_payload_def)

end
