(* ===== verification/EngineClient.thy ===== *)
theory EngineClient
  imports HttpClient AppSpec
begin

text \<open>
  What a client that posts one event to the engine can rely on: a valid event with a new id, sent
  under its own tenant and within the budget, is answered 201 and stored, and one whose id is
  there already is answered 409 and changes nothing but the budget.
\<close>

lemma engine_post_stores:
  assumes d: "map_of d ''eventId'' = Some (JStr i)" "map_of d ''tenantId'' = Some (JStr tenant)"
    and s: "store_ok (the_store a)" and V: "validator_ok (c_validator C)"
    and v: "validate (c_validator C) now (JObj d) = Inr ()" and ta: "time_accepted (the_store a) (JObj d)"
    and n: "i \<notin> stored_ids (the_store a)"
    and l: "rate_limit (app_limits C) (dt_instant now) (post_request rid ''/v1/events'' tenant (JObj d)) (a_counts a) =
      Inr (c, None)"
  shows "\<exists>a' b. engine_post C now rid ''/v1/events'' a tenant (JObj d) = (a', Replied 201 b) \<and>
    store_ok (the_store a') \<and> stored_ids (the_store a') = insert i (stored_ids (the_store a))"
proof -
  have i: "id_of_event (JObj d) = i" using d by (simp add: id_of_event_def dget_def)
  obtain tn p ts where p: "event_params (JObj d) = Inr (tn, p)"
    "cypher_datetime (engine (the_store a)) (p_eventTimestamp p) = Some ts"
    and r: "ingest_event write_event (c_validator C) now rid (a_ingest a) (JObj d) =
      (\<lparr>i_store = (the_store a)\<lparr>graph := write_result tn p ts (graph (the_store a))\<rparr>, i_count = i_count (a_ingest a) + 1\<rparr>,
       Inr (json_response 201 (JObj [(''eventId'', JStr (id_of_event (JObj d))), (''status'', JStr ''accepted'')])))"
    using ingest_new[OF s[unfolded the_store_def] V v ta[unfolded the_store_def]] n i unfolding the_store_def by blast
  have pid: "p_eventId p = i"
    using valid_event_parts[OF validate_valid[OF V v]] p(1) i by force
  let ?g = "\<lparr>i_store = (the_store a)\<lparr>graph := write_result tn p ts (graph (the_store a))\<rparr>, i_count = i_count (a_ingest a) + 1\<rparr>"
  have e: "engine_post C now rid ''/v1/events'' a tenant (JObj d) = (a\<lparr>a_counts := c, a_ingest := ?g\<rparr>, Replied 201
      (Some (JObj [(''eventId'', JStr (id_of_event (JObj d))), (''status'', JStr ''accepted'')])))"
    using serve_event[OF l d(2) r] by simp
  have ok: "store_ok (i_store ?g)" using store_ok_write[OF s p(2)] n pid by (simp add: stored_ids_def)
  have ids: "stored_ids (i_store ?g) = insert i (stored_ids (the_store a))" using pid by (simp add: stored_ids_def)
  have "the_store (a\<lparr>a_counts := c, a_ingest := ?g\<rparr>) = i_store ?g" by (simp add: the_store_def)
  then show ?thesis using e ok ids by metis
qed

lemma engine_post_duplicate:
  assumes d: "map_of d ''eventId'' = Some (JStr i)" "map_of d ''tenantId'' = Some (JStr tenant)"
    and s: "store_ok (the_store a)" and V: "validator_ok (c_validator C)"
    and v: "validate (c_validator C) now (JObj d) = Inr ()" and ta: "time_accepted (the_store a) (JObj d)"
    and n: "i \<in> stored_ids (the_store a)"
    and l: "rate_limit (app_limits C) (dt_instant now) (post_request rid ''/v1/events'' tenant (JObj d)) (a_counts a) =
      Inr (c, None)"
  shows "\<exists>b. engine_post C now rid ''/v1/events'' a tenant (JObj d) = (a\<lparr>a_counts := c\<rparr>, Replied 409 b)"
proof -
  have i: "id_of_event (JObj d) = i" using d by (simp add: id_of_event_def dget_def)
  have r: "ingest_event write_event (c_validator C) now rid (a_ingest a) (JObj d) = (a_ingest a, Inr (json_response 409
    (error_body ''duplicate_event'' (error_message (DuplicateEventError i)) rid)))"
    using ingest_duplicate[OF s[unfolded the_store_def] V v ta[unfolded the_store_def]] n i unfolding the_store_def by simp
  then show ?thesis using serve_event[OF l d(2) r] by simp
qed

end
