(* ===== verification/Clocked.thy ===== *)
theory Clocked
  imports Contract Calendar
begin

text \<open>
  Events whose timestamp a producer wrote with \<open>isoformat\<close>: what the engine's validator reads from
  it, and when it accepts the event.
\<close>

lemma replace_char_absent: "c \<notin> set s \<Longrightarrow> replace_char c t s = s"
  by (induction s) auto

lemma zulu_no_digit: "\<not> is_digit (CHR ''Z'')"
  by code_simp

lemma no_zulu_two: "CHR ''Z'' \<notin> set (two k)"
  using digits_two zulu_no_digit by blast

lemma no_zulu_zfill: "CHR ''Z'' \<notin> set (zfill n (show_nat k))"
  using digits_show_nat zulu_no_digit by (fastforce simp: zfill_def)

lemma zulu_isoformat: "zulu_offset (isoformat_utc t) = isoformat_utc t"
  unfolding zulu_offset_def
  by (rule replace_char_absent)
     (simp add: isoformat_utc_def clock_text_def Let_def no_zulu_two no_zulu_zfill split: prod.split)

lemma validate_stamped:
  assumes V: "validator_ok V" and v: "valid event_schema (JObj d)"
    and raw: "map_of d ''eventTimestamp'' = Some (JStr (isoformat_utc sent))"
    and sent: "in_calendar (dt_instant sent)" "dt_instant sent - dt_instant now \<le> max_future_seconds V * 1000000"
  shows "validate V now (JObj d) = Inr ()"
proof -
  have "isoformat_utc (utc (dt_instant sent)) = isoformat_utc sent" by (simp add: isoformat_utc_def)
  then have "fromisoformat (zulu_offset (isoformat_utc sent)) = Some (utc (dt_instant sent))"
    using fromisoformat_isoformat[OF sent(1)] by (simp add: zulu_isoformat)
  from validate_iff[OF V raw this] show ?thesis using v sent(2) by simp
qed

lemma event_params_time:
  "event_params event = Inr (tenant, p) \<Longrightarrow> req_str ''eventTimestamp'' event = Inr (p_eventTimestamp p)"
  by (auto simp: event_params_def Let_def res_simps)

definition reads_iso :: "engine \<Rightarrow> bool" where
  \<comment> \<open>the database reads the timestamps \<open>isoformat\<close> writes\<close>
  "reads_iso E = (\<forall>us. in_calendar us \<longrightarrow> cypher_datetime E (isoformat_utc (utc us)) \<noteq> None)"

end
