(* ===== verification/JiraWebhook.thy ===== *)
theory JiraWebhook
  imports Jira EngineClient Clocked
begin

text \<open>
  \<open>connectors/jira/webhook_handler.py\<close>: a payload is transformed and forwarded to the
  ingestion endpoint; the other end is any function on a state, with the engine as the instance
  the theorems are about.
\<close>

definition handle ::
  "('s \<Rightarrow> string \<Rightarrow> json \<Rightarrow> 's \<times> outcome) \<Rightarrow> string \<Rightarrow> string \<Rightarrow> string \<Rightarrow> pydatetime \<Rightarrow> 's \<Rightarrow> json \<Rightarrow>
   's \<times> (py_error + json)" where
  "handle post tenant_id application_instance_id event_id now s payload =
     (case transform event_id now payload tenant_id application_instance_id ''production'' of
        Inl e \<Rightarrow> (s, Inl e)
      | Inr None \<Rightarrow> (s, Inr (JObj [(''status'', JStr ''ignored'')]))
      | Inr (Some event) \<Rightarrow> (case post s tenant_id event of
          (s', NoReply) \<Rightarrow> (s', Inl TransportError)
        | (s', Replied status _) \<Rightarrow> (s', case raise_for_status status of
            Inr _ \<Rightarrow> ebind (py_item ''eventId'' event) (\<lambda>i. Inr (JObj [(''status'', JStr ''forwarded''), (''eventId'', i)]))
          | Inl e \<Rightarrow> if status = 409
              then ebind (py_item ''eventId'' event) (\<lambda>i. Inr (JObj [(''status'', JStr ''duplicate''), (''eventId'', i)]))
              else Inl e)))"

record jira_handler =
  jh_events_url :: string
  jh_tenant_id :: string
  jh_application_instance_id :: string

definition request_json :: "body \<Rightarrow> py_error + json" where
  \<comment> \<open>\<open>await request.json()\<close>\<close>
  "request_json b = (case b of
     Body j \<Rightarrow> Inr j | NotUtf8 \<Rightarrow> Inl UnicodeDecodeError | _ \<Rightarrow> Inl (ValueError ''invalid JSON''))"

definition receive_jira_webhook ::
  "(string \<Rightarrow> 's \<Rightarrow> string \<Rightarrow> json \<Rightarrow> 's \<times> outcome) \<Rightarrow> jira_handler \<Rightarrow> string \<Rightarrow> pydatetime \<Rightarrow> 's \<Rightarrow> body \<Rightarrow>
   's \<times> (py_error + json)" where
  \<comment> \<open>the route \<open>POST /webhooks/jira\<close>; the client posts to the handler's own URL\<close>
  "receive_jira_webhook post h event_id now s b = (case request_json b of
     Inl e \<Rightarrow> (s, Inl e)
   | Inr payload \<Rightarrow> handle (post (jh_events_url h)) (jh_tenant_id h) (jh_application_instance_id h) event_id now s payload)"

section \<open>Through the engine\<close>

lemma json_number_instant:
  assumes "from_timestamp x = Inr t"
  shows "\<exists>us. t = utc us \<and> in_calendar us"
  using assms by (auto simp: from_timestamp_def in_calendar_def Let_def split: if_splits)

lemma resolve_timestamp_text:
  assumes "resolve_timestamp now payload = Inr ts" "in_calendar (dt_instant now)"
  shows "\<exists>us. ts = isoformat_utc (utc us) \<and> in_calendar us"
proof (cases "\<exists>raw n. py_get ''timestamp'' payload = Inr raw \<and> json_number raw = Some n")
  case True
  then obtain n t where "from_timestamp (n / 1000) = Inr t" "ts = isoformat t"
    using assms(1) by (auto simp: resolve_timestamp_def res_simps)
  then show ?thesis using json_number_instant isoformat_utc_eq by metis
next
  case False
  then have "ts = isoformat_utc now" using assms(1) by (auto simp: resolve_timestamp_def res_simps split: option.splits)
  then have "ts = isoformat_utc (utc (dt_instant now))" by (simp add: isoformat_utc_def)
  then show ?thesis using assms(2) by blast
qed

lemma transform_id: "transform i now payload tenant inst env = Inr (Some e) \<Longrightarrow>
    \<exists>d. e = JObj d \<and> map_of d ''eventId'' = Some (JStr i) \<and> map_of d ''tenantId'' = Some (JStr tenant)"
  by (drule transform_event) (auto simp: event_fields_def)

lemma handle_forwards:
  assumes t: "transform i now payload tenant inst ''production'' = Inr (Some e)"
    and s: "store_ok (the_store a)" and V: "validator_ok (c_validator C)" and v: "validate (c_validator C) now e = Inr ()"
    and ta: "time_accepted (the_store a) e" and n: "i \<notin> stored_ids (the_store a)"
    and l: "rate_limit (app_limits C) (dt_instant now) (post_request rid ''/v1/events'' tenant e) (a_counts a) = Inr (c, None)"
  shows "\<exists>a'. handle (engine_post C now rid ''/v1/events'') tenant inst i now a payload =
      (a', Inr (JObj [(''status'', JStr ''forwarded''), (''eventId'', JStr i)])) \<and>
    store_ok (the_store a') \<and> stored_ids (the_store a') = insert i (stored_ids (the_store a))"
proof -
  obtain d where d: "e = JObj d" "map_of d ''eventId'' = Some (JStr i)" "map_of d ''tenantId'' = Some (JStr tenant)"
    using transform_id[OF t] by blast
  obtain a' b where p: "engine_post C now rid ''/v1/events'' a tenant e = (a', Replied 201 b)" "store_ok (the_store a')"
    "stored_ids (the_store a') = insert i (stored_ids (the_store a))"
    using engine_post_stores[OF d(2,3) s V v[unfolded d(1)] ta[unfolded d(1)] n l[unfolded d(1)]] unfolding d(1) by blast
  have it: "py_item ''eventId'' e = Inr (JStr i)" using d by simp
  have "handle (engine_post C now rid ''/v1/events'') tenant inst i now a payload =
      (a', Inr (JObj [(''status'', JStr ''forwarded''), (''eventId'', JStr i)]))"
    by (simp add: handle_def t p(1) raise_for_status_def it del: py_item_JObj)
  then show ?thesis using p(2,3) by blast
qed

section \<open>What the engine makes of a transformed event\<close>

definition payload_instant :: "pydatetime \<Rightarrow> json \<Rightarrow> int" where
  \<comment> \<open>the payload's milliseconds, or the time of the call\<close>
  "payload_instant now payload = (case py_get ''timestamp'' payload of
     Inr raw \<Rightarrow> (case json_number raw of Some n \<Rightarrow> pyround (n / 1000 * 1000000) | None \<Rightarrow> dt_instant now)
   | Inl e \<Rightarrow> dt_instant now)"

definition connector_ready :: "jira_handler \<Rightarrow> json \<Rightarrow> bool" where
  \<comment> \<open>the connector's own names have the contract's form, the payload's users and objects are named\<close>
  "connector_ready h payload = (contract_tenant (jh_tenant_id h) \<and> jh_application_instance_id h \<noteq> [] \<and>
     string_users payload \<and> named_objects payload)"

lemma transformed_timestamp:
  assumes t: "transform i now payload tenant inst env = Inr (Some (JObj d))" and c: "in_calendar (dt_instant now)"
  shows "\<exists>us. map_of d ''eventTimestamp'' = Some (JStr (isoformat_utc (utc us))) \<and> in_calendar us \<and>
    us = payload_instant now payload"
proof -
  obtain ac act ob src ts where r: "resolve_timestamp now payload = Inr ts"
    and d: "d = event_fields i tenant ''jira'' inst env ts ac act ob src"
    using transform_event[OF t] by blast
  obtain us where us: "ts = isoformat_utc (utc us)" "in_calendar us" using resolve_timestamp_text[OF r c] by blast
  obtain raw where raw: "py_get ''timestamp'' payload = Inr raw" using r by (auto simp: resolve_timestamp_def res_simps)
  have "Some (utc us) = Some (utc (payload_instant now payload))"
    using fromisoformat_isoformat[OF us(2)] jira_timestamp_round_trip[OF r c raw] raw us(1)
    by (simp add: payload_instant_def)
  then have "us = payload_instant now payload" by (simp add: utc_def)
  then show ?thesis using us d by (auto simp: event_fields_def)
qed

lemma transformed_accepted:
  assumes t: "transform i now payload (jh_tenant_id h) (jh_application_instance_id h) ''production'' = Inr (Some e)"
    and h: "connector_ready h payload" and c: "in_calendar (dt_instant now)" and V: "validator_ok V"
    and s: "payload_instant now payload - dt_instant now \<le> max_future_seconds V * 1000000" and r: "reads_iso (engine s)"
  shows "validate V now e = Inr ()" "time_accepted s e"
proof -
  have p: "''production'' \<in> set environments" by code_simp
  have v: "valid event_schema e"
    using h by (intro transform_valid[OF t _ _ p]) (simp_all add: connector_ready_def)
  obtain d where d: "e = JObj d" using transform_id[OF t] by blast
  obtain us where us: "map_of d ''eventTimestamp'' = Some (JStr (isoformat_utc (utc us)))" "in_calendar us"
    "us = payload_instant now payload" using transformed_timestamp[OF t[unfolded d] c] by blast
  have i: "dt_instant (utc us) = us" by (simp add: utc_def dt_instant_def)
  show "validate V now e = Inr ()"
    unfolding d by (rule validate_stamped[OF V v[unfolded d] us(1)]) (use us s i in simp_all)
  show "time_accepted s e"
    unfolding time_accepted_def
  proof (intro allI impI)
    fix tn q assume "event_params e = Inr (tn, q)"
    then have "req_str ''eventTimestamp'' (JObj d) = Inr (p_eventTimestamp q)" unfolding d by (rule event_params_time)
    then have "p_eventTimestamp q = isoformat_utc (utc us)" using req_str_JObj us(1) by fastforce
    then show "cypher_datetime (engine s) (p_eventTimestamp q) \<noteq> None" using r us(2) by (simp add: reads_iso_def)
  qed
qed

lemma receive_forwards:
  assumes t: "transform i now payload (jh_tenant_id h) (jh_application_instance_id h) ''production'' = Inr (Some e)"
    and h: "connector_ready h payload" and c: "in_calendar (dt_instant now)"
    and s: "store_ok (the_store a)" and V: "validator_ok (c_validator C)"
    and sk: "payload_instant now payload - dt_instant now \<le> max_future_seconds (c_validator C) * 1000000"
    and r: "reads_iso (engine (the_store a))" and n: "i \<notin> stored_ids (the_store a)"
    and l: "rate_limit (app_limits C) (dt_instant now) (post_request rid (jh_events_url h) (jh_tenant_id h) e) (a_counts a) = Inr (k, None)"
    and u: "jh_events_url h = ''/v1/events''"
  shows "\<exists>a'. receive_jira_webhook (engine_post C now rid) h i now a (Body payload) =
      (a', Inr (JObj [(''status'', JStr ''forwarded''), (''eventId'', JStr i)])) \<and>
    store_ok (the_store a') \<and> stored_ids (the_store a') = insert i (stored_ids (the_store a))"
  using handle_forwards[OF t s V transformed_accepted[OF t h c V sk r] n l[unfolded u]]
  by (simp add: receive_jira_webhook_def request_json_def u)

end
