(* ===== verification/Sdk.thy ===== *)
theory Sdk
  imports Contract HttpClient
begin

text \<open>
  \<open>sdk/python\<close>: the client that fills in an event, checks its required fields and sends it,
  trying again after a server error or a failure in transport. The connection is a function on a
  state; the pauses the client makes are part of its result.
\<close>

section \<open>Preparing an event\<close>

definition REQUIRED_ACTOR_FIELDS :: "string list" where
  "REQUIRED_ACTOR_FIELDS = [''nativeUserId'', ''userIdType'']"

definition REQUIRED_ACTION_FIELDS :: "string list" where
  "REQUIRED_ACTION_FIELDS = [''type'', ''category'']"

definition REQUIRED_OBJECT_FIELDS :: "string list" where
  "REQUIRED_OBJECT_FIELDS = [''objectType'', ''objectId'']"

definition REQUIRED_SOURCE_FIELDS :: "string list" where
  "REQUIRED_SOURCE_FIELDS = [''connector'', ''connectorVersion'']"

definition REQUIRED_TOP_LEVEL_FIELDS :: "string list" where
  "REQUIRED_TOP_LEVEL_FIELDS = [''tenantId'', ''applicationId'', ''applicationInstanceId'', ''environment'',
     ''actor'', ''action'', ''object'', ''source'']"

definition prepare_event :: "string \<Rightarrow> pydatetime \<Rightarrow> (string \<times> json) list \<Rightarrow> (string \<times> json) list" where
  "prepare_event fresh_id now event =
     dict_setdefault ''eventTimestamp'' (JStr (isoformat_utc now))
       (dict_setdefault ''eventId'' (JStr fresh_id)
         (dict_setdefault ''schemaVersion'' (JStr ''1.0.0'') event))"

definition missing :: "string \<Rightarrow> string" where
  "missing field = ''missing required field: '' @ field"

definition validate_nested :: "(string \<times> json) list \<Rightarrow> string \<Rightarrow> string list \<Rightarrow> string list" where
  "validate_nested event key required_fields = (case dget key event of
     JObj v \<Rightarrow> map (\<lambda>f. missing (key @ ''.'' @ f)) (filter (\<lambda>f. map_of v f = None) required_fields)
   | _ \<Rightarrow> [missing key])"

definition event_errors :: "(string \<times> json) list \<Rightarrow> string list" where
  "event_errors event =
     map missing (filter (\<lambda>f. map_of event f = None) REQUIRED_TOP_LEVEL_FIELDS) @
     validate_nested event ''actor'' REQUIRED_ACTOR_FIELDS @
     validate_nested event ''action'' REQUIRED_ACTION_FIELDS @
     validate_nested event ''object'' REQUIRED_OBJECT_FIELDS @
     validate_nested event ''source'' REQUIRED_SOURCE_FIELDS"

definition validate_event :: "(string \<times> json) list \<Rightarrow> py_error + unit" where
  "validate_event event = (let errors = event_errors event
     in if errors \<noteq> [] then Inl (EventValidationError (join ''; '' errors)) else Inr ())"

section \<open>Sending it\<close>

definition DEFAULT_MAX_RETRIES :: int where
  "DEFAULT_MAX_RETRIES = 3"

definition BACKOFF_SECONDS :: "real list" where
  "BACKOFF_SECONDS = [1, 2, 4]"

definition dict_pair :: "json \<Rightarrow> py_error + json \<times> json" where
  \<comment> \<open>an element of a sequence handed to \<open>dict\<close>\<close>
  "dict_pair x = ebind (py_iter x) (\<lambda>ys. case ys of
     [k, v] \<Rightarrow> (case k of JList _ \<Rightarrow> Inl TypeError | JObj _ \<Rightarrow> Inl TypeError | _ \<Rightarrow> Inr (k, v))
   | _ \<Rightarrow> Inl (ValueError ''dictionary update sequence element has the wrong length''))"

definition py_dict :: "json \<Rightarrow> py_error + (json \<times> json) list" where
  \<comment> \<open>\<open>dict(j)\<close>\<close>
  "py_dict j = (case j of
     JObj d \<Rightarrow> Inr (map (\<lambda>(k, v). (JStr k, v)) d)
   | _ \<Rightarrow> ebind (py_iter j) (\<lambda>xs. ebind (emap dict_pair xs) (\<lambda>ps.
       Inr (fold (\<lambda>(k, v). AList.update k v) ps []))))"

definition conclude :: "outcome \<Rightarrow> (py_error + (json \<times> json) list) option" where
  \<comment> \<open>what ends the attempts: an answer, a duplicate, a client error, a body that cannot be read;
    \<open>None\<close> for a server error and for a failure in transport\<close>
  "conclude out = (case out of
     NoReply \<Rightarrow> None
   | Replied status b \<Rightarrow>
       if status = 409 then Some (ebind (response_json b) py_dict)
       else (case raise_for_status status of
               Inr _ \<Rightarrow> Some (ebind (response_json b) py_dict)
             | Inl e \<Rightarrow> if status < 500 then Some (Inl e) else None))"

definition failure :: "outcome \<Rightarrow> py_error" where
  "failure out = (case out of NoReply \<Rightarrow> TransportError | Replied status _ \<Rightarrow> HTTPStatusError status)"

fun send_attempts ::
  "('s \<Rightarrow> 's \<times> outcome) \<Rightarrow> nat \<Rightarrow> nat \<Rightarrow> py_error option \<Rightarrow> 's \<Rightarrow> 's \<times> real list \<times> (py_error + (json \<times> json) list)" where
  \<comment> \<open>the attempts left and the number of the next one; the result has the pauses made\<close>
  "send_attempts post 0 attempt last_error s =
     (s, [], Inl (case last_error of None \<Rightarrow> AssertionError | Some e \<Rightarrow> e))"
| "send_attempts post (Suc left) attempt last_error s =
     (let (s', out) = post s
      in case conclude out of
           Some r \<Rightarrow> (s', [], r)
         | None \<Rightarrow>
             if left = 0 then send_attempts post left (attempt + 1) (Some (failure out)) s'
             else if attempt < length BACKOFF_SECONDS then
               (let (s'', sleeps, r) = send_attempts post left (attempt + 1) (Some (failure out)) s'
                in (s'', BACKOFF_SECONDS ! attempt # sleeps, r))
             else (s', [], Inl IndexError))"

definition send_with_retry ::
  "('s \<Rightarrow> string \<Rightarrow> json \<Rightarrow> 's \<times> outcome) \<Rightarrow> int \<Rightarrow> 's \<Rightarrow> (string \<times> json) list \<Rightarrow>
   's \<times> real list \<times> (py_error + (json \<times> json) list)" where
  \<comment> \<open>a tenant id that is not a string is no header value\<close>
  "send_with_retry post max_retries s event =
     (if max_retries + 1 \<le> 0 then (s, [], Inl AssertionError)
      else case py_item ''tenantId'' (JObj event) of
        Inl e \<Rightarrow> (s, [], Inl e)
      | Inr (JStr tenant) \<Rightarrow> send_attempts (\<lambda>s. post s tenant (JObj event)) (nat (max_retries + 1)) 0 None s
      | Inr _ \<Rightarrow> (s, [], Inl TypeError))"

definition emit ::
  "('s \<Rightarrow> string \<Rightarrow> json \<Rightarrow> 's \<times> outcome) \<Rightarrow> int \<Rightarrow> string \<Rightarrow> pydatetime \<Rightarrow> 's \<Rightarrow> (string \<times> json) list \<Rightarrow>
   's \<times> real list \<times> (py_error + (json \<times> json) list)" where
  "emit post max_retries fresh_id now s event =
     (let prepared = prepare_event fresh_id now event
      in case validate_event prepared of
           Inl e \<Rightarrow> (s, [], Inl e)
         | Inr _ \<Rightarrow> send_with_retry post max_retries s prepared)"

subsection \<open>The client\<close>

record sdk_client =
  sc_base_url :: string
  sc_max_retries :: int
  sc_owns_client :: bool
  sc_open :: bool  \<comment> \<open>the HTTP client underneath\<close>

definition rstrip_slash :: "string \<Rightarrow> string" where
  \<comment> \<open>\<open>s.rstrip("/")\<close>\<close>
  "rstrip_slash s = rev (dropWhile (\<lambda>c. c = CHR ''/'') (rev s))"

definition new_client :: "string \<Rightarrow> int \<Rightarrow> bool \<Rightarrow> sdk_client" where
  \<comment> \<open>whether an HTTP client is given\<close>
  "new_client base_url max_retries given = \<lparr>sc_base_url = rstrip_slash base_url, sc_max_retries = max_retries,
     sc_owns_client = (\<not> given), sc_open = True\<rparr>"

definition close_client :: "sdk_client \<Rightarrow> sdk_client" where
  "close_client c = (if sc_owns_client c then c\<lparr>sc_open := False\<rparr> else c)"

definition client_emit ::
  "(string \<Rightarrow> 's \<Rightarrow> string \<Rightarrow> json \<Rightarrow> 's \<times> outcome) \<Rightarrow> sdk_client \<Rightarrow> string \<Rightarrow> pydatetime \<Rightarrow> 's \<Rightarrow> (string \<times> json) list \<Rightarrow>
   's \<times> real list \<times> (py_error + (json \<times> json) list)" where
  \<comment> \<open>on an open client; the connection is told the URL\<close>
  "client_emit post c fresh_id now s event =
     emit (post (sc_base_url c @ ''/v1/events'')) (sc_max_retries c) fresh_id now s event"

definition with_client ::
  "(sdk_client \<Rightarrow> 's \<Rightarrow> 's \<times> 'r) \<Rightarrow> sdk_client \<Rightarrow> 's \<Rightarrow> 's \<times> 'r \<times> sdk_client" where
  \<comment> \<open>\<open>with client:\<close>, closed whether the body raises or not\<close>
  "with_client body c s = (let (s', r) = body c s in (s', r, close_client c))"

lemma dropWhile_replicate: "P x \<Longrightarrow> dropWhile P (replicate n x @ xs) = dropWhile P xs"
  by (induction n) simp_all

lemma rstrip_slash_slashes: "rstrip_slash (s @ replicate n (CHR ''/'')) = rstrip_slash s"
  by (simp add: rstrip_slash_def dropWhile_replicate)

lemma rstrip_slash_last: "rstrip_slash s = [] \<or> last (rstrip_slash s) \<noteq> CHR ''/''"
  unfolding rstrip_slash_def
  by (metis (mono_tags, lifting) dropWhile_eq_Nil_conv hd_dropWhile last_rev rev_is_Nil_conv)

text \<open>However many slashes the base URL ends in, the client posts to the one address.\<close>

lemma client_url:
  "client_emit post (new_client (s @ replicate n (CHR ''/'')) m given) = client_emit post (new_client s m given)"
  by (rule ext)+ (simp add: client_emit_def new_client_def rstrip_slash_slashes)

lemma with_client_closes:
  "with_client body (new_client s m given) w = (w', r, c) \<Longrightarrow> sc_open c = given"
  by (cases given) (auto simp: with_client_def new_client_def close_client_def split: prod.splits)

section \<open>The attempts\<close>

definition state_after :: "('s \<Rightarrow> 's \<times> outcome) \<Rightarrow> nat \<Rightarrow> 's \<Rightarrow> 's" where
  "state_after post k s = ((\<lambda>s. fst (post s)) ^^ k) s"

definition outcome_of :: "('s \<Rightarrow> 's \<times> outcome) \<Rightarrow> nat \<Rightarrow> 's \<Rightarrow> outcome" where
  \<comment> \<open>the outcome of attempt \<open>k\<close>, counted from zero\<close>
  "outcome_of post k s = snd (post (state_after post k s))"

lemma state_after_Suc: "state_after post (Suc k) s = state_after post k (fst (post s))"
  by (simp add: state_after_def funpow_Suc_right del: funpow.simps)

lemma outcome_of_Suc: "outcome_of post (Suc k) s = outcome_of post k (fst (post s))"
  by (simp add: outcome_of_def state_after_Suc)

lemma state_after_0 [simp]: "state_after post 0 s = s"
  by (simp add: state_after_def)

lemma outcome_of_0 [simp]: "outcome_of post 0 s = snd (post s)"
  by (simp add: outcome_of_def)

lemma send_attempts_conclude:
  assumes "k < n" "a + n \<le> 4" "\<forall>j < k. conclude (outcome_of post j s) = None" "conclude (outcome_of post k s) = Some r"
  shows "send_attempts post n a l s = (state_after post (Suc k) s, take k (drop a BACKOFF_SECONDS), r)"
  using assms
proof (induction k arbitrary: n a l s)
  case 0
  then obtain m where "n = Suc m" by (cases n) auto
  then show ?case using 0 by (simp add: state_after_Suc split_beta)
next
  case (Suc k)
  then obtain m where n: "n = Suc m" "k < m" by (cases n) auto
  have c: "conclude (snd (post s)) = None" using Suc.prems(3) by (metis outcome_of_0 zero_less_Suc)
  have a: "a < length BACKOFF_SECONDS" using Suc.prems(2) n by (simp add: BACKOFF_SECONDS_def)
  have "\<forall>j < k. conclude (outcome_of post j (fst (post s))) = None"
    using Suc.prems(3) outcome_of_Suc[of post _ s] by (metis Suc_less_eq)
  moreover have "conclude (outcome_of post k (fst (post s))) = Some r" using Suc.prems(4) by (simp add: outcome_of_Suc)
  ultimately have IH: "send_attempts post m (a + 1) (Some (failure (snd (post s)))) (fst (post s)) =
      (state_after post (Suc k) (fst (post s)), take k (drop (a + 1) BACKOFF_SECONDS), r)"
    using Suc.prems(2) n by (intro Suc.IH) auto
  show ?case
    using n c a IH by (simp add: split_beta state_after_Suc[of post "Suc k" s] Cons_nth_drop_Suc[symmetric])
qed

lemma send_attempts_give_up:
  assumes "0 < n" "a + n \<le> 4" "\<forall>j < n. conclude (outcome_of post j s) = None"
  shows "send_attempts post n a l s = (state_after post n s, take (n - 1) (drop a BACKOFF_SECONDS),
    Inl (failure (outcome_of post (n - 1) s)))"
  using assms
proof (induction n arbitrary: a l s)
  case (Suc m)
  have c: "conclude (snd (post s)) = None" using Suc.prems(3) by (metis outcome_of_0 zero_less_Suc)
  show ?case
  proof (cases m)
    case 0
    then show ?thesis using c by (simp add: split_beta state_after_Suc)
  next
    case (Suc m')
    have a: "a < length BACKOFF_SECONDS" using Suc.prems(2) Suc by (simp add: BACKOFF_SECONDS_def)
    have "\<forall>j < m. conclude (outcome_of post j (fst (post s))) = None"
      using Suc.prems(3) outcome_of_Suc[of post _ s] by (metis Suc_less_eq)
    then have IH: "send_attempts post m (a + 1) (Some (failure (snd (post s)))) (fst (post s)) =
        (state_after post m (fst (post s)), take (m - 1) (drop (a + 1) BACKOFF_SECONDS),
         Inl (failure (outcome_of post (m - 1) (fst (post s)))))"
      using Suc.prems(2) Suc by (intro Suc.IH) auto
    show ?thesis
      using Suc c a IH by (simp add: split_beta state_after_Suc[of post "Suc m'" s] outcome_of_Suc Cons_nth_drop_Suc[symmetric])
  qed
qed simp

section \<open>What the client refuses\<close>

lemma valid_present: "valid (object_schema ps req) (JObj d) \<Longrightarrow> f \<in> set req \<Longrightarrow> map_of d f \<noteq> None"
  by (auto simp: valid_object_schema map_of_eq_None_iff)

lemma validate_nested_valid:
  assumes "map_of event key = Some v" "valid (object_schema ps req) v" "set fs \<subseteq> set req"
  shows "validate_nested event key fs = []"
proof -
  obtain d where "v = JObj d" using valid_is_object assms(2) by blast
  then show ?thesis
    using assms valid_present[of ps req d]
    by (auto simp: validate_nested_def dget_def filter_empty_conv)
qed

text \<open>The client never refuses an event the contract admits.\<close>

lemma validate_event_valid:
  assumes "valid event_schema (JObj event)"
  shows "validate_event event = Inr ()"
proof -
  note r = assms[unfolded event_schema_def]
  have t: "filter (\<lambda>f. map_of event f = None) REQUIRED_TOP_LEVEL_FIELDS = []"
    using valid_present[OF r] by (auto simp: filter_empty_conv REQUIRED_TOP_LEVEL_FIELDS_def event_required_def)
  obtain actor action obj source where parts:
    "map_of event ''actor'' = Some actor" "valid actor_schema actor"
    "map_of event ''action'' = Some action" "valid action_schema action"
    "map_of event ''object'' = Some obj" "valid object_ref_schema obj"
    "map_of event ''source'' = Some source" "valid source_schema source"
    using valid_required[OF r, of "''actor''" actor_schema] valid_required[OF r, of "''action''" action_schema]
      valid_required[OF r, of "''object''" object_ref_schema] valid_required[OF r, of "''source''" source_schema]
    by (auto simp: event_required_def)
  have "validate_nested event ''actor'' REQUIRED_ACTOR_FIELDS = []"
    by (rule validate_nested_valid[OF parts(1) parts(2)[unfolded actor_schema_def]]) (simp add: REQUIRED_ACTOR_FIELDS_def)
  moreover have "validate_nested event ''action'' REQUIRED_ACTION_FIELDS = []"
    by (rule validate_nested_valid[OF parts(3) parts(4)[unfolded action_schema_def]]) (simp add: REQUIRED_ACTION_FIELDS_def)
  moreover have "validate_nested event ''object'' REQUIRED_OBJECT_FIELDS = []"
    by (rule validate_nested_valid[OF parts(5) parts(6)[unfolded object_ref_schema_def]]) (simp add: REQUIRED_OBJECT_FIELDS_def)
  moreover have "validate_nested event ''source'' REQUIRED_SOURCE_FIELDS = []"
    by (rule validate_nested_valid[OF parts(7) parts(8)[unfolded source_schema_def]]) (simp add: REQUIRED_SOURCE_FIELDS_def)
  ultimately show ?thesis using t by (simp add: validate_event_def event_errors_def)
qed

section \<open>Properties\<close>

definition attempt_of :: "('s \<Rightarrow> string \<Rightarrow> json \<Rightarrow> 's \<times> outcome) \<Rightarrow> string \<Rightarrow> (string \<times> json) list \<Rightarrow> 's \<Rightarrow> 's \<times> outcome" where
  \<comment> \<open>one attempt to send the event\<close>
  "attempt_of post tenant event s = post s tenant (JObj event)"

text \<open>
  C33: with up to three retries the client stops at the first attempt that settles the matter
  (an answer, a duplicate or a client error), having paused 1, 2 and 4 seconds before the retries
  it needed; when no attempt does, it makes every one and raises the failure of the last.
\<close>

theorem sdk_retries:
  assumes "0 \<le> m" "m \<le> 3" "map_of event ''tenantId'' = Some (JStr tenant)"
  shows "(\<forall>k r. int k \<le> m \<longrightarrow> (\<forall>j < k. conclude (outcome_of (attempt_of post tenant event) j s) = None) \<longrightarrow>
      conclude (outcome_of (attempt_of post tenant event) k s) = Some r \<longrightarrow>
      send_with_retry post m s event = (state_after (attempt_of post tenant event) (Suc k) s, take k [1, 2, 4], r)) \<and>
    ((\<forall>j. int j \<le> m \<longrightarrow> conclude (outcome_of (attempt_of post tenant event) j s) = None) \<longrightarrow>
      send_with_retry post m s event = (state_after (attempt_of post tenant event) (Suc (nat m)) s, take (nat m) [1, 2, 4],
        Inl (failure (outcome_of (attempt_of post tenant event) (nat m) s))))"
proof -
  have e: "send_with_retry post m s event = send_attempts (attempt_of post tenant event) (Suc (nat m)) 0 None s"
    using assms by (simp add: send_with_retry_def attempt_of_def[abs_def] nat_add_distrib)
  have b: "drop 0 BACKOFF_SECONDS = [1, 2, 4]" by (simp add: BACKOFF_SECONDS_def)
  show ?thesis
    unfolding e
    using send_attempts_conclude[of _ "Suc (nat m)" 0 "attempt_of post tenant event" s _ None, unfolded b]
      send_attempts_give_up[of "Suc (nat m)" 0 "attempt_of post tenant event" s None, unfolded b] assms(1,2)
    by (auto simp: less_Suc_eq_le zle_int nat_le_iff le_nat_iff)
qed

definition flaky :: "nat \<Rightarrow> string \<Rightarrow> json \<Rightarrow> nat \<times> outcome" where
  \<comment> \<open>two server errors, then success\<close>
  "flaky n tenant event = (Suc n, if n < 2 then Replied 503 None else Replied 201 (Some (JObj [])))"

theorem sdk_retries_witness:
  "send_with_retry flaky 3 0 [(''tenantId'', JStr ''acme'')] = (3, [1, 2], Inr [])"
  using sdk_retries[of 3 "[(''tenantId'', JStr ''acme'')]" "''acme''" flaky 0]
  by (auto simp: outcome_of_def state_after_def attempt_of_def flaky_def conclude_def raise_for_status_def response_json_def
      py_dict_def All_less_Suc numeral_2_eq_2 elim!: allE[of _ 2])

end
