(* ===== verification/SdkDelivery.thy ===== *)
theory SdkDelivery
  imports Sdk AppSpec
begin

text \<open>
  The SDK against the ingestion handler over a connection that may lose a request or its reply:
  because an attempt repeats the id of the first, a delivery that goes through within the budget
  stores the event once, whatever was lost before.
\<close>

section \<open>A lossy connection\<close>

datatype fate = Delivered | RequestLost | ReplyLost

definition over_channel :: "('g \<Rightarrow> 'g \<times> outcome) \<Rightarrow> fate list \<times> 'g \<Rightarrow> (fate list \<times> 'g) \<times> outcome" where
  \<comment> \<open>each call meets the next fate; once they are used up every call is delivered\<close>
  "over_channel deliver fg = (case fg of
     ([], g) \<Rightarrow> (let (g', out) = deliver g in (([], g'), out))
   | (Delivered # fs, g) \<Rightarrow> (let (g', out) = deliver g in ((fs, g'), out))
   | (RequestLost # fs, g) \<Rightarrow> ((fs, g), NoReply)
   | (ReplyLost # fs, g) \<Rightarrow> ((fs, fst (deliver g)), NoReply))"

definition ingest_reply :: "validator \<Rightarrow> pydatetime \<Rightarrow> string \<Rightarrow> json \<Rightarrow> store ingest \<Rightarrow> store ingest \<times> outcome" where
  \<comment> \<open>the ingestion endpoint as the other end\<close>
  "ingest_reply V now rid event st = (case ingest_event write_event V now rid st event of
     (st', Inr r) \<Rightarrow> (st', Replied (rs_status r) (Some (rs_content r)))
   | (st', Inl ServiceUnavailable) \<Rightarrow> (st', Replied 503 None)
   | (st', Inl e) \<Rightarrow> (st', Replied 500 None))"

section \<open>Exactly once\<close>

lemma over_channel_simps [simp]:
  "over_channel deliver ([], g) = (([], fst (deliver g)), snd (deliver g))"
  "over_channel deliver (Delivered # fs, g) = ((fs, fst (deliver g)), snd (deliver g))"
  "over_channel deliver (RequestLost # fs, g) = ((fs, g), NoReply)"
  "over_channel deliver (ReplyLost # fs, g) = ((fs, fst (deliver g)), NoReply)"
  by (simp_all add: over_channel_def split_beta)

lemma over_channel_lost:
  assumes first: "deliver g = (g1, out1)" and again: "fst (deliver g1) = g1"
  shows "k \<le> length fs \<Longrightarrow> Delivered \<notin> set (take k fs) \<Longrightarrow>
    state_after (over_channel deliver) k (fs, g) = (drop k fs, if ReplyLost \<in> set (take k fs) then g1 else g)"
proof (induction k)
  case (Suc k)
  then have f: "fs ! k \<noteq> Delivered" and d: "drop k fs = fs ! k # drop (Suc k) fs"
    by (auto simp: take_Suc_conv_app_nth Cons_nth_drop_Suc)
  have IH: "state_after (over_channel deliver) k (fs, g) = (drop k fs, if ReplyLost \<in> set (take k fs) then g1 else g)"
    using Suc by (auto simp: take_Suc_conv_app_nth)
  have t: "set (take (Suc k) fs) = insert (fs ! k) (set (take k fs))"
    using Suc.prems by (simp add: take_Suc_conv_app_nth)
  have s: "state_after (over_channel deliver) (Suc k) (fs, g) = fst (over_channel deliver (state_after (over_channel deliver) k (fs, g)))"
    by (simp add: state_after_def)
  show ?case unfolding s IH d t using f first again
    by (cases "fs ! k") auto
qed simp

lemma over_channel_outcome:
  assumes "deliver g = (g1, out1)" "fst (deliver g1) = g1" "k < length fs" "Delivered \<notin> set (take (Suc k) fs)"
  shows "outcome_of (over_channel deliver) k (fs, g) = NoReply"
proof -
  have f: "fs ! k \<noteq> Delivered" "Delivered \<notin> set (take k fs)" using assms(3,4) by (auto simp: take_Suc_conv_app_nth)
  have "drop k fs = fs ! k # drop (Suc k) fs" using assms(3) by (simp add: Cons_nth_drop_Suc)
  then show ?thesis
    unfolding outcome_of_def over_channel_lost[OF assms(1,2) less_imp_le[OF assms(3)] f(2)]
    using f(1) by (cases "fs ! k") simp_all
qed

lemma exactly_once:
  assumes d1: "deliver g = (g1, Replied 201 (Some (JObj b1)))" and d2: "deliver g1 = (g1, Replied 409 (Some (JObj b2)))"
    and k: "k \<le> length fs" "Delivered \<notin> set (take k fs)" "k < length fs \<longrightarrow> fs ! k = Delivered" and n: "k < n" "n \<le> 4"
  shows "\<exists>r. send_attempts (over_channel deliver) n 0 l (fs, g) = ((drop (Suc k) fs, g1), take k BACKOFF_SECONDS, Inr r)"
proof -
  let ?p = "over_channel deliver"
  have ag: "fst (deliver g1) = g1" using d2 by simp
  have st: "state_after ?p k (fs, g) = (drop k fs, if ReplyLost \<in> set (take k fs) then g1 else g)"
    by (rule over_channel_lost[OF d1 ag k(1,2)])
  have lost: "conclude (outcome_of ?p j (fs, g)) = None" if "j < k" for j
  proof -
    have "set (take (Suc j) fs) \<subseteq> set (take k fs)" using that by (simp add: set_take_subset_set_take)
    then have "outcome_of ?p j (fs, g) = NoReply"
      using over_channel_outcome[OF d1 ag, of j fs] that k by auto
    then show ?thesis by (simp add: conclude_def)
  qed
  have hit: "?p (drop k fs, h) = ((drop (Suc k) fs, fst (deliver h)), snd (deliver h))" for h
  proof (cases "k < length fs")
    case True
    then have "drop k fs = Delivered # drop (Suc k) fs" using k(3) by (metis Cons_nth_drop_Suc)
    then show ?thesis by simp
  next
    case False
    then show ?thesis by simp
  qed
  have out: "\<exists>r. conclude (outcome_of ?p k (fs, g)) = Some (Inr r)"
    unfolding outcome_of_def st hit using d1 d2
    by (auto simp: conclude_def raise_for_status_def response_json_def py_dict_def)
  then obtain r where r: "conclude (outcome_of ?p k (fs, g)) = Some (Inr r)" by blast
  have "state_after ?p (Suc k) (fs, g) = fst (?p (state_after ?p k (fs, g)))" by (simp add: state_after_def)
  also have "\<dots> = (drop (Suc k) fs, g1)" unfolding st hit using d1 d2 by simp
  finally have sk: "state_after ?p (Suc k) (fs, g) = (drop (Suc k) fs, g1)" .
  have "send_attempts ?p n 0 l (fs, g) = (state_after ?p (Suc k) (fs, g), take k (drop 0 BACKOFF_SECONDS), Inr r)"
    by (rule send_attempts_conclude[OF n(1) _ _ r]) (use n lost in auto)
  then show ?thesis using sk by auto
qed

lemma ingest_reply_first:
  assumes "store_ok (i_store st)" "validator_ok V" "validate V now e = Inr ()"
    "time_accepted (i_store st) e" "id_of_event e \<notin> stored_ids (i_store st)"
  shows "\<exists>st' b. ingest_reply V now rid e st = (st', Replied 201 (Some (JObj b))) \<and> store_ok (i_store st') \<and>
    stored_ids (i_store st') = insert (id_of_event e) (stored_ids (i_store st)) \<and> i_count st' = i_count st + 1 \<and>
    time_accepted (i_store st') e"
proof -
  obtain tenant p ts where p: "event_params e = Inr (tenant, p)"
    "cypher_datetime (engine (i_store st)) (p_eventTimestamp p) = Some ts"
    and i: "ingest_event write_event V now rid st e =
      (\<lparr>i_store = (i_store st)\<lparr>graph := write_result tenant p ts (graph (i_store st))\<rparr>, i_count = i_count st + 1\<rparr>,
       Inr (json_response 201 (JObj [(''eventId'', JStr (id_of_event e)), (''status'', JStr ''accepted'')])))"
    using ingest_new[OF assms] by blast
  have e: "p_eventId p = id_of_event e"
    using valid_event_parts[OF validate_valid[OF assms(2,3)]] p(1) by force
  have s: "store_ok ((i_store st)\<lparr>graph := write_result tenant p ts (graph (i_store st))\<rparr>)"
    using store_ok_write[OF assms(1) p(2)] assms(5) e by (simp add: stored_ids_def)
  have t: "time_accepted ((i_store st)\<lparr>graph := write_result tenant p ts (graph (i_store st))\<rparr>) e"
    using assms(4) by (simp add: time_accepted_def)
  show ?thesis
    unfolding ingest_reply_def i using s e t by (simp add: stored_ids_def)
qed

lemma ingest_reply_again:
  assumes "store_ok (i_store st)" "validator_ok V" "validate V now e = Inr ()"
    "time_accepted (i_store st) e" "id_of_event e \<in> stored_ids (i_store st)"
  shows "\<exists>b. ingest_reply V now rid e st = (st, Replied 409 (Some (JObj b)))"
  unfolding ingest_reply_def ingest_duplicate[OF assms] by (simp add: error_body_def)

lemma delivered_once:
  assumes s: "store_ok (i_store st)" "validator_ok V" "validate V now e = Inr ()"
    "time_accepted (i_store st) e" "id_of_event e \<notin> stored_ids (i_store st)"
    and k: "k \<le> length fs" "Delivered \<notin> set (take k fs)" "k < length fs \<longrightarrow> fs ! k = Delivered" "k < n" "n \<le> 4"
  shows "\<exists>st' r. send_attempts (over_channel (ingest_reply V now rid e)) n 0 l (fs, st) =
      ((drop (Suc k) fs, st'), take k BACKOFF_SECONDS, Inr r) \<and> store_ok (i_store st') \<and>
    stored_ids (i_store st') = insert (id_of_event e) (stored_ids (i_store st)) \<and> i_count st' = i_count st + 1"
proof -
  obtain st' b where 1: "ingest_reply V now rid e st = (st', Replied 201 (Some (JObj b)))" "store_ok (i_store st')"
    "stored_ids (i_store st') = insert (id_of_event e) (stored_ids (i_store st))" "i_count st' = i_count st + 1"
    "time_accepted (i_store st') e"
    using ingest_reply_first[OF s] by blast
  obtain b2 where 2: "ingest_reply V now rid e st' = (st', Replied 409 (Some (JObj b2)))"
    using ingest_reply_again[OF 1(2) s(2,3) 1(5)] 1(3) by blast
  show ?thesis using exactly_once[OF 1(1) 2 k, of l] 1(2-4) by blast
qed

section \<open>What is filled in\<close>

lemma prepare_event_lookup:
  "map_of (prepare_event i now event) k = (case map_of event k of Some v \<Rightarrow> Some v | None \<Rightarrow>
     if k = ''schemaVersion'' then Some (JStr ''1.0.0'') else if k = ''eventId'' then Some (JStr i)
     else if k = ''eventTimestamp'' then Some (JStr (isoformat_utc now)) else None)"
  by (simp add: prepare_event_def map_of_dict_setdefault split: option.split)

section \<open>Emitting over a lossy connection\<close>

definition lossy_ingest ::
  "validator \<Rightarrow> pydatetime \<Rightarrow> string \<Rightarrow> fate list \<times> store ingest \<Rightarrow> string \<Rightarrow> json \<Rightarrow> (fate list \<times> store ingest) \<times> outcome" where
  "lossy_ingest V now rid s tenant event = over_channel (ingest_reply V now rid event) s"

lemma emit_delivered_once:
  assumes s: "store_ok (i_store st)" "validator_ok V" "validate V now (JObj (prepare_event i sent event)) = Inr ()"
    "time_accepted (i_store st) (JObj (prepare_event i sent event))"
    "id_of_event (JObj (prepare_event i sent event)) \<notin> stored_ids (i_store st)"
    and k: "k \<le> length fs" "Delivered \<notin> set (take k fs)" "k < length fs \<longrightarrow> fs ! k = Delivered" "int k \<le> m" "m \<le> 3"
  shows "\<exists>st' r. emit (lossy_ingest V now rid) m i sent (fs, st) event =
      ((drop (Suc k) fs, st'), take k BACKOFF_SECONDS, Inr r) \<and> store_ok (i_store st') \<and>
    stored_ids (i_store st') = insert (id_of_event (JObj (prepare_event i sent event))) (stored_ids (i_store st)) \<and>
    i_count st' = i_count st + 1"
proof -
  let ?e = "prepare_event i sent event"
  note v = validate_valid[OF s(2,3)]
  obtain tenant where "req_str ''tenantId'' (JObj ?e) = Inr tenant" using valid_event_params[OF v] by blast
  then have t: "py_item ''tenantId'' (JObj ?e) = Inr (JStr tenant)"
    by (auto simp: req_str_def res_simps split: option.splits json.splits)
  have n: "k < nat (m + 1)" "nat (m + 1) \<le> 4" "\<not> m + 1 \<le> 0" using k(4,5) by auto
  show ?thesis
    unfolding emit_def Let_def validate_event_valid[OF v] send_with_retry_def t sum.case json.case if_not_P[OF n(3)] lossy_ingest_def
    by (rule delivered_once[OF s k(1-3) n(1,2)])
qed

end
