(* ===== verification/Months.thy ===== *)
theory Months
  imports Calendar
begin

text \<open>
  The months of the calendar on one line: month \<open>k\<close> is month \<open>k mod 12 + 1\<close> of year
  \<open>k div 12\<close>, its days follow those of month \<open>k - 1\<close>, and an ordinal lies in one month.
\<close>

definition month_index :: "int \<Rightarrow> int \<Rightarrow> int" where
  "month_index y m = 12 * y + (m - 1)"

definition month_at :: "int \<Rightarrow> int \<times> int" where
  "month_at k = (k div 12, k mod 12 + 1)"

definition month_start :: "int \<Rightarrow> int" where
  \<comment> \<open>the ordinal before the first day of the month\<close>
  "month_start k = (case month_at k of (y, m) \<Rightarrow> days_before_year y + days_before_month y m)"

definition month_length :: "int \<Rightarrow> int" where
  "month_length k = (case month_at k of (y, m) \<Rightarrow> days_in_month y m)"

lemma month_at_index: "1 \<le> m \<Longrightarrow> m \<le> 12 \<Longrightarrow> month_at (month_index y m) = (y, m)"
  by (auto simp: month_at_def month_index_def div_mult_self1 mod_mult_self1)

lemma days_before_month_Suc: "1 \<le> m \<Longrightarrow> days_before_month y (m + 1) = days_before_month y m + days_in_month y m"
  by (simp add: days_before_month_def upto_rec2)

lemma month_start_Suc: "month_start (k + 1) = month_start k + month_length k"
proof -
  define y where "y = k div 12"
  define m where "m = k mod 12 + 1"
  have m: "1 \<le> m" "m \<le> 12" and k: "k = 12 * y + (m - 1)" by (auto simp: y_def m_def)
  show ?thesis
  proof (cases "m = 12")
    case True
    then have "month_at (k + 1) = (y + 1, 1)" using k by (simp add: month_at_def)
    moreover have "month_at k = (y, 12)" using True by (simp add: month_at_def y_def m_def)
    ultimately show ?thesis
      by (simp add: month_start_def month_length_def december_31 days_before_month_eq(1) days_in_month_def)
  next
    case False
    then have "month_at (k + 1) = (y, m + 1)" using month_at_index[of "m + 1" y] m k by (simp add: month_index_def)
    moreover have "month_at k = (y, m)" by (simp add: month_at_def y_def m_def)
    ultimately show ?thesis using m by (simp add: month_start_def month_length_def days_before_month_Suc)
  qed
qed

lemma month_length_pos: "28 \<le> month_length k"
  by (auto simp: month_length_def month_at_def days_in_month_def)

lemma month_start_mono: "j \<le> k \<Longrightarrow> month_start j \<le> month_start k"
proof (induction k rule: int_ge_induct)
  case (step i)
  then show ?case using month_length_pos[of i] by (simp add: month_start_Suc)
qed simp

lemma ymd2ord_index:
  "1 \<le> m \<Longrightarrow> m \<le> 12 \<Longrightarrow> ymd2ord y m d = month_start (month_index y m) + d"
  by (simp add: ymd2ord_def month_start_def month_at_index)

text \<open>An ordinal lies in one month.\<close>

lemma month_of_ordinal:
  assumes "month_start j < n" "n \<le> month_start (j + 1)" "month_start k < n" "n \<le> month_start (k + 1)"
  shows "j = k"
proof (rule ccontr)
  assume "j \<noteq> k"
  then consider "j + 1 \<le> k" | "k + 1 \<le> j" by linarith
  then show False using month_start_mono assms by cases fastforce+
qed

lemma ord2ymd_month:
  assumes "1 \<le> n" "n \<le> max_ordinal" "ord2ymd n = (y, m, d)"
  shows "1 \<le> m" "m \<le> 12" "month_start (month_index y m) < n" "n \<le> month_start (month_index y m + 1)"
proof -
  note v = ord2ymd_inverse[OF assms]
  show m: "1 \<le> m" "m \<le> 12" using v(1) by (auto simp: valid_ymd_def)
  have l: "month_length (month_index y m) = days_in_month y m" using m by (simp add: month_length_def month_at_index)
  show "month_start (month_index y m) < n" "n \<le> month_start (month_index y m + 1)"
    using v ymd2ord_index[OF m, of y d] by (auto simp: valid_ymd_def month_start_Suc l)
qed

lemma year_from:
  assumes "1 \<le> n" "n \<le> max_ordinal" "ord2ymd n = (y, m, d)" "ymd2ord y0 1 1 \<le> n"
  shows "y0 \<le> y"
proof (rule ccontr)
  assume "\<not> y0 \<le> y"
  note i = ord2ymd_month[OF assms(1-3)]
  have "month_index y m + 1 \<le> month_index y0 1" using \<open>\<not> y0 \<le> y\<close> i(2) by (simp add: month_index_def)
  then have "n \<le> month_start (month_index y0 1)" using i(4) month_start_mono by fastforce
  then show False using assms(4) ymd2ord_index[of 1 y0 1] by simp
qed

end
