(* ===== verification/RandomSource.thy ===== *)
theory RandomSource
  imports PyValues "HOL-Library.Stream"
begin

text \<open>
  Programs that draw random numbers and fresh identifiers. A run is given by the numbers its
  generator will draw and the 128-bit integers \<open>uuid4\<close> will return, two streams about which
  nothing is assumed, so what holds for all worlds holds for every seed. A program may raise;
  \<open>always P m\<close> says that \<open>m\<close> never does and that its results satisfy \<open>P\<close>, with one rule
  per operation.
\<close>

section \<open>The world of a run\<close>

record world =
  draws :: "nat stream"
  uuids :: "nat stream"
  counters :: "(string, nat) pydict"  \<comment> \<open>the object ids handed out, by prefix\<close>

type_synonym 'a gen = "world \<Rightarrow> py_error + 'a \<times> world"

definition yield :: "'a \<Rightarrow> 'a gen" where
  "yield x w = Inr (x, w)"

definition raise_error :: "py_error \<Rightarrow> 'a gen" where
  "raise_error e w = Inl e"

definition gbind :: "'a gen \<Rightarrow> ('a \<Rightarrow> 'b gen) \<Rightarrow> 'b gen" where
  "gbind m f w = ebind (m w) (\<lambda>(x, w'). f x w')"

definition gmap :: "('a \<Rightarrow> 'b) \<Rightarrow> 'a gen \<Rightarrow> 'b gen" where
  "gmap f m = gbind m (\<lambda>x. yield (f x))"

definition from_result :: "py_error + 'a \<Rightarrow> 'a gen" where
  "from_result r = (case r of Inl e \<Rightarrow> raise_error e | Inr x \<Rightarrow> yield x)"

fun traverse :: "('a \<Rightarrow> 'b gen) \<Rightarrow> 'a list \<Rightarrow> 'b list gen" where
  \<comment> \<open>a loop that collects\<close>
  "traverse f [] = yield []"
| "traverse f (x # xs) = gbind (f x) (\<lambda>y. gbind (traverse f xs) (\<lambda>ys. yield (y # ys)))"

definition traverse_concat :: "('a \<Rightarrow> 'b list gen) \<Rightarrow> 'a list \<Rightarrow> 'b list gen" where
  \<comment> \<open>a loop that extends a list\<close>
  "traverse_concat f xs = gmap concat (traverse f xs)"

section \<open>The draws\<close>

definition randbelow :: "nat \<Rightarrow> nat gen" where
  "randbelow n w = Inr (shd (draws w) mod n, w\<lparr>draws := stl (draws w)\<rparr>)"

definition choice :: "'a list \<Rightarrow> 'a gen" where
  \<comment> \<open>\<open>rng.choice(xs)\<close>\<close>
  "choice xs = (if xs = [] then raise_error IndexError
     else gmap (\<lambda>i. xs ! i) (randbelow (length xs)))"

definition randint :: "int \<Rightarrow> int \<Rightarrow> int gen" where
  \<comment> \<open>\<open>rng.randint(a, b)\<close>\<close>
  "randint a b = (if b < a then raise_error (ValueError ''empty range for randrange()'')
     else gmap (\<lambda>i. a + int i) (randbelow (nat (b - a + 1))))"

definition random_unit :: "real gen" where
  \<comment> \<open>\<open>rng.random()\<close>: a multiple of \<open>2 ^ -53\<close> below one\<close>
  "random_unit = gmap (\<lambda>k. real k / 2 ^ 53) (randbelow (2 ^ 53))"

definition uniform :: "real \<Rightarrow> real \<Rightarrow> real gen" where
  "uniform a b = gmap (\<lambda>x. a + (b - a) * x) random_unit"

section \<open>Identifiers\<close>

definition uuid4 :: "nat gen" where
  "uuid4 w = Inr (shd (uuids w) mod 2 ^ 128, w\<lparr>uuids := stl (uuids w)\<rparr>)"

fun hex_digits :: "nat \<Rightarrow> nat \<Rightarrow> string" where
  \<comment> \<open>the last digits of a number in base sixteen\<close>
  "hex_digits 0 n = []"
| "hex_digits (Suc k) n = hex_digits k (n div 16) @ [hex_char (n mod 16)]"

definition uuid_hex :: "nat \<Rightarrow> string" where
  "uuid_hex u = hex_digits 32 u"

definition uuid_str :: "nat \<Rightarrow> string" where
  "uuid_str u = (let h = uuid_hex u in take 8 h @ ''-'' @ take 4 (drop 8 h) @ ''-'' @ take 4 (drop 12 h) @ ''-'' @
     take 4 (drop 16 h) @ ''-'' @ drop 20 h)"

section \<open>Numbers of the payloads\<close>

fun shortest :: "nat \<Rightarrow> int \<Rightarrow> int \<Rightarrow> json" where
  \<comment> \<open>the float \<open>m * 10 ^ e\<close> by its shortest decimal; the first argument bounds the zeros dropped\<close>
  "shortest 0 m e = JFloat m e"
| "shortest (Suc k) m e = (if m = 0 then JFloat 0 0 else if m mod 10 = 0 then shortest k (m div 10) (e + 1) else JFloat m e)"

definition rounded :: "nat \<Rightarrow> real \<Rightarrow> json" where
  \<comment> \<open>\<open>round(x, n)\<close>\<close>
  "rounded n x = (let m = pyround (x * 10 ^ n) in shortest (nat \<bar>m\<bar>) m (- int n))"

section \<open>Programs that never raise\<close>

definition always :: "('a \<Rightarrow> bool) \<Rightarrow> 'a gen \<Rightarrow> bool" where
  "always P m \<longleftrightarrow> (\<forall>w. \<exists>x w'. m w = Inr (x, w') \<and> P x)"

named_theorems always_intros

lemma alwaysD: "always P m \<Longrightarrow> \<exists>x w'. m w = Inr (x, w') \<and> P x"
  by (simp add: always_def)

lemma always_mono: "always P m \<Longrightarrow> (\<And>x. P x \<Longrightarrow> Q x) \<Longrightarrow> always Q m"
  unfolding always_def by blast

lemma always_yield [always_intros]: "P x \<Longrightarrow> always P (yield x)"
  by (simp add: always_def yield_def)

lemma always_gbind: "always P m \<Longrightarrow> (\<And>x. P x \<Longrightarrow> always Q (f x)) \<Longrightarrow> always Q (gbind m f)"
  unfolding always_def gbind_def by (metis case_prod_conv ebind_Inr)

lemma always_gmap: "always P m \<Longrightarrow> (\<And>x. P x \<Longrightarrow> Q (f x)) \<Longrightarrow> always Q (gmap f m)"
  unfolding gmap_def by (auto intro: always_gbind always_yield)

lemma always_from_result: "r = Inr x \<Longrightarrow> P x \<Longrightarrow> always P (from_result r)"
  by (simp add: from_result_def always_yield)

lemma always_randbelow: "0 < n \<Longrightarrow> always (\<lambda>i. i < n) (randbelow n)"
  by (simp add: always_def randbelow_def)

lemma always_choice [always_intros]: "xs \<noteq> [] \<Longrightarrow> (\<And>x. x \<in> set xs \<Longrightarrow> P x) \<Longrightarrow> always P (choice xs)"
  by (auto simp: choice_def intro: always_gmap[OF always_randbelow])

lemma always_randint: "a \<le> b \<Longrightarrow> always (\<lambda>i. a \<le> i \<and> i \<le> b) (randint a b)"
  by (auto simp: randint_def intro!: always_gmap[OF always_randbelow])

lemma always_random_unit: "always (\<lambda>x. 0 \<le> x \<and> x < 1) random_unit"
  unfolding random_unit_def by (rule always_gmap[OF always_randbelow]) (auto simp del: of_nat_power)

lemma always_uniform [always_intros]: "(\<And>x. P x) \<Longrightarrow> always P (uniform a b)"
  unfolding uniform_def by (rule always_gmap[OF always_random_unit]) simp

lemma always_uuid4 [always_intros]: "(\<And>u. P u) \<Longrightarrow> always P uuid4"
  by (simp add: always_def uuid4_def)

lemma always_traverse:
  "(\<And>x. x \<in> set xs \<Longrightarrow> always (P x) (f x)) \<Longrightarrow> always (list_all2 P xs) (traverse f xs)"
  by (induction xs) (auto intro!: always_yield always_gbind)

lemma list_all2_const: "list_all2 (\<lambda>x y. P y) xs ys \<Longrightarrow> y \<in> set ys \<Longrightarrow> P y"
  by (induction rule: list_all2_induct) auto

lemma always_traverse_concat:
  assumes "\<And>x. x \<in> set xs \<Longrightarrow> always (\<lambda>ys. \<forall>y \<in> set ys. P y) (f x)"
  shows "always (\<lambda>ys. \<forall>y \<in> set ys. P y) (traverse_concat f xs)"
  unfolding traverse_concat_def
  by (rule always_gmap[OF always_traverse[OF assms]]) (auto dest: list_all2_const)

lemma hex_digits_length [simp]: "length (hex_digits k n) = k"
  by (induction k arbitrary: n) auto

lemma uuid_hex_nonempty [simp]: "uuid_hex u \<noteq> []"
  using hex_digits_length[of 32 u] by (auto simp: uuid_hex_def simp del: hex_digits_length)

end
