(* ===== verification/AuditLog.thy ===== *)
theory AuditLog
  imports Contract Months RandomSource HttpClient
begin

text \<open>
  \<open>samples/log-simulator\<close>: the lines of a legacy audit log, written by \<open>log_generator.py\<close>
  and read by \<open>log_listener.py\<close>, which turns each into an event of the contract.
\<close>

section \<open>The generator\<close>

definition APP_NAME :: string where
  "APP_NAME = ''legacy-erp''"

definition LOG_USERS :: "string list" where
  "LOG_USERS = [''emp001'', ''emp002'', ''emp003'', ''emp004'', ''emp005'']"

definition LOG_ACTIONS :: "(string \<times> string) list" where
  "LOG_ACTIONS = [(''view_report'', ''report''), (''approve_invoice'', ''invoice''), (''update_record'', ''record''),
     (''export_ledger'', ''ledger''), (''search_vendor'', ''vendor'')]"

definition OBJECT_SUFFIXES :: "string list" where
  "OBJECT_SUFFIXES = [''Q1'', ''Q2'', ''Q3'', ''2026-07'', ''north'', ''south'', ''acct-4471'']"

definition log_timestamp :: "pydatetime \<Rightarrow> string" where
  \<comment> \<open>\<open>strftime("%Y-%m-%dT%H:%M:%SZ")\<close>, which does not pad the year\<close>
  "log_timestamp now = (let us = dt_instant now; r = us mod us_per_day; (y, m, d) = ord2ymd (us div us_per_day + epoch_ordinal)
     in show_nat (nat y) @ ''-'' @ two m @ ''-'' @ two d @ ''T'' @
        clock_text (r div us_per_hour) (r div us_per_minute mod 60) (r div us_per_second mod 60) @ ''Z'')"

definition log_line :: "string \<Rightarrow> string \<Rightarrow> string \<Rightarrow> string \<Rightarrow> string" where
  "log_line timestamp user action object_id =
     timestamp @ '' user='' @ user @ '' action='' @ action @ '' object='' @ object_id @ '' app='' @ APP_NAME"

definition build_log_line :: "pydatetime \<Rightarrow> string gen" where
  "build_log_line now =
     gbind (choice LOG_USERS) (\<lambda>user.
     gbind (choice LOG_ACTIONS) (\<lambda>(action, object_type).
     gbind (choice OBJECT_SUFFIXES) (\<lambda>suffix.
     yield (log_line (log_timestamp now) user action (object_type @ '':'' @ suffix)))))"

definition append_lines :: "pydatetime list \<Rightarrow> string \<Rightarrow> string gen" where
  \<comment> \<open>the file after one line for each reading of the clock\<close>
  "append_lines readings contents =
     gmap (\<lambda>ls. contents @ concat (map (\<lambda>l. l @ [CHR 0x0A]) ls)) (traverse build_log_line readings)"

section \<open>The listener\<close>

definition LOG_INSTANCE_ID :: string where
  "LOG_INSTANCE_ID = ''legacy-erp-prod''"

definition LOG_CONNECTOR :: string where
  "LOG_CONNECTOR = ''log-listener''"

definition LOG_CONNECTOR_VERSION :: string where
  "LOG_CONNECTOR_VERSION = ''0.1.0''"

definition CATEGORY_BY_VERB :: "(string \<times> string) list" where
  "CATEGORY_BY_VERB = [(''view'', ''read''), (''export'', ''read''), (''search'', ''search''), (''approve'', ''approve''),
     (''reject'', ''reject''), (''update'', ''update''), (''create'', ''create''), (''delete'', ''delete'')]"

fun add_tokens :: "string list \<Rightarrow> (string \<times> string) list \<Rightarrow> (string \<times> string) list option" where
  "add_tokens [] entry = Some entry"
| "add_tokens (token # ts) entry = (case split_first (CHR ''='') token of
     (key, None) \<Rightarrow> None
   | (key, Some v) \<Rightarrow> add_tokens ts (AList.update key v entry))"

definition parse_log_line :: "string \<Rightarrow> (string \<times> string) list option" where
  "parse_log_line line = (case split_ws (strip line) of
     [] \<Rightarrow> None
   | timestamp # tokens \<Rightarrow>
       if length tokens < 4 then None
       else (case add_tokens tokens [(''timestamp'', timestamp)] of
         None \<Rightarrow> None
       | Some entry \<Rightarrow>
           if \<exists>key \<in> set [''user'', ''action'', ''object'', ''app'']. map_of entry key = None then None
           else Some entry))"

definition category_for :: "string \<Rightarrow> string" where
  "category_for action = (case map_of CATEGORY_BY_VERB (fst (split_first (CHR ''_'') action)) of
     None \<Rightarrow> ''read'' | Some c \<Rightarrow> c)"

definition iso_timestamp :: "string \<Rightarrow> string" where
  "iso_timestamp raw = replace_char (CHR ''Z'') ''+00:00'' raw"

definition field_of :: "string \<Rightarrow> (string \<times> string) list \<Rightarrow> py_error + string" where
  "field_of key entry = (case map_of entry key of None \<Rightarrow> Inl (KeyError key) | Some v \<Rightarrow> Inr v)"

definition or_else :: "string \<Rightarrow> string \<Rightarrow> string" where
  \<comment> \<open>\<open>a or b\<close> on strings\<close>
  "or_else a b = (if a = [] then b else a)"

definition to_event :: "string \<Rightarrow> (string \<times> string) list \<Rightarrow> string \<Rightarrow> py_error + json" where
  "to_event event_id entry tenant_id =
     ebind (field_of ''object'' entry) (\<lambda>obj.
     ebind (field_of ''app'' entry) (\<lambda>app.
     ebind (field_of ''timestamp'' entry) (\<lambda>ts.
     ebind (field_of ''user'' entry) (\<lambda>user.
     ebind (field_of ''action'' entry) (\<lambda>action.
     let (object_type, rest) = split_first (CHR '':'') obj; object_id = (case rest of None \<Rightarrow> [] | Some i \<Rightarrow> i)
     in Inr (JObj
       [(''schemaVersion'', JStr ''1.0.0''), (''eventId'', JStr event_id), (''tenantId'', JStr tenant_id),
        (''applicationId'', JStr app), (''applicationInstanceId'', JStr LOG_INSTANCE_ID),
        (''environment'', JStr ''production''), (''eventTimestamp'', JStr (iso_timestamp ts)),
        (''actor'', JObj [(''nativeUserId'', JStr user), (''userIdType'', JStr ''app_native_id'')]),
        (''action'', JObj [(''type'', JStr action), (''category'', JStr (category_for action))]),
        (''object'', JObj [(''objectType'', JStr (or_else object_type ''record'')), (''objectId'', JStr (or_else object_id obj))]),
        (''source'', JObj [(''connector'', JStr LOG_CONNECTOR), (''connectorVersion'', JStr LOG_CONNECTOR_VERSION)])]))))))"

section \<open>Tokens\<close>

lemma split_ws_from_spaces: "\<forall>c \<in> set u. is_space c \<Longrightarrow> split_ws_from t (s @ u) = split_ws_from t s"
proof (induction s arbitrary: t)
  case Nil
  then show ?case by (induction u arbitrary: t) auto
qed auto

lemma split_ws_dropWhile: "split_ws (dropWhile is_space s) = split_ws s"
  by (induction s) (auto simp: split_ws_def)

lemma split_ws_strip: "split_ws (strip s) = split_ws s"
proof -
  have "rev (rev s) = rev (dropWhile is_space (rev s)) @ rev (takeWhile is_space (rev s))" for s
    by (metis rev_append takeWhile_dropWhile_id)
  then have "split_ws (rstrip s) = split_ws s" for s
    unfolding split_ws_def rstrip_def
    by (metis rev_rev_ident set_rev set_takeWhileD split_ws_from_spaces)
  then show ?thesis by (simp add: strip_def lstrip_def split_ws_dropWhile)
qed

lemma split_ws_join:
  "\<forall>w \<in> set ws. w \<noteq> [] \<and> (\<forall>c \<in> set w. \<not> is_space c) \<Longrightarrow> split_ws (join '' '' ws) = ws"
proof (induction ws rule: induct_list012)
  case (2 w)
  then show ?case using split_ws_from_token[of w "[]" "[]"] by (simp add: split_ws_def)
next
  case (3 w v ws)
  have "split_ws_from [] (w @ CHR '' '' # join '' '' (v # ws)) = split_ws_from w (CHR '' '' # join '' '' (v # ws))"
    using 3(3) split_ws_from_token[of w "[]"] by simp
  also have "\<dots> = w # split_ws (join '' '' (v # ws))"
    using 3(3) by (simp add: split_ws_def is_space_def code_def)
  finally show ?case using 3 by (simp add: split_ws_def)
qed (simp add: split_ws_def)

definition plain :: "string \<Rightarrow> bool" where
  \<comment> \<open>text without white space\<close>
  "plain w = (\<forall>c \<in> set w. \<not> is_space c)"

lemma parse_log_line_fields:
  assumes "ts \<noteq> []" "plain ts" "plain user" "plain action" "plain obj"
  shows "parse_log_line (log_line ts user action obj @ [CHR 0x0A]) =
    Some [(''timestamp'', ts), (''user'', user), (''action'', action), (''object'', obj), (''app'', APP_NAME)]"
proof -
  let ?ws = "[ts, ''user='' @ user, ''action='' @ action, ''object='' @ obj, ''app='' @ APP_NAME]"
  have n: "\<forall>c \<in> set [CHR 0x0A]. is_space c" by code_simp
  have k: "plain ''user=''" "plain ''action=''" "plain ''object=''" "plain (''app='' @ APP_NAME)" by code_simp+
  have w: "\<forall>w \<in> set ?ws. w \<noteq> [] \<and> (\<forall>c \<in> set w. \<not> is_space c)"
    using assms k unfolding plain_def by auto
  have l: "log_line ts user action obj = join '' '' ?ws" by (simp add: log_line_def)
  have "split_ws (join '' '' ?ws @ [CHR 0x0A]) = split_ws (join '' '' ?ws)"
    unfolding split_ws_def by (rule split_ws_from_spaces[OF n])
  then have "split_ws (log_line ts user action obj @ [CHR 0x0A]) = ?ws"
    unfolding l split_ws_join[OF w] .
  then show ?thesis by (simp add: parse_log_line_def split_ws_strip)
qed

section \<open>The events of a log\<close>

lemma action_category: "category_for action \<in> set action_categories"
proof -
  have v: "set (map snd CATEGORY_BY_VERB) \<subseteq> set action_categories" "''read'' \<in> set action_categories" by code_simp+
  show ?thesis
    using v by (auto simp: category_for_def split: option.splits dest!: map_of_SomeD)
qed

definition log_event :: "string \<Rightarrow> string \<Rightarrow> string \<Rightarrow> string \<Rightarrow> string \<Rightarrow> string \<Rightarrow> string \<Rightarrow> string \<Rightarrow> (string \<times> json) list" where
  "log_event i tenant app ts user action object_type object_id =
     event_fields i tenant app LOG_INSTANCE_ID ''production'' (iso_timestamp ts)
       (JObj [(''nativeUserId'', JStr user), (''userIdType'', JStr ''app_native_id'')])
       (JObj [(''type'', JStr action), (''category'', JStr (category_for action))])
       (JObj [(''objectType'', JStr object_type), (''objectId'', JStr object_id)])
       (JObj [(''connector'', JStr LOG_CONNECTOR), (''connectorVersion'', JStr LOG_CONNECTOR_VERSION)]) @ []"

lemma log_event_get [simp]:
  "map_of (log_event i tenant app ts user action ot oi) ''eventId'' = Some (JStr i)"
  "map_of (log_event i tenant app ts user action ot oi) ''tenantId'' = Some (JStr tenant)"
  "map_of (log_event i tenant app ts user action ot oi) ''eventTimestamp'' = Some (JStr (iso_timestamp ts))"
  "map_of (log_event i tenant app ts user action ot oi) ''actor'' =
     Some (JObj [(''nativeUserId'', JStr user), (''userIdType'', JStr ''app_native_id'')])"
  "map_of (log_event i tenant app ts user action ot oi) ''object'' =
     Some (JObj [(''objectType'', JStr ot), (''objectId'', JStr oi)])"
  unfolding log_event_def by (rule event_fields_get)+

lemma to_event_eq:
  assumes "map_of entry ''object'' = Some obj" "map_of entry ''app'' = Some app" "map_of entry ''timestamp'' = Some ts"
    "map_of entry ''user'' = Some user" "map_of entry ''action'' = Some action"
    and "split_first (CHR '':'') obj = (object_type, rest)"
  shows "to_event i entry tenant = Inr (JObj (log_event i tenant app ts user action (or_else object_type ''record'')
    (or_else (case rest of None \<Rightarrow> [] | Some i \<Rightarrow> i) obj)))"
  unfolding to_event_def field_of_def assms option.case ebind_Inr Let_def prod.case log_event_def event_fields_def append_Nil2 ..

lemma log_event_valid:
  assumes "contract_tenant tenant" "app \<noteq> []" "user \<noteq> []" "action \<noteq> []" "object_type \<noteq> []" "object_id \<noteq> []"
  shows "valid event_schema (JObj (log_event i tenant app ts user action object_type object_id))"
proof -
  have parts: "LOG_INSTANCE_ID \<noteq> []" "LOG_CONNECTOR \<noteq> []" "LOG_CONNECTOR_VERSION \<noteq> []"
    by (simp_all add: LOG_INSTANCE_ID_def LOG_CONNECTOR_def LOG_CONNECTOR_VERSION_def)
  have enums: "''production'' \<in> set environments" "''app_native_id'' \<in> set user_id_types" by code_simp+
  show ?thesis
    unfolding log_event_def
    by (rule valid_event_fields[OF assms(1,2) parts(1) enums(1) valid_actor_plain[OF assms(3) enums(2)]
      valid_action_plain[OF assms(4) action_category] valid_object_plain[OF assms(5,6)] valid_source_plain[OF parts(2,3)]]) simp
qed

section \<open>Timestamps of the log\<close>

lemma four_digits:
  assumes "1000 \<le> y" "y \<le> 9999"
  shows "show_nat (nat y) = zfill 4 (show_nat (nat y))"
proof -
  define n where "n = nat y"
  have n: "1000 \<le> n" using assms by (simp add: n_def)
  have step: "length (show_nat k) = Suc (length (show_nat (k div 10)))" if "10 \<le> k" for k
    using that by (simp add: show_nat.simps[of k])
  have d: "100 \<le> n div 10" "10 \<le> n div 10 div 10" using div_le_mono[OF n, of 10] div_le_mono[OF n, of 100] by (simp_all add: div_mult2_eq[symmetric])
  have "length (show_nat n) = Suc (Suc (Suc (length (show_nat (n div 10 div 10 div 10)))))"
    using step[of n] step[of "n div 10"] step[of "n div 10 div 10"] n d by simp
  moreover have "0 < length (show_nat (n div 10 div 10 div 10))" by simp
  ultimately have "4 \<le> length (show_nat n)" by linarith
  then show ?thesis unfolding n_def zfill_def by simp
qed

definition since_1970 :: "pydatetime \<Rightarrow> bool" where
  "since_1970 now = (0 \<le> dt_instant now \<and> dt_instant now < max_instant)"

lemma log_timestamp_text:
  assumes "since_1970 now"
  shows "\<exists>y m d r. valid_ymd y m d \<and> 0 \<le> r \<and> r < us_per_day \<and>
    dt_instant now = (ymd2ord y m d - epoch_ordinal) * us_per_day + r \<and>
    log_timestamp now = ymd_text y m d @ ''T'' @
      clock_text (r div us_per_hour) (r div us_per_minute mod 60) (r div us_per_second mod 60) @ ''Z''"
proof -
  define day where "day = dt_instant now div us_per_day"
  define r where "r = dt_instant now mod us_per_day"
  obtain y m d where o: "ord2ymd (day + epoch_ordinal) = (y, m, d)" by (cases "ord2ymd (day + epoch_ordinal)") auto
  have "0 \<le> day" using assms by (simp add: since_1970_def day_def us_defs pos_imp_zdiv_nonneg_iff)
  moreover have "day + epoch_ordinal \<le> max_ordinal"
    using assms by (auto simp: since_1970_def max_instant_def day_def us_defs epoch_ordinal_def max_ordinal_def)
  ultimately have n: "1 \<le> day + epoch_ordinal" "day + epoch_ordinal \<le> max_ordinal" "epoch_ordinal \<le> day + epoch_ordinal"
    by (simp_all add: epoch_ordinal_def)
  note v = ord2ymd_inverse[OF n(1,2) o]
  have "ymd2ord 1000 1 1 \<le> epoch_ordinal" by code_simp
  then have "1000 \<le> y" using year_from[OF n(1,2) o] n(3) by simp
  then have y: "show_nat (nat y) = zfill 4 (show_nat (nat y))" using v(1) by (intro four_digits) (auto simp: valid_ymd_def)
  have "log_timestamp now = ymd_text y m d @ ''T'' @
      clock_text (r div us_per_hour) (r div us_per_minute mod 60) (r div us_per_second mod 60) @ ''Z''"
    using o y unfolding log_timestamp_def ymd_text_def Let_def day_def r_def by simp
  moreover have "dt_instant now = (ymd2ord y m d - epoch_ordinal) * us_per_day + r"
    unfolding v(2) by (simp add: day_def r_def)
  moreover have "0 \<le> r" "r < us_per_day" by (simp_all add: r_def us_defs)
  ultimately show ?thesis using v(1) by blast
qed

lemma ymd_text_chars: "c \<in> set (ymd_text y m d) \<Longrightarrow> is_digit c \<or> c = CHR ''-''"
  using digits_zfill[of c 4 "nat y"] digits_two[of c m] digits_two[of c d] by (auto simp: ymd_text_def)

lemma clock_text_chars: "c \<in> set (clock_text h m s) \<Longrightarrow> is_digit c \<or> c = CHR '':''"
  using digits_two[of c h] digits_two[of c m] digits_two[of c s] by (auto simp: clock_text_def)

lemma log_timestamp_reads_back:
  assumes "since_1970 now"
  shows "fromisoformat (iso_timestamp (log_timestamp now)) =
      Some (utc (dt_instant now - dt_instant now mod us_per_second))"
    and "plain (log_timestamp now)" "log_timestamp now \<noteq> []"
proof -
  obtain y m d r where v: "valid_ymd y m d" and r: "0 \<le> r" "r < us_per_day"
    and t: "dt_instant now = (ymd2ord y m d - epoch_ordinal) * us_per_day + r"
    and l: "log_timestamp now = ymd_text y m d @ ''T'' @
      clock_text (r div us_per_hour) (r div us_per_minute mod 60) (r div us_per_second mod 60) @ ''Z''"
    using log_timestamp_text[OF assms] by blast
  let ?c = "clock_text (r div us_per_hour) (r div us_per_minute mod 60) (r div us_per_second mod 60)"
  have dg: "\<not> is_digit (CHR ''Z'')" "is_digit c \<Longrightarrow> \<not> is_space c" for c
    by code_simp (auto simp: is_digit_def is_space_def Let_def)
  have z: "CHR ''Z'' \<notin> set (ymd_text y m d)" "CHR ''Z'' \<notin> set ?c"
    using ymd_text_chars[of "CHR ''Z''"] clock_text_chars[of "CHR ''Z''"] dg(1) by auto
  have "plain ''T''" "plain ''Z''" "\<not> is_space (CHR ''-'')" "\<not> is_space (CHR '':'')" by code_simp+
  then show "plain (log_timestamp now)" "log_timestamp now \<noteq> []"
    using ymd_text_chars clock_text_chars dg(2) unfolding l plain_def set_append by blast+
  have i: "iso_timestamp (log_timestamp now) = ymd_text y m d @ ''T'' @ ?c @ micro_text 0 @ ''+00:00''"
    unfolding l iso_timestamp_def by (simp add: replace_char_notin[OF z(1)] replace_char_notin[OF z(2)] micro_text_def)
  have k: "clock_us (r div us_per_hour, r div us_per_minute mod 60, r div us_per_second mod 60, 0) = r - r mod us_per_second"
    using clock_split(1)[OF r] by (simp add: clock_us_def)
  have m: "dt_instant now mod us_per_second = r mod us_per_second"
    unfolding t by (simp add: us_defs mod_add_left_eq[symmetric])
  have "fromisoformat (ymd_text y m d @ ''T'' @ ?c @ micro_text 0 @ ''+00:00'') =
      Some (DateTime ((ymd2ord y m d - epoch_ordinal) * us_per_day + (r - r mod us_per_second)) (Some 0))"
    using fromisoformat_parts[OF v clock_split(2,3)[OF r], of "r div us_per_minute mod 60" "r div us_per_second mod 60" 0]
    unfolding k by simp
  then show "fromisoformat (iso_timestamp (log_timestamp now)) = Some (utc (dt_instant now - dt_instant now mod us_per_second))"
    unfolding i utc_def m by (simp add: t add_diff_eq)
qed

section \<open>Following a log\<close>

definition post_log_event ::
  "('s \<Rightarrow> string \<Rightarrow> json \<Rightarrow> 's \<times> outcome) \<Rightarrow> 's \<Rightarrow> string \<Rightarrow> json \<Rightarrow> 's \<times> (py_error + bool)" where
  "post_log_event post s tenant event = (case post s tenant event of
     (s', NoReply) \<Rightarrow> (s', Inl TransportError)
   | (s', Replied status _) \<Rightarrow> (s', Inr (status \<in> {201, 409})))"

definition handle_line ::
  "('s \<Rightarrow> string \<Rightarrow> json \<Rightarrow> 's \<times> outcome) \<Rightarrow> string \<Rightarrow> string \<Rightarrow> 's \<Rightarrow> string \<Rightarrow> 's \<times> (py_error + bool)" where
  \<comment> \<open>whether the line was forwarded, which the code prints\<close>
  "handle_line post tenant_id event_id s line = (case parse_log_line line of
     None \<Rightarrow> (s, Inr False)
   | Some entry \<Rightarrow> (case to_event event_id entry tenant_id of
       Inl e \<Rightarrow> (s, Inl e)
     | Inr event \<Rightarrow> post_log_event post s tenant_id event))"

fun follow_lines ::
  "('s \<Rightarrow> string \<Rightarrow> json \<Rightarrow> 's \<times> outcome) \<Rightarrow> string \<Rightarrow> 's \<Rightarrow> (string \<times> string) list \<Rightarrow> 's \<times> (py_error + bool list)" where
  \<comment> \<open>the loop of \<open>tail_and_forward\<close> over the lines read, each with the fresh id it would get\<close>
  "follow_lines post tenant s [] = (s, Inr [])"
| "follow_lines post tenant s ((line, i) # ls) = (case handle_line post tenant i s line of
     (s', Inl e) \<Rightarrow> (s', Inl e)
   | (s', Inr b) \<Rightarrow> (let (s'', r) = follow_lines post tenant s' ls in (s'', ebind r (\<lambda>bs. Inr (b # bs)))))"

text \<open>No line can make the listener raise, except through the connection.\<close>

lemma add_tokens_keys: "add_tokens ts d = Some d' \<Longrightarrow> map_of d k \<noteq> None \<Longrightarrow> map_of d' k \<noteq> None"
  by (induction ts d rule: add_tokens.induct)
    (auto simp: update_conv' split: prod.splits option.splits if_splits)

lemma parse_log_line_keys:
  assumes "parse_log_line line = Some entry" "k \<in> {''timestamp'', ''user'', ''action'', ''object'', ''app''}"
  shows "\<exists>v. map_of entry k = Some v"
proof -
  obtain t ts where a: "add_tokens ts [(''timestamp'', t)] = Some entry"
    and r: "\<forall>k \<in> set [''user'', ''action'', ''object'', ''app'']. map_of entry k \<noteq> None"
    using assms(1) by (auto simp: parse_log_line_def split: list.splits if_splits option.splits)
  have "map_of entry ''timestamp'' \<noteq> None" by (rule add_tokens_keys[OF a]) simp
  then show ?thesis using assms(2) r by auto
qed

lemma to_event_total:
  assumes "parse_log_line line = Some entry"
  shows "\<exists>d. to_event i entry tenant = Inr (JObj d)"
proof -
  have "\<exists>v. map_of entry k = Some v" if "k \<in> {''timestamp'', ''user'', ''action'', ''object'', ''app''}" for k
    by (rule parse_log_line_keys[OF assms that])
  then obtain obj app ts user action where f: "map_of entry ''object'' = Some obj" "map_of entry ''app'' = Some app"
    "map_of entry ''timestamp'' = Some ts" "map_of entry ''user'' = Some user" "map_of entry ''action'' = Some action"
    by (metis insertCI)
  obtain ot rest where "split_first (CHR '':'') obj = (ot, rest)" by (cases "split_first (CHR '':'') obj") auto
  from to_event_eq[OF f this] show ?thesis by blast
qed

section \<open>From the generator to the listener\<close>

definition generated :: "pydatetime \<Rightarrow> string \<Rightarrow> string \<Rightarrow> string \<Rightarrow> string \<Rightarrow> string \<Rightarrow> bool" where
  "generated now line user action object_type suffix = (user \<in> set LOG_USERS \<and> (action, object_type) \<in> set LOG_ACTIONS \<and>
     suffix \<in> set OBJECT_SUFFIXES \<and> line = log_line (log_timestamp now) user action (object_type @ '':'' @ suffix))"

lemma build_log_line_generated:
  "always (\<lambda>line. \<exists>u a ty sfx. generated now line u a ty sfx) (build_log_line now)"
proof -
  have "LOG_USERS \<noteq> []" "LOG_ACTIONS \<noteq> []" "OBJECT_SUFFIXES \<noteq> []"
    by (simp_all add: LOG_USERS_def LOG_ACTIONS_def OBJECT_SUFFIXES_def)
  note c = always_choice[OF this(1), of "\<lambda>u. u \<in> set LOG_USERS"] always_choice[OF this(2), of "\<lambda>p. (fst p, snd p) \<in> set LOG_ACTIONS"]
    always_choice[OF this(3), of "\<lambda>x. x \<in> set OBJECT_SUFFIXES"]
  show ?thesis
    unfolding build_log_line_def split_beta
    by (rule always_gbind[OF c(1)], assumption, rule always_gbind[OF c(2)], simp, rule always_gbind[OF c(3)], assumption,
        rule always_yield) (unfold generated_def, blast)
qed

lemma generated_plain:
  assumes "generated now line user action object_type suffix"
  shows "plain user \<and> plain action \<and> plain (object_type @ '':'' @ suffix) \<and> user \<noteq> [] \<and> action \<noteq> [] \<and>
    CHR '':'' \<notin> set object_type \<and> object_type \<noteq> [] \<and> suffix \<noteq> []"
proof -
  have "\<forall>u \<in> set LOG_USERS. plain u \<and> u \<noteq> []" "\<forall>s \<in> set OBJECT_SUFFIXES. plain s \<and> s \<noteq> []"
    "\<forall>(a, ty) \<in> set LOG_ACTIONS. plain a \<and> a \<noteq> [] \<and> plain ty \<and> CHR '':'' \<notin> set ty \<and> ty \<noteq> []" "plain '':''"
    by code_simp+
  then show ?thesis using assms by (fastforce simp: generated_def plain_def)
qed

lemma generated_round_trip:
  assumes g: "generated now line user action object_type suffix" and t: "since_1970 now" and c: "contract_tenant tenant"
  shows "\<exists>d ts. (case parse_log_line (line @ [CHR 0x0A]) of None \<Rightarrow> Inl AssertionError | Some entry \<Rightarrow> to_event i entry tenant) =
      Inr (JObj d) \<and> valid event_schema (JObj d) \<and> map_of d ''eventId'' = Some (JStr i) \<and>
    map_of d ''tenantId'' = Some (JStr tenant) \<and> map_of d ''eventTimestamp'' = Some (JStr ts) \<and>
    fromisoformat ts = Some (utc (dt_instant now - dt_instant now mod us_per_second)) \<and>
    map_of d ''actor'' = Some (JObj [(''nativeUserId'', JStr user), (''userIdType'', JStr ''app_native_id'')]) \<and>
    map_of d ''object'' = Some (JObj [(''objectType'', JStr object_type), (''objectId'', JStr suffix)])"
proof -
  note p = generated_plain[OF g]
  let ?o = "object_type @ '':'' @ suffix"
  let ?entry = "[(''timestamp'', log_timestamp now), (''user'', user), (''action'', action), (''object'', ?o), (''app'', APP_NAME)]"
  have l: "parse_log_line (line @ [CHR 0x0A]) = Some ?entry"
    using parse_log_line_fields[OF log_timestamp_reads_back(3,2)[OF t]] p g by (simp add: generated_def)
  have o: "split_first (CHR '':'') ?o = (object_type, Some suffix)"
    using split_first_append[of "CHR '':''" object_type suffix] p by simp
  let ?d = "log_event i tenant APP_NAME (log_timestamp now) user action object_type suffix"
  have e: "to_event i ?entry tenant = Inr (JObj ?d)"
    using p to_event_eq[of ?entry ?o APP_NAME "log_timestamp now" user action, OF _ _ _ _ _ o] by (simp add: or_else_def)
  have v: "valid event_schema (JObj ?d)"
    by (rule log_event_valid[OF c]) (use p in \<open>simp_all add: APP_NAME_def\<close>)
  show ?thesis
    unfolding l option.case e using v log_timestamp_reads_back(1)[OF t]
    by (intro exI[of _ ?d] exI[of _ "iso_timestamp (log_timestamp now)"]) simp
qed

section \<open>Properties\<close>

text \<open>
  C36: every line the generator can write, from whatever draws, is read by the listener as the
  event it stands for: valid under the contract, with the user and the object of the line, and a
  timestamp that reads back as the second it was written in.
\<close>

theorem audit_line_is_its_event:
  assumes "since_1970 now" "contract_tenant tenant"
  shows "\<exists>line w' user action object_type suffix d ts. build_log_line now w = Inr (line, w') \<and>
    generated now line user action object_type suffix \<and>
    (case parse_log_line (line @ [CHR 0x0A]) of None \<Rightarrow> Inl AssertionError | Some entry \<Rightarrow> to_event i entry tenant) =
      Inr (JObj d) \<and> valid event_schema (JObj d) \<and> map_of d ''eventTimestamp'' = Some (JStr ts) \<and>
    fromisoformat ts = Some (utc (dt_instant now - dt_instant now mod us_per_second)) \<and>
    map_of d ''actor'' = Some (JObj [(''nativeUserId'', JStr user), (''userIdType'', JStr ''app_native_id'')]) \<and>
    map_of d ''object'' = Some (JObj [(''objectType'', JStr object_type), (''objectId'', JStr suffix)])"
proof -
  obtain line w' user action object_type suffix where g: "build_log_line now w = Inr (line, w')"
    "generated now line user action object_type suffix"
    using build_log_line_generated[of now] unfolding always_def by metis
  show ?thesis using generated_round_trip[OF g(2) assms, of i] g by blast
qed

theorem audit_line_is_its_event_witness:
  "\<exists>line w'. build_log_line (utc 1785574800000000) \<lparr>draws = sconst 0, uuids = sconst 0, counters = []\<rparr> = Inr (line, w') \<and>
     parse_log_line (line @ [CHR 0x0A]) \<noteq> None"
proof -
  have a: "since_1970 (utc 1785574800000000)" "contract_tenant ''acme''" by code_simp+
  show ?thesis
    using audit_line_is_its_event[OF a, of "\<lparr>draws = sconst 0, uuids = sconst 0, counters = []\<rparr>" "''i''"]
    by (force split: option.splits)
qed

end
