(* ===== verification/Recurrence.thy ===== *)
theory Recurrence
  imports Months
begin

text \<open>
  \<open>samples/data/recurrence.py\<close>: dates on calendar schedules. A \<open>date\<close> is its proleptic
  ordinal; stepping past the last date of the calendar raises \<open>OverflowError\<close>, as adding a day to
  it does. The generators are consumed whole, so they are lists.
\<close>

section \<open>Definitions\<close>

definition MONDAY :: int where
  "MONDAY = 0"

definition SATURDAY :: int where
  "SATURDAY = 5"

definition weekday :: "int \<Rightarrow> int" where
  "weekday day = (day + 6) mod 7"

function days_where :: "(int \<Rightarrow> bool) \<Rightarrow> int \<Rightarrow> int \<Rightarrow> py_error + int list" where
  \<comment> \<open>\<open>while current <= end\<close>: a day of interest is yielded, then \<open>current\<close> moves on\<close>
  "days_where p current stop =
     (if stop < current then Inr []
      else ebind (if current = max_ordinal then Inl OverflowError else days_where p (current + 1) stop)
        (\<lambda>ds. Inr (if p current then current # ds else ds)))"
  by pat_completeness auto
termination by (relation "measure (\<lambda>(p, current, stop). nat (stop + 1 - current))") auto

declare days_where.simps [simp del]

definition every_day :: "int \<Rightarrow> int \<Rightarrow> py_error + int list" where
  "every_day start stop = days_where (\<lambda>d. True) start stop"

definition workdays_between :: "int \<Rightarrow> int \<Rightarrow> py_error + int list" where
  "workdays_between start stop = days_where (\<lambda>d. weekday d < SATURDAY) start stop"

definition mondays_between :: "int \<Rightarrow> int \<Rightarrow> py_error + int list" where
  "mondays_between start stop = days_where (\<lambda>d. weekday d = MONDAY) start stop"

function months_from :: "int \<times> int \<Rightarrow> int \<times> int \<Rightarrow> (int \<times> int) list" where
  "months_from (year, month) (last_year, last_month) =
     (if last_year < year \<or> year = last_year \<and> last_month < month then []
      else (year, month) # months_from (if 12 < month + 1 then (year + 1, 1) else (year, month + 1)) (last_year, last_month))"
  by pat_completeness auto
termination
  by (relation "measures [\<lambda>(a, b). nat (fst b + 1 - fst a), \<lambda>(a, b). nat (13 - snd a)]") auto

declare months_from.simps [simp del]

definition months_between :: "int \<Rightarrow> int \<Rightarrow> (int \<times> int) list" where
  "months_between start stop = (let (y, m, d) = ord2ymd start; (y', m', d') = ord2ymd stop
     in months_from (y, m) (y', m'))"

function back_to_workday :: "int \<Rightarrow> int" where
  "back_to_workday candidate = (if SATURDAY \<le> weekday candidate then back_to_workday (candidate - 1) else candidate)"
  by pat_completeness auto
termination
  by (relation "measure (\<lambda>d. nat (weekday d))") (auto simp: weekday_def SATURDAY_def, presburger)

declare back_to_workday.simps [simp del]

definition last_workday_of_month :: "int \<Rightarrow> int \<Rightarrow> int" where
  "last_workday_of_month year month = back_to_workday (ymd2ord year month (days_in_month year month))"

definition month_end_workdays_between :: "int \<Rightarrow> int \<Rightarrow> int list" where
  "month_end_workdays_between start stop =
     filter (\<lambda>d. start \<le> d \<and> d \<le> stop) (map (\<lambda>(y, m). last_workday_of_month y m) (months_between start stop))"

section \<open>The days of a range\<close>

lemma days_where_range:
  assumes "current \<le> max_ordinal"
  shows "days_where p current stop = (if current \<le> stop \<and> max_ordinal \<le> stop then Inl OverflowError
    else Inr (filter p [current..stop]))"
  using assms
proof (induction p current stop rule: days_where.induct)
  case (1 p current stop)
  consider "stop < current" | "current \<le> stop" "current = max_ordinal" | "current \<le> stop" "current < max_ordinal"
    using 1(2) by linarith
  then show ?case
  proof cases
    case 3
    have e: "days_where p current stop = ebind (days_where p (current + 1) stop)
        (\<lambda>ds. Inr (if p current then current # ds else ds))"
      using 3 by (subst days_where.simps) simp
    have IH: "days_where p (current + 1) stop = (if current + 1 \<le> stop \<and> max_ordinal \<le> stop then Inl OverflowError
        else Inr (filter p [current + 1..stop]))"
      using 1 3 by simp
    show ?thesis using 3 unfolding e IH by (auto simp: upto_rec1)
  qed (subst days_where.simps; simp)+
qed

section \<open>The months of a range\<close>

lemma months_from_index:
  assumes "1 \<le> m" "m \<le> 12" "1 \<le> m'" "m' \<le> 12"
  shows "months_from (y, m) (y', m') = map month_at [month_index y m..month_index y' m']"
  using assms
proof (induction "(y, m)" "(y', m')" arbitrary: y m rule: months_from.induct)
  case (1 y m)
  show ?case
  proof (cases "y' < y \<or> y = y' \<and> m' < m")
    case True
    then have "month_index y' m' < month_index y m" using 1(2-5) by (auto simp: month_index_def)
    then show ?thesis using True by (subst months_from.simps) simp
  next
    case False
    then have le: "month_index y m \<le> month_index y' m'" using 1(2-5) by (auto simp: month_index_def)
    let ?n = "if 12 < m + 1 then (y + 1, 1) else (y, m + 1)"
    have "months_from ?n (y', m') = map month_at [month_index y m + 1..month_index y' m']"
    proof (cases "m = 12")
      case True
      then show ?thesis using 1(1)[of "y + 1" 1] False 1(2-5) by (simp add: month_index_def add.commute)
    next
      case m: False
      then show ?thesis using 1(1)[of y "m + 1"] False 1(2-5) by (simp add: month_index_def)
    qed
    then show ?thesis
      using False le 1(2-5) by (subst months_from.simps) (simp add: upto_rec1 month_at_index)
  qed
qed

section \<open>The last workday of a month\<close>

lemma weekday_pred: "0 < weekday d \<Longrightarrow> weekday (d - 1) = weekday d - 1"
proof -
  assume w: "0 < weekday d"
  have "weekday (d - 1) = ((d + 6) mod 7 - 1) mod 7"
    by (simp add: weekday_def mod_diff_left_eq algebra_simps)
  also have "\<dots> = (d + 6) mod 7 - 1" using w by (intro mod_pos_pos_trivial) (auto simp: weekday_def)
  finally show ?thesis by (simp add: weekday_def)
qed

lemma back_to_workday_latest:
  "d - 2 \<le> back_to_workday d \<and> back_to_workday d \<le> d \<and> weekday (back_to_workday d) < SATURDAY \<and>
    (\<forall>x. back_to_workday d < x \<longrightarrow> x \<le> d \<longrightarrow> \<not> weekday x < SATURDAY)"
proof -
  consider "weekday d < 5" | "weekday d = 5" | "weekday d = 6" unfolding weekday_def by fastforce
  then show ?thesis
  proof cases
    case 1
    then show ?thesis by (simp add: back_to_workday.simps[of d] SATURDAY_def)
  next
    case 2
    have w: "weekday (d - 1) = 4" using 2 weekday_pred[of d] by simp
    have b: "back_to_workday d = d - 1"
      using 2 w by (simp add: back_to_workday.simps[of d] back_to_workday.simps[of "d - 1"] SATURDAY_def)
    have "x = d" if "d - 1 < x" "x \<le> d" for x using that by linarith
    then have "\<not> weekday x < SATURDAY" if "d - 1 < x" "x \<le> d" for x using that 2 by (fastforce simp: SATURDAY_def)
    then show ?thesis using w unfolding b by (simp add: SATURDAY_def)
  next
    case 3
    have w: "weekday (d - 1) = 5" "weekday (d - 2) = 4" using 3 weekday_pred[of d] weekday_pred[of "d - 1"] by simp_all
    have b: "back_to_workday d = d - 2"
      using 3 w by (simp add: back_to_workday.simps[of d] back_to_workday.simps[of "d - 1"] back_to_workday.simps[of "d - 2"] SATURDAY_def)
    have "x = d - 1 \<or> x = d" if "d - 2 < x" "x \<le> d" for x using that by linarith
    then have "\<not> weekday x < SATURDAY" if "d - 2 < x" "x \<le> d" for x using that 3 w by (fastforce simp: SATURDAY_def)
    then show ?thesis using w unfolding b by (simp add: SATURDAY_def)
  qed
qed

section \<open>The month ends of a range\<close>

definition same_month :: "int \<Rightarrow> int \<Rightarrow> bool" where
  "same_month d d' = (\<exists>k. month_start k < d \<and> d \<le> month_start (k + 1) \<and> month_start k < d' \<and> d' \<le> month_start (k + 1))"

lemma same_month_ymd:
  assumes "1 \<le> d" "d \<le> max_ordinal" "1 \<le> d'" "d' \<le> max_ordinal"
  shows "same_month d d' \<longleftrightarrow> (\<exists>y m x x'. ord2ymd d = (y, m, x) \<and> ord2ymd d' = (y, m, x'))"
proof -
  obtain y m x where o: "ord2ymd d = (y, m, x)" by (cases "ord2ymd d") auto
  obtain y' m' x' where o': "ord2ymd d' = (y', m', x')" by (cases "ord2ymd d'") auto
  note a = ord2ymd_month[OF assms(1,2) o]
  note b = ord2ymd_month[OF assms(3,4) o']
  show ?thesis
  proof
    assume "same_month d d'"
    then obtain k where k: "month_start k < d" "d \<le> month_start (k + 1)" "month_start k < d'" "d' \<le> month_start (k + 1)"
      unfolding same_month_def by blast
    have "month_index y m = k" "month_index y' m' = k"
      using month_of_ordinal[OF a(3,4) k(1,2)] month_of_ordinal[OF b(3,4) k(3,4)] by auto
    then have "(y, m) = (y', m')" using month_at_index a(1,2) b(1,2) by metis
    then show "\<exists>y m x x'. ord2ymd d = (y, m, x) \<and> ord2ymd d' = (y, m, x')" using o o' by blast
  next
    assume "\<exists>y m x x'. ord2ymd d = (y, m, x) \<and> ord2ymd d' = (y, m, x')"
    then show "same_month d d'" unfolding same_month_def using o o' a b by auto
  qed
qed

definition month_end :: "int \<Rightarrow> int" where
  "month_end k = back_to_workday (month_start (k + 1))"

lemma last_workday_month_end: "1 \<le> m \<Longrightarrow> m \<le> 12 \<Longrightarrow> last_workday_of_month y m = month_end (month_index y m)"
  by (simp add: last_workday_of_month_def month_end_def ymd2ord_index month_start_Suc month_length_def month_at_index)

lemma month_end_in: "month_start k < month_end k \<and> month_end k \<le> month_start (k + 1)"
  using back_to_workday_latest[of "month_start (k + 1)"] month_length_pos[of k] by (auto simp: month_end_def month_start_Suc)

lemma month_end_mono: "sorted_wrt (<) (map month_end [j..k])"
proof -
  have "month_end a < month_end b" if "a < b" for a b
    using month_end_in[of a] month_end_in[of b] month_start_mono[of "a + 1" b] that by linarith
  then show ?thesis by (auto simp: sorted_wrt_map intro: sorted_wrt_mono_rel[OF _ sorted_wrt_upto])
qed

text \<open>A day is a month end when it is a workday and no later day of its month is.\<close>

definition is_month_end :: "int \<Rightarrow> bool" where
  "is_month_end d \<longleftrightarrow> weekday d < SATURDAY \<and> (\<forall>x > d. same_month d x \<longrightarrow> \<not> weekday x < SATURDAY)"

lemma is_month_end_iff:
  assumes "month_start k < d" "d \<le> month_start (k + 1)"
  shows "is_month_end d \<longleftrightarrow> d = month_end k"
proof -
  have s: "same_month d x \<longleftrightarrow> month_start k < x \<and> x \<le> month_start (k + 1)" for x
    unfolding same_month_def using month_of_ordinal[OF assms] assms by metis
  note b = back_to_workday_latest[of "month_start (k + 1)", folded month_end_def]
  show ?thesis
    unfolding is_month_end_def s using b assms month_end_in[of k] by (metis linorder_neqE order_less_trans)
qed

lemma months_between_index:
  assumes "1 \<le> start" "start \<le> max_ordinal" "1 \<le> stop" "stop \<le> max_ordinal"
  shows "\<exists>j k. months_between start stop = map month_at [j..k] \<and> month_start j < start \<and> start \<le> month_start (j + 1) \<and>
    month_start k < stop \<and> stop \<le> month_start (k + 1)"
proof -
  obtain y m x where o: "ord2ymd start = (y, m, x)" by (cases "ord2ymd start") auto
  obtain y' m' x' where o': "ord2ymd stop = (y', m', x')" by (cases "ord2ymd stop") auto
  note a = ord2ymd_month[OF assms(1,2) o]
  note b = ord2ymd_month[OF assms(3,4) o']
  have "months_between start stop = map month_at [month_index y m..month_index y' m']"
    by (simp add: months_between_def o o' months_from_index[OF a(1,2) b(1,2)])
  then show ?thesis using a(3,4) b(3,4) by blast
qed

lemma month_end_workdays:
  assumes "1 \<le> start" "start \<le> max_ordinal" "1 \<le> stop" "stop \<le> max_ordinal"
  shows "set (month_end_workdays_between start stop) = {d. start \<le> d \<and> d \<le> stop \<and> is_month_end d}"
    and "sorted_wrt (<) (month_end_workdays_between start stop)"
proof -
  obtain j k where m: "months_between start stop = map month_at [j..k]" and j: "month_start j < start" "start \<le> month_start (j + 1)"
    and k: "month_start k < stop" "stop \<le> month_start (k + 1)"
    using months_between_index[OF assms] by blast
  have l: "(case month_at i of (y, m) \<Rightarrow> last_workday_of_month y m) = month_end i" for i
    using last_workday_month_end[of "i mod 12 + 1" "i div 12"] by (simp add: month_at_def month_index_def)
  have e: "month_end_workdays_between start stop = filter (\<lambda>d. start \<le> d \<and> d \<le> stop) (map month_end [j..k])"
    by (simp add: month_end_workdays_between_def m comp_def l)
  show "sorted_wrt (<) (month_end_workdays_between start stop)"
    unfolding e by (rule sorted_wrt_filter[OF month_end_mono])
  have "d \<in> month_end ` {j..k}" if d: "start \<le> d" "d \<le> stop" "is_month_end d" for d
  proof -
    obtain y mm x where o: "ord2ymd d = (y, mm, x)" by (cases "ord2ymd d") auto
    let ?i = "month_index y mm"
    have "1 \<le> d" "d \<le> max_ordinal" using d assms by auto
    note i = ord2ymd_month[OF this o]
    have "month_start j < month_start (?i + 1)" "month_start ?i < month_start (k + 1)" using i d j k by linarith+
    then have "j \<le> ?i" "?i \<le> k" using month_start_mono[of "?i + 1" j] month_start_mono[of "k + 1" ?i] by linarith+
    moreover have "d = month_end ?i" using is_month_end_iff[OF i(3,4)] d(3) by blast
    ultimately show ?thesis by simp
  qed
  moreover have "is_month_end (month_end i)" for i using is_month_end_iff month_end_in by blast
  ultimately show "set (month_end_workdays_between start stop) = {d. start \<le> d \<and> d \<le> stop \<and> is_month_end d}"
    unfolding e by auto
qed

section \<open>Properties\<close>

text \<open>
  C37: the schedules are what their names say. Within a range that ends before the last date of
  the calendar, every day, the workdays and the Mondays are listed once each and in order, and the
  month ends are the days that are workdays with no later workday in their month; a range that
  reaches the last date raises \<open>OverflowError\<close> for the first three.
\<close>

theorem schedules_are_exact:
  assumes "1 \<le> start" "start \<le> stop" "stop \<le> max_ordinal"
  shows "every_day start stop = (if stop = max_ordinal then Inl OverflowError else Inr [start..stop]) \<and>
    workdays_between start stop =
      (if stop = max_ordinal then Inl OverflowError else Inr (filter (\<lambda>d. weekday d < SATURDAY) [start..stop])) \<and>
    mondays_between start stop =
      (if stop = max_ordinal then Inl OverflowError else Inr (filter (\<lambda>d. weekday d = MONDAY) [start..stop])) \<and>
    sorted_wrt (<) (month_end_workdays_between start stop) \<and>
    set (month_end_workdays_between start stop) = {d. start \<le> d \<and> d \<le> stop \<and> is_month_end d}"
  using days_where_range[of start _ stop] month_end_workdays[of start stop] assms
  by (auto simp: every_day_def workdays_between_def mondays_between_def)

theorem schedules_are_exact_witness:
  "mondays_between 739628 739635 = Inr [739628, 739635] \<and> month_end_workdays_between 739628 739660 = [739646]"
proof -
  have l: "[739628..739635::int] = [739628,739629,739630,739631,739632,739633,739634,739635]" by (simp add: upto_rec1)
  have "mondays_between 739628 739635 = Inr [739628, 739635]"
    using schedules_are_exact[of 739628 739635] unfolding l by (simp add: max_ordinal_def weekday_def MONDAY_def)
  moreover have "month_end_workdays_between 739628 739660 = [739646]" by code_simp
  ultimately show ?thesis by simp
qed

end
