(* ===== verification/Loader.thy ===== *)
theory Loader
  imports HttpClient AppSpec Samples
begin

text \<open>
  The loaders of \<open>samples/data/seed_events.py\<close> and \<open>samples/shops/generate.py\<close>: events are posted
  in batches of a hundred, and what the engine says of each batch is added up. The two read the
  engine's answer differently.
\<close>

section \<open>The loaders\<close>

definition BATCH_SIZE :: nat where
  "BATCH_SIZE = 100"

function chunks_of :: "nat \<Rightarrow> 'a list \<Rightarrow> 'a list list" where
  \<comment> \<open>\<open>events[start : start + n]\<close> for \<open>start in range(0, len(events), n)\<close>\<close>
  "chunks_of n xs = (if xs = [] \<or> n = 0 then [] else take n xs # chunks_of n (drop n xs))"
  by pat_completeness auto
termination by (relation "measure (\<lambda>(n, xs). length xs)") auto

declare chunks_of.simps [simp del]

definition is_int :: "json \<Rightarrow> int option" where
  \<comment> \<open>\<open>isinstance(x, int)\<close>, booleans included\<close>
  "is_int j = (case j of JInt i \<Rightarrow> Some i | JBool b \<Rightarrow> Some (if b then 1 else 0) | _ \<Rightarrow> None)"

definition get_or :: "string \<Rightarrow> json \<Rightarrow> json \<Rightarrow> py_error + json" where
  \<comment> \<open>\<open>item.get(key, default)\<close>\<close>
  "get_or key dflt item = (case item of
     JObj d \<Rightarrow> Inr (case map_of d key of None \<Rightarrow> dflt | Some v \<Rightarrow> v)
   | _ \<Rightarrow> Inl AttributeError)"

definition count_where :: "(json \<Rightarrow> py_error + bool) \<Rightarrow> json list \<Rightarrow> py_error + int" where
  \<comment> \<open>\<open>sum(1 for item in results if ...)\<close>\<close>
  "count_where p results = ebind (emap p results) (\<lambda>bs. Inr (int (length (filter id bs))))"

definition seed_count_batch_result :: "json \<Rightarrow> nat \<Rightarrow> py_error + int \<times> int" where
  "seed_count_batch_result body chunk_size = (case (case body of JObj d \<Rightarrow> dget ''results'' d | _ \<Rightarrow> JNull) of
     JList results \<Rightarrow> ebind (count_where (\<lambda>item. ebind (get_or ''status'' (JStr []) item) (\<lambda>v.
         Inr (starts_with ''2'' (py_str v)))) results)
       (\<lambda>accepted. Inr (accepted, int (length results) - accepted))
   | _ \<Rightarrow> Inr (int chunk_size, 0))"

definition shop_count_batch_result :: "json \<Rightarrow> nat \<Rightarrow> py_error + int \<times> int" where
  "shop_count_batch_result body chunk_size = (case body of
     JObj d \<Rightarrow> (case (is_int (dget ''acceptedCount'' d), is_int (dget ''rejectedCount'' d)) of
         (Some a, Some r) \<Rightarrow> Inr (a, r)
       | _ \<Rightarrow> (case dget ''results'' d of
           JList results \<Rightarrow> ebind (count_where (\<lambda>item. ebind (py_get ''status'' item) (\<lambda>v.
               Inr (v = JStr ''accepted''))) results)
             (\<lambda>ok. Inr (ok, int (length results) - ok))
         | _ \<Rightarrow> Inr (int chunk_size, 0)))
   | _ \<Rightarrow> Inr (int chunk_size, 0))"

fun post_chunks ::
  "(json \<Rightarrow> nat \<Rightarrow> py_error + int \<times> int) \<Rightarrow> ('s \<Rightarrow> string \<Rightarrow> json \<Rightarrow> 's \<times> outcome) \<Rightarrow> string \<Rightarrow> 's \<Rightarrow> json list list \<Rightarrow>
   's \<times> (py_error + int \<times> int)" where
  "post_chunks tally post tenant s [] = (s, Inr (0, 0))"
| "post_chunks tally post tenant s (chunk # cs) = (case post s tenant (JObj [(''events'', JList chunk)]) of
     (s', NoReply) \<Rightarrow> (s', Inl TransportError)
   | (s', Replied status b) \<Rightarrow>
       (case ebind (raise_for_status status) (\<lambda>_. ebind (response_json b) (\<lambda>body. tally body (length chunk))) of
          Inl e \<Rightarrow> (s', Inl e)
        | Inr (accepted, rejected) \<Rightarrow> (let (s'', r) = post_chunks tally post tenant s' cs
            in (s'', ebind r (\<lambda>(x, y). Inr (accepted + x, rejected + y))))))"

definition post_batches ::
  "(json \<Rightarrow> nat \<Rightarrow> py_error + int \<times> int) \<Rightarrow> ('s \<Rightarrow> string \<Rightarrow> json \<Rightarrow> 's \<times> outcome) \<Rightarrow> 's \<Rightarrow> json list \<Rightarrow> string \<Rightarrow>
   's \<times> (py_error + int \<times> int)" where
  \<comment> \<open>the numbers of events that succeeded and failed\<close>
  "post_batches tally post s events tenant_id = post_chunks tally post tenant_id s (chunks_of BATCH_SIZE events)"

section \<open>Reading the engine's answer\<close>

lemma shop_count_response:
  "shop_count_batch_result (rs_content (batch_response rs)) n =
     Inr (int (accepted_count rs), int (length rs) - int (accepted_count rs))"
  by (simp add: shop_count_batch_result_def batch_response_def json_response_def is_int_def dget_def)

lemma seed_count_response:
  assumes "\<forall>r \<in> set rs. br_status r \<in> {''accepted'', ''rejected''}"
  shows "seed_count_batch_result (rs_content (batch_response rs)) n = Inr (0, int (length rs))"
proof -
  have s: "\<not> starts_with ''2'' ''accepted''" "\<not> starts_with ''2'' ''rejected''" by simp_all
  have "emap (\<lambda>item. ebind (get_or ''status'' (JStr []) item) (\<lambda>v. Inr (starts_with ''2'' (py_str v)))) (map result_json rs) =
      (Inr (map (\<lambda>r. False) rs) :: py_error + bool list)"
    using assms s by (induction rs) (auto simp: result_json_def get_or_def)
  then show ?thesis
    by (simp add: seed_count_batch_result_def batch_response_def json_response_def dget_def count_where_def)
qed

section \<open>Batches of new, valid events\<close>

lemma batch_result_status: "batch_result e status m = Inr r \<Longrightarrow> br_status r = status"
  by (auto simp: batch_result_def res_simps split: if_splits)

lemma persist_batch_event_status:
  "persist_batch_event write now st e = (st1, Inr r) \<Longrightarrow> br_status r \<in> {''accepted'', ''rejected''}"
  by (auto simp: persist_batch_event_def split: sum.splits py_error.splits dest: batch_result_status)

lemma persist_batch_statuses:
  "persist_batch write now st vs = (st', Inr rs) \<Longrightarrow> r \<in> set rs \<Longrightarrow> br_status r \<in> {''accepted'', ''rejected''}"
proof (induction vs arbitrary: st rs)
  case (Cons v vs)
  obtain e err where v: "v = (e, err)" by (cases v)
  obtain st1 x where x: "(case err of Some m \<Rightarrow> (st, batch_result e ''rejected'' (Some m))
      | None \<Rightarrow> persist_batch_event write now st e) = (st1, Inr x)"
    and n: "\<exists>xs. persist_batch write now st1 vs = (st', Inr xs) \<and> rs = x # xs"
    using Cons.prems(1) by (auto simp: v res_simps Let_def split: prod.splits sum.splits)
  obtain xs where xs: "persist_batch write now st1 vs = (st', Inr xs)" "rs = x # xs" using n by blast
  have "br_status x \<in> {''accepted'', ''rejected''}"
    using x persist_batch_event_status[where st = st and r = x and e = e] batch_result_status[of e "''rejected''"]
    by (cases err) auto
  then show ?case using Cons.IH[OF xs(1)] Cons.prems(2) xs(2) by auto
qed simp

lemma batch_response_inj: "batch_response rs = batch_response rs' \<Longrightarrow> map result_json rs = map result_json rs'"
  by (simp add: batch_response_def json_response_def)

lemma result_json_status: "map result_json rs = map result_json rs' \<Longrightarrow> map br_status rs = map br_status rs'"
proof -
  let ?status = "\<lambda>j. case j of JObj d \<Rightarrow> (case dget ''status'' d of JStr s \<Rightarrow> s | _ \<Rightarrow> []) | _ \<Rightarrow> []"
  have s: "map br_status xs = map ?status (map result_json xs)" for xs
    by (simp add: result_json_def dget_def)
  assume "map result_json rs = map result_json rs'"
  then show ?thesis using s[of rs] s[of rs'] by metis
qed

lemma batch_statuses:
  assumes "ingest_events_batch write V now rid st body = (st', Inr (batch_response rs))" "r \<in> set rs"
  shows "br_status r \<in> {''accepted'', ''rejected''}"
proof -
  have n: "json_response 400 b \<noteq> batch_response rs" "json_response 422 b \<noteq> batch_response rs" for b
    by (simp_all add: batch_response_def json_response_def)
  obtain vs rs' where p: "persist_batch write now st vs = (st', Inr rs')" "batch_response rs' = batch_response rs"
    using assms(1) by (auto simp: ingest_events_batch_def Let_def res_simps n split: sum.splits prod.splits if_splits)
  have "br_status r \<in> set (map br_status rs)" using assms(2) by simp
  also have "map br_status rs = map br_status rs'" using result_json_status batch_response_inj[OF p(2)] by metis
  finally obtain x where "x \<in> set rs'" "br_status r = br_status x" by auto
  then show ?thesis using persist_batch_statuses[OF p(1), of x] by simp
qed

lemma batch_engine:
  "engine (i_store (fst (ingest_events_batch write_event V now rid st body))) = engine (i_store st)"
  by (rule ingest_events_batch_keeps[where P = "\<lambda>s. engine s = engine (i_store st)"]) (auto dest: write_event_frame)

lemma new_ids_accepted:
  "distinct (map id_of_event es) \<Longrightarrow> \<forall>e \<in> set es. id_of_event e \<notin> known \<Longrightarrow>
     accepted_flags known (map (\<lambda>e. (e, None)) es) = replicate (length es) True"
proof (induction es arbitrary: known)
  case (Cons e es)
  have "\<forall>x \<in> set es. id_of_event x \<notin> insert (id_of_event e) known" using Cons.prems by (auto simp: image_iff)
  then show ?case using Cons.IH[of "insert (id_of_event e) known"] Cons.prems by simp
qed simp

lemma accepted_count_all: "map (\<lambda>r. br_status r = ''accepted'') rs = replicate (length rs) True \<Longrightarrow> accepted_count rs = length rs"
  by (induction rs) (auto simp: accepted_count_def)

definition loadable :: "validator \<Rightarrow> pydatetime \<Rightarrow> store \<Rightarrow> string \<Rightarrow> json list \<Rightarrow> bool" where
  \<comment> \<open>valid events of the tenant, each with an id of its own that the store does not have\<close>
  "loadable V now s tenant es = ((\<forall>e \<in> set es. is_dict e \<and> verdict V now e = None \<and> time_accepted s e \<and>
      event_tenant e = Some (JStr tenant) \<and> id_of_event e \<notin> stored_ids s) \<and> distinct (map id_of_event es))"

lemma batch_of_loadable:
  assumes s: "store_ok (i_store st)" and V: "validator_ok V" and l: "loadable V now (i_store st) tenant es" "length es \<le> 100"
  shows "\<exists>st' rs. ingest_events_batch write_event V now rid st [(''events'', JList es)] = (st', Inr (batch_response rs)) \<and>
    store_ok (i_store st') \<and> length rs = length es \<and> accepted_count rs = length es \<and>
    stored_ids (i_store st') = stored_ids (i_store st) \<union> id_of_event ` set es \<and>
    engine (i_store st') = engine (i_store st)"
proof -
  have b: "batch_events [(''events'', JList es)] es" using l by (simp add: batch_events_def loadable_def)
  have v: "map (\<lambda>e. (e, verdict V now e)) es = map (\<lambda>e. (e, None)) es" using l by (simp add: loadable_def)
  have f: "failures V now es = 0" using l by (simp add: failures_def loadable_def)
  have r: "reportable e" if "e \<in> set es" for e
  proof -
    have "is_dict e" using l(1) that by (simp add: loadable_def)
    then obtain d where "e = JObj d" by (cases e) simp_all
    then have "validate V now e = Inr ()" using l(1) that validate_verdict unfolding loadable_def by blast
    then show ?thesis using valid_event_reportable validate_valid[OF V] by blast
  qed
  obtain st' rs where p: "ingest_events_batch write_event V now rid st [(''events'', JList es)] = (st', Inr (batch_response rs))"
    "store_ok (i_store st')" "length rs = length es"
    "map (\<lambda>r. br_status r = ''accepted'') rs = accepted_flags (stored_ids (i_store st)) (map (\<lambda>e. (e, verdict V now e)) es)"
    "stored_ids (i_store st') = stored_ids (i_store st) \<union> {id_of_event e |e. e \<in> set es \<and> verdict V now e = None}"
    using batch_ok[OF s V b l(2), of now rid] l(1) f r unfolding loadable_def by auto
  have "accepted_count rs = length es"
    using p(3,4) new_ids_accepted[of es "stored_ids (i_store st)"] l(1) accepted_count_all[of rs]
    unfolding v by (simp add: loadable_def)
  moreover have "{id_of_event e |e. e \<in> set es \<and> verdict V now e = None} = id_of_event ` set es"
    using l(1) by (auto simp: loadable_def)
  ultimately show ?thesis using p batch_engine[of V now rid st "[(''events'', JList es)]"] by auto
qed


section \<open>Posting to the engine\<close>

lemma serve_batch:
  assumes "rate_limit (app_limits C) (dt_instant now) (post_request i BATCH_PATH t (JObj d)) (a_counts a) = Inr (c, None)"
    "tenant_check (post_request i BATCH_PATH t (JObj d)) = Inr None"
    "ingest_events_batch write_event (c_validator C) now i (a_ingest a) d = (g, Inr r)"
  shows "engine_post C now i BATCH_PATH a t (JObj d) =
    (a\<lparr>a_counts := c, a_ingest := g\<rparr>, Replied (rs_status r) (Some (rs_content r)))"
  using assms
  by (simp add: engine_post_def serve_def route_def post_batch_def dict_body_def answer_def with_request_id_def
      as_payload_def json_of_payload_def BATCH_PATH_def)

definition charged_so_far :: "app_config \<Rightarrow> pydatetime \<Rightarrow> string \<Rightarrow> app \<Rightarrow> nat" where
  \<comment> \<open>the requests of a tenant counted in the current minute\<close>
  "charged_so_far C now tenant a =
     counter_get (a_counts a) (count_key tenant ''events'', window_of (dt_instant now))"

lemma rate_limit_batch:
  assumes "tenant \<noteq> []" "int (charged_so_far C now tenant a) + 1 \<le> events_limit (app_limits C)"
  shows "\<exists>c. rate_limit (app_limits C) (dt_instant now) (post_request i BATCH_PATH tenant body) (a_counts a) = Inr (c, None) \<and>
    charged_so_far C now tenant (a\<lparr>a_counts := c, a_ingest := g\<rparr>) = charged_so_far C now tenant a + 1 \<and>
    (\<forall>t. t \<noteq> tenant \<longrightarrow> charged_so_far C now t (a\<lparr>a_counts := c, a_ingest := g\<rparr>) = charged_so_far C now t a)"
proof -
  have k: "count_key t ''events'' = count_key tenant ''events'' \<longleftrightarrow> t = tenant" for t by (simp add: count_key_def)
  let ?req = "post_request i BATCH_PATH tenant body"
  have "charge (app_limits C) ?req = Some (events_limit (app_limits C), tenant, ''events'')"
    using assms(1) by (simp add: charge_def bucket_for_def EVENTS_PATHS_def BATCH_PATH_def extract_tenant_id_def)
  from rate_limit_charged[OF this] show ?thesis
    using assms(2) by (simp add: charged_so_far_def counter_get_mod counter_get_prune Let_def k)
qed

lemma tenant_check_loadable:
  assumes "loadable V now s tenant es"
  shows "tenant_check (post_request i BATCH_PATH tenant (JObj [(''events'', JList es)])) = Inr None"
proof -
  have m: "List.map_filter event_tenant es = map (\<lambda>e. JStr tenant) es"
    using assms by (induction es) (auto simp: loadable_def List.map_filter_simps)
  have o': "py_or (JList es) (JList []) = JList es" by (simp add: py_or_def)
  show ?thesis
    by (simp add: tenant_check_def TENANT_SCOPED_PATHS_def BATCH_PATH_def loads_body_def extract_tenant_ids_def
        dget_def o' py_iter_def m)
qed

lemma post_one_batch:
  assumes "store_ok (the_store a)" "validator_ok (c_validator C)" "loadable (c_validator C) now (the_store a) tenant es"
    "length es \<le> 100" "tenant \<noteq> []" "int (charged_so_far C now tenant a) + 1 \<le> events_limit (app_limits C)"
  shows "\<exists>a' rs. engine_post C now i BATCH_PATH a tenant (JObj [(''events'', JList es)]) =
      (a', Replied 200 (Some (rs_content (batch_response rs)))) \<and>
    store_ok (the_store a') \<and> engine (the_store a') = engine (the_store a) \<and>
    stored_ids (the_store a') = stored_ids (the_store a) \<union> id_of_event ` set es \<and>
    charged_so_far C now tenant a' = charged_so_far C now tenant a + 1 \<and>
    (\<forall>t. t \<noteq> tenant \<longrightarrow> charged_so_far C now t a' = charged_so_far C now t a) \<and>
    shop_count_batch_result (rs_content (batch_response rs)) (length es) = Inr (int (length es), 0) \<and>
    seed_count_batch_result (rs_content (batch_response rs)) (length es) = Inr (0, int (length es))"
proof -
  obtain g rs where g: "ingest_events_batch write_event (c_validator C) now i (a_ingest a) [(''events'', JList es)]
      = (g, Inr (batch_response rs))" "store_ok (i_store g)" "length rs = length es" "accepted_count rs = length es"
    "stored_ids (i_store g) = stored_ids (the_store a) \<union> id_of_event ` set es"
    "engine (i_store g) = engine (the_store a)"
    using batch_of_loadable[of "a_ingest a" "c_validator C" now tenant es i] assms(1-4) unfolding the_store_def by blast
  obtain c where c: "rate_limit (app_limits C) (dt_instant now)
      (post_request i BATCH_PATH tenant (JObj [(''events'', JList es)])) (a_counts a) = Inr (c, None)"
    "charged_so_far C now tenant (a\<lparr>a_counts := c, a_ingest := g\<rparr>) = charged_so_far C now tenant a + 1"
    "\<forall>t. t \<noteq> tenant \<longrightarrow> charged_so_far C now t (a\<lparr>a_counts := c, a_ingest := g\<rparr>) = charged_so_far C now t a"
    using rate_limit_batch[OF assms(5,6)] by blast
  have e: "engine_post C now i BATCH_PATH a tenant (JObj [(''events'', JList es)]) =
      (a\<lparr>a_counts := c, a_ingest := g\<rparr>, Replied 200 (Some (rs_content (batch_response rs))))"
    using serve_batch[OF c(1) tenant_check_loadable[OF assms(3)] g(1)] by (simp add: batch_response_def json_response_def)
  have n: "seed_count_batch_result (rs_content (batch_response rs)) (length es) = Inr (0, int (length es))"
    using seed_count_response[of rs "length es"] batch_statuses[OF g(1)] g(3) by simp
  show ?thesis
    by (intro exI conjI, rule e) (use c g n in \<open>simp_all add: shop_count_response\<close>)
qed

lemma loadable_rest:
  assumes "loadable V now s tenant (es @ es')" "stored_ids s' = stored_ids s \<union> id_of_event ` set es" "engine s' = engine s"
  shows "loadable V now s' tenant es'"
proof -
  have "time_accepted s' e = time_accepted s e" for e using assms(3) by (simp add: time_accepted_def)
  then show ?thesis using assms(1,2) by (auto simp: loadable_def)
qed

lemma loadable_first: "loadable V now s tenant (es @ es') \<Longrightarrow> loadable V now s tenant es"
  by (auto simp: loadable_def)

lemma post_chunks_stores:
  assumes "store_ok (the_store a)" "validator_ok (c_validator C)" "tenant \<noteq> []"
    "loadable (c_validator C) now (the_store a) tenant (concat chunks)" "\<forall>c \<in> set chunks. length c \<le> 100"
    "int (charged_so_far C now tenant a + length chunks) \<le> events_limit (app_limits C)"
  shows "\<exists>a'. post_chunks shop_count_batch_result (engine_post C now i BATCH_PATH) tenant a chunks =
        (a', Inr (int (length (concat chunks)), 0)) \<and>
      post_chunks seed_count_batch_result (engine_post C now i BATCH_PATH) tenant a chunks =
        (a', Inr (0, int (length (concat chunks)))) \<and>
      store_ok (the_store a') \<and> stored_ids (the_store a') = stored_ids (the_store a) \<union> id_of_event ` set (concat chunks) \<and>
      engine (the_store a') = engine (the_store a) \<and>
      (\<forall>t. t \<noteq> tenant \<longrightarrow> charged_so_far C now t a' = charged_so_far C now t a)"
  using assms
proof (induction chunks arbitrary: a)
  case (Cons es chunks)
  have l: "loadable (c_validator C) now (the_store a) tenant es"
    using Cons.prems(4) loadable_first[of "c_validator C" now "the_store a" tenant es "concat chunks"] by simp
  obtain a1 rs where a1: "engine_post C now i BATCH_PATH a tenant (JObj [(''events'', JList es)]) =
      (a1, Replied 200 (Some (rs_content (batch_response rs))))"
    "store_ok (the_store a1)" "engine (the_store a1) = engine (the_store a)"
    "stored_ids (the_store a1) = stored_ids (the_store a) \<union> id_of_event ` set es"
    "charged_so_far C now tenant a1 = charged_so_far C now tenant a + 1"
    "\<forall>t. t \<noteq> tenant \<longrightarrow> charged_so_far C now t a1 = charged_so_far C now t a"
    "shop_count_batch_result (rs_content (batch_response rs)) (length es) = Inr (int (length es), 0)"
    "seed_count_batch_result (rs_content (batch_response rs)) (length es) = Inr (0, int (length es))"
    using post_one_batch[OF Cons.prems(1,2) l _ Cons.prems(3), of i] Cons.prems(5,6) by auto
  have r: "loadable (c_validator C) now (the_store a1) tenant (concat chunks)"
    using loadable_rest[OF _ a1(4,3)] Cons.prems(4) by simp
  obtain a' where "post_chunks shop_count_batch_result (engine_post C now i BATCH_PATH) tenant a1 chunks =
      (a', Inr (int (length (concat chunks)), 0))"
    "post_chunks seed_count_batch_result (engine_post C now i BATCH_PATH) tenant a1 chunks =
      (a', Inr (0, int (length (concat chunks))))"
    "store_ok (the_store a')" "stored_ids (the_store a') = stored_ids (the_store a1) \<union> id_of_event ` set (concat chunks)"
    "engine (the_store a') = engine (the_store a1)"
    "\<forall>t. t \<noteq> tenant \<longrightarrow> charged_so_far C now t a' = charged_so_far C now t a1"
    using Cons.IH[OF a1(2) Cons.prems(2,3) r] Cons.prems(5,6) a1(5) by auto
  then show ?case using a1 by (intro exI[of _ a']) (auto simp: raise_for_status_def response_json_def)
qed simp

lemma concat_chunks_of: "0 < n \<Longrightarrow> concat (chunks_of n xs) = xs"
proof (induction n xs rule: chunks_of.induct)
  case (1 n xs)
  then show ?case by (subst chunks_of.simps) auto
qed

lemma chunks_of_short: "0 < n \<Longrightarrow> c \<in> set (chunks_of n xs) \<Longrightarrow> length c \<le> n"
proof (induction n xs rule: chunks_of.induct)
  case (1 n xs)
  show ?case using 1(1,2) 1(3) chunks_of.simps[of n xs] by (auto split: if_splits)
qed

lemma length_chunks_of: "0 < n \<Longrightarrow> length (chunks_of n xs) = (length xs + n - 1) div n"
proof (induction n xs rule: chunks_of.induct)
  case (1 n xs)
  show ?case
  proof (cases "xs = []")
    case False
    then have "length (chunks_of n xs) = Suc (length (chunks_of n (drop n xs)))"
      using 1(2) by (subst chunks_of.simps) simp
    also have "length (chunks_of n (drop n xs)) = (length xs - n + n - 1) div n" using 1 False by simp
    also have "Suc ((length xs - n + n - 1) div n) = (length xs + n - 1) div n"
    proof (cases "n \<le> length xs")
      case True
      then have "length xs + n - 1 = (length xs - n + n - 1) + n" using False by (cases xs) auto
      then show ?thesis using div_add_self2[of n "length xs - n + n - 1"] 1(2) by (metis Suc_eq_plus1 neq0_conv)
    next
      case F: False
      then have "length xs + n - 1 = (length xs - 1) + n" "length xs - n + n - 1 = n - 1" using False by (cases xs; simp)+
      then show ?thesis using div_add_self2[of n "length xs - 1"] F 1(2) by (metis Suc_eq_plus1 neq0_conv div_less diff_less less_imp_diff_less zero_less_one not_le)
    qed
    finally show ?thesis .
  qed (use 1(2) in \<open>simp add: chunks_of.simps\<close>)
qed

text \<open>
  Valid events of one tenant, new to the engine and with distinct ids, are stored completely by
  either loader while the batches stay within the tenant's limit of the minute; other tenants'
  budgets stay as they are.
\<close>

lemma post_batches_stores:
  assumes "store_ok (the_store a)" "validator_ok (c_validator C)" "tenant \<noteq> []"
    "loadable (c_validator C) now (the_store a) tenant events"
    "int (charged_so_far C now tenant a + (length events + 99) div 100) \<le> events_limit (app_limits C)"
  shows "\<exists>a'. post_batches shop_count_batch_result (engine_post C now i BATCH_PATH) a events tenant =
        (a', Inr (int (length events), 0)) \<and>
      post_batches seed_count_batch_result (engine_post C now i BATCH_PATH) a events tenant =
        (a', Inr (0, int (length events))) \<and>
      store_ok (the_store a') \<and> stored_ids (the_store a') = stored_ids (the_store a) \<union> id_of_event ` set events \<and>
      engine (the_store a') = engine (the_store a) \<and>
      (\<forall>t. t \<noteq> tenant \<longrightarrow> charged_so_far C now t a' = charged_so_far C now t a)"
proof -
  have b: "(0::nat) < 100" by simp
  have l: "int (charged_so_far C now tenant a + length (chunks_of 100 events)) \<le> events_limit (app_limits C)"
    using assms(5) by (simp add: length_chunks_of add.commute)
  show ?thesis
    unfolding post_batches_def BATCH_SIZE_def
    using post_chunks_stores[OF assms(1-3), of now "chunks_of 100 events" i, unfolded concat_chunks_of[OF b], OF assms(4) _ l]
      chunks_of_short[OF b] by blast
qed

end
