(* ===== verification/TextOrder.thy ===== *)
theory TextOrder
  imports Months "HOL-Library.List_Lexorder" "HOL-Library.Char_ord"
begin

text \<open>
  Sorting events by the text of their timestamps, as the generators of sample data do, sorts them
  by time: the numbers of the text have fixed widths, so the order of strings is that of the
  instants, as long as they are whole seconds of the calendar.
\<close>

section \<open>Strings of equal length\<close>

lemma append_less:
  fixes xs ys u v :: string
  shows "length xs = length ys \<Longrightarrow> xs @ u < ys @ v \<longleftrightarrow> xs < ys \<or> xs = ys \<and> u < v"
  by (induction xs ys rule: list_induct2) auto

lemma digit_char_less: "a < 10 \<Longrightarrow> b < 10 \<Longrightarrow> digit_char a < digit_char b \<longleftrightarrow> a < b"
  by (simp add: digit_char_def less_char_def)

lemma zfill_div:
  assumes "n < 10 ^ Suc (Suc w)"
  shows "zfill (Suc (Suc w)) (show_nat n) = zfill (Suc w) (show_nat (n div 10)) @ [digit_char (n mod 10)]"
proof (cases "n < 10")
  case True
  moreover have "digit_char 0 = CHR ''0''" by code_simp
  ultimately show ?thesis
    by (simp add: zfill_def show_nat.simps[of n] show_nat.simps[of 0] replicate_append_same[symmetric])
next
  case False
  then show ?thesis by (simp add: zfill_def show_nat.simps[of n])
qed

lemma zfill_less:
  "m < n \<Longrightarrow> n < 10 ^ Suc w \<Longrightarrow> zfill (Suc w) (show_nat m) < zfill (Suc w) (show_nat n)"
proof (induction w arbitrary: m n)
  case 0
  then show ?case by (simp add: zfill_def show_nat.simps[of m] show_nat.simps[of n] digit_char_less)
next
  case (Suc w)
  have m: "m < 10 ^ Suc (Suc w)" using Suc.prems by simp
  have d: "m div 10 < 10 ^ Suc w" "n div 10 < 10 ^ Suc w" using m Suc.prems(2) by (simp_all add: less_mult_imp_div_less)
  have l: "length (zfill (Suc w) (show_nat (m div 10))) = length (zfill (Suc w) (show_nat (n div 10)))"
    using length_zfill[OF d(1)] length_zfill[OF d(2)] by simp
  consider "m div 10 < n div 10" | "m div 10 = n div 10" "m mod 10 < n mod 10"
    using Suc.prems(1) by (metis div_le_mono div_mult_mod_eq less_imp_le_nat nat_add_left_cancel_less nat_less_le)
  then show ?case
    by cases (use Suc.IH[OF _ d(2), of "m div 10"] in
      \<open>simp_all add: zfill_div[OF m] zfill_div[OF Suc.prems(2)] append_less l digit_char_less\<close>)
qed

lemma two_less: "0 \<le> a \<Longrightarrow> a < b \<Longrightarrow> b < 100 \<Longrightarrow> two a < two b"
  using zfill_less[of "nat a" "nat b" 1] by (simp add: two_def numeral_2_eq_2)

section \<open>Dates and clocks\<close>

lemma ymd_text_less:
  assumes v: "valid_ymd y m d" "valid_ymd y' m' d'" and o: "ymd2ord y m d < ymd2ord y' m' d'"
  shows "ymd_text y m d < ymd_text y' m' d'"
proof -
  have b: "1 \<le> m" "m \<le> 12" "1 \<le> m'" "m' \<le> 12" "d \<le> days_in_month y m" "1 \<le> d'" "d < 100" "d' < 100" "1 \<le> d"
    "1 \<le> y" "1 \<le> y'" "y' \<le> 9999"
    using v valid_ymd_bounds[OF v(1)] valid_ymd_bounds[OF v(2)] by (simp_all add: valid_ymd_def)
  have "d \<le> month_length (month_index y m)" using b by (simp add: month_length_def month_at_index)
  then have k: "month_index y m \<le> month_index y' m'"
    using o b month_start_mono[of "month_index y' m' + 1" "month_index y m"] v(2)
    by (fastforce simp: ymd2ord_index valid_ymd_def month_start_Suc month_length_def month_at_index)
  consider "y < y'" | "y = y'" "m < m'" | "y = y'" "m = m'" "d < d'"
  proof -
    have "y < y' \<or> y = y' \<and> m < m' \<or> y = y' \<and> m = m'" using k b by (auto simp: month_index_def)
    then show ?thesis using that o by (auto simp: ymd2ord_def)
  qed
  moreover have l: "length (zfill 4 (show_nat (nat y))) = length (zfill 4 (show_nat (nat y')))"
    using year_text[OF v(1)] year_text[OF v(2)] by auto
  moreover have l2: "length (two m) = length (two m')" using b by (simp add: length_two)
  ultimately show ?thesis
  proof cases
    case 1
    have "nat y' < 10 ^ Suc 3" using b by simp
    then have "zfill 4 (show_nat (nat y)) < zfill 4 (show_nat (nat y'))"
      using 1 b zfill_less[of "nat y" "nat y'" 3] by simp
    then show ?thesis unfolding ymd_text_def append_less[OF l] by simp
  next
    case 2
    then show ?thesis unfolding ymd_text_def append_less[OF l]
      using two_less[of m m'] b append_less[OF l2] by simp
  next
    case 3
    then show ?thesis unfolding ymd_text_def append_less[OF l]
      using two_less[of d d'] b append_less[of "two m" "two m"] by simp
  qed
qed

lemma clock_text_less:
  assumes "0 \<le> h" "h' < 100" "0 \<le> m" "m < 100" "0 \<le> m'" "m' < 100" "0 \<le> s" "s' < 100" "h < 100" "0 \<le> h'"
    "h < h' \<or> h = h' \<and> (m < m' \<or> m = m' \<and> s < s')"
  shows "clock_text h m s < clock_text h' m' s'"
proof -
  have l: "length (two h) = length (two h')" "length (two m) = length (two m')" using assms by (simp_all add: length_two)
  show ?thesis
    using assms(11) two_less[of h h'] two_less[of m m'] two_less[of s s'] assms
    unfolding clock_text_def append_less[OF l(1)] by (auto simp: append_less[OF l(2)])
qed

section \<open>Instants\<close>

definition whole_second :: "int \<Rightarrow> bool" where
  "whole_second t = (t mod us_per_second = 0)"

lemma clock_order:
  fixes r r' :: int
  assumes "0 \<le> r" "r < r'" "whole_second r" "whole_second r'"
  shows "r div us_per_hour < r' div us_per_hour \<or> r div us_per_hour = r' div us_per_hour \<and>
    (r div us_per_minute mod 60 < r' div us_per_minute mod 60 \<or> r div us_per_minute mod 60 = r' div us_per_minute mod 60 \<and>
     r div us_per_second mod 60 < r' div us_per_second mod 60)"
proof -
  define s where "s = r div us_per_second"
  define s' where "s' = r' div us_per_second"
  have e: "r = s * us_per_second" "r' = s' * us_per_second" using assms by (auto simp: whole_second_def s_def s'_def)
  have lt: "s < s'" using assms(2) unfolding e by (simp add: us_defs)
  have m: "r div us_per_minute = s div 60" "r' div us_per_minute = s' div 60"
    "r div us_per_hour = s div 60 div 60" "r' div us_per_hour = s' div 60 div 60"
    by (simp_all add: s_def s'_def us_defs zdiv_zmult2_eq[symmetric])
  define a where "a = s div 60"
  define a' where "a' = s' div 60"
  have split: "x < y \<Longrightarrow> x div 60 < y div 60 \<or> x div 60 = y div 60 \<and> x mod 60 < y mod 60" for x y :: int
    by (metis add_less_cancel_left div_mult_mod_eq order_le_less zdiv_mono1 zero_less_numeral)
  have 1: "a < a' \<or> a = a' \<and> s mod 60 < s' mod 60" using split[OF lt] by (simp add: a_def a'_def)
  have "a < a' \<Longrightarrow> a div 60 < a' div 60 \<or> a div 60 = a' div 60 \<and> a mod 60 < a' mod 60" by (rule split)
  then show ?thesis unfolding m a_def[symmetric] a'_def[symmetric] s_def[symmetric] s'_def[symmetric] using 1 by auto
qed

lemma isoformat_utc_text:
  assumes "in_calendar t" "whole_second t"
  shows "\<exists>y m d r. valid_ymd y m d \<and> 0 \<le> r \<and> r < us_per_day \<and> whole_second r \<and>
    ord2ymd (ymd2ord y m d) = (y, m, d) \<and> t = (ymd2ord y m d - epoch_ordinal) * us_per_day + r \<and>
    isoformat_utc (utc t) = ymd_text y m d @ ''T'' @
      clock_text (r div us_per_hour) (r div us_per_minute mod 60) (r div us_per_second mod 60) @ ''+00:00''"
proof -
  define day where "day = t div us_per_day"
  define r where "r = t mod us_per_day"
  obtain y m d where o: "ord2ymd (day + epoch_ordinal) = (y, m, d)" by (cases "ord2ymd (day + epoch_ordinal)") auto
  have n: "1 \<le> day + epoch_ordinal" "day + epoch_ordinal \<le> max_ordinal"
    using assms(1) by (auto simp: in_calendar_def min_instant_def max_instant_def day_def us_defs epoch_ordinal_def max_ordinal_def)
  note v = ord2ymd_inverse[OF n o]
  have "us_per_second dvd us_per_day" by (simp add: us_defs)
  then have w: "r mod us_per_second = 0" using assms(2) by (simp add: r_def whole_second_def mod_mod_cancel)
  have i: "isoformat_utc (utc t) = ymd_text y m d @ ''T'' @
      clock_text (r div us_per_hour) (r div us_per_minute mod 60) (r div us_per_second mod 60) @ ''+00:00''"
    using o w by (simp add: isoformat_utc_def Let_def ymd_text_def day_def r_def)
  have t: "t = (ymd2ord y m d - epoch_ordinal) * us_per_day + r" unfolding v(2) by (simp add: day_def r_def)
  have r: "0 \<le> r" "r < us_per_day" by (simp_all add: r_def us_defs)
  have o': "ord2ymd (ymd2ord y m d) = (y, m, d)" using o v(2) by simp
  show ?thesis unfolding whole_second_def by (intro exI conjI) (rule v(1) r w o' t i)+
qed

lemma clock_bounds:
  fixes r :: int
  assumes "0 \<le> r" "r < us_per_day"
  shows "0 \<le> r div us_per_hour" "r div us_per_hour < 100"
    "0 \<le> r div us_per_minute mod 60" "r div us_per_minute mod 60 < 100" "0 \<le> r div us_per_second mod 60" "r div us_per_second mod 60 < 100"
  using clock_split(2,3)[OF assms] pos_mod_bound[of 60 "r div us_per_minute"] pos_mod_bound[of 60 "r div us_per_second"] by simp_all

lemma isoformat_utc_less:
  assumes "in_calendar a" "whole_second a" "in_calendar b" "whole_second b" "a < b"
  shows "isoformat_utc (utc a) < isoformat_utc (utc b)"
proof -
  obtain y m d r where x: "valid_ymd y m d" "0 \<le> r" "r < us_per_day" "whole_second r"
    and xo: "ord2ymd (ymd2ord y m d) = (y, m, d)" and xa: "a = (ymd2ord y m d - epoch_ordinal) * us_per_day + r"
    and xt: "isoformat_utc (utc a) = ymd_text y m d @ ''T'' @
      clock_text (r div us_per_hour) (r div us_per_minute mod 60) (r div us_per_second mod 60) @ ''+00:00''"
    using isoformat_utc_text[OF assms(1,2)] by blast
  obtain y' m' d' r' where z: "valid_ymd y' m' d'" "0 \<le> r'" "r' < us_per_day" "whole_second r'"
    and zo: "ord2ymd (ymd2ord y' m' d') = (y', m', d')" and za: "b = (ymd2ord y' m' d' - epoch_ordinal) * us_per_day + r'"
    and zt: "isoformat_utc (utc b) = ymd_text y' m' d' @ ''T'' @
      clock_text (r' div us_per_hour) (r' div us_per_minute mod 60) (r' div us_per_second mod 60) @ ''+00:00''"
    using isoformat_utc_text[OF assms(3,4)] by blast
  let ?n = "ymd2ord y m d" and ?n' = "ymd2ord y' m' d'"
  have l: "length (ymd_text y m d) = length (ymd_text y' m' d')" using length_ymd_text x(1) z(1) by simp
  have "\<not> ?n' < ?n" using assms(5) x(2,3) z(2,3) unfolding xa za by (auto simp: us_defs)
  then consider "?n < ?n'" | "?n = ?n'" by linarith
  then show ?thesis
  proof cases
    case 1
    then show ?thesis unfolding xt zt append_less[OF l] using ymd_text_less[OF x(1) z(1)] by blast
  next
    case 2
    have e: "ymd_text y m d = ymd_text y' m' d'" using xo[unfolded 2] zo by (metis prod.inject)
    have "r < r'" using assms(5) 2 unfolding xa za by simp
    then have "clock_text (r div us_per_hour) (r div us_per_minute mod 60) (r div us_per_second mod 60)
      < clock_text (r' div us_per_hour) (r' div us_per_minute mod 60) (r' div us_per_second mod 60)"
      by (intro clock_text_less clock_order x(2,4) z(4) clock_bounds[OF x(2,3)] clock_bounds[OF z(2,3)])
    moreover have "length (clock_text (r div us_per_hour) (r div us_per_minute mod 60) (r div us_per_second mod 60))
      = length (clock_text (r' div us_per_hour) (r' div us_per_minute mod 60) (r' div us_per_second mod 60))"
      using clock_bounds[OF x(2,3)] clock_bounds[OF z(2,3)] unfolding clock_text_def by (simp only: length_append length_two)
    ultimately have "clock_text (r div us_per_hour) (r div us_per_minute mod 60) (r div us_per_second mod 60) @ ''+00:00''
      < clock_text (r' div us_per_hour) (r' div us_per_minute mod 60) (r' div us_per_second mod 60) @ ''+00:00''"
      using append_less by blast
    then show ?thesis unfolding xt zt e append_less[OF refl] by simp
  qed
qed

lemma isoformat_utc_order:
  assumes "in_calendar a" "whole_second a" "in_calendar b" "whole_second b" "isoformat_utc (utc a) \<le> isoformat_utc (utc b)"
  shows "a \<le> b"
  using isoformat_utc_less[OF assms(3,4,1,2)] assms(5) by (meson leD linorder_not_le)

end
