(* ===== verification/ShopFramework.thy ===== *)
theory ShopFramework
  imports Contract Recurrence RandomSource TextOrder
begin

text \<open>
  \<open>samples/shops/framework.py\<close>: a shop is a set of routines and cross-application links, and its
  events are what these expand to on their dates. The draws, the fresh identifiers and the
  counters of object ids are the world of \<open>RandomSource\<close>.
\<close>

section \<open>Domain definitions\<close>

record persona =
  pe_native_user_id :: string
  pe_display_name :: string
  pe_roles :: "string list"
  pe_user_id_type :: string

record app_module =
  mo_application_id :: string
  mo_instance_id :: string
  mo_connector :: string
  mo_connector_version :: string
  mo_suite :: string
  mo_module :: string

type_synonym details = "(string \<times> json) list gen"
  \<comment> \<open>a function of the generator to the dictionary it builds\<close>

record activity =
  ac_action_type :: string
  ac_category :: string
  ac_object_type :: string
  ac_id_prefix :: string
  ac_id_pool :: "string list option"
  ac_details :: "details option"
  ac_metadata :: "details option"

definition CADENCES :: "string list" where
  "CADENCES = [''daily'', ''weekday'', ''weekly'', ''monthly_end'']"

record routine =
  ro_module :: app_module
  ro_personas :: "persona list"
  ro_cadence :: string
  ro_hour :: int
  ro_activities :: "activity list"
  ro_minute :: int
  ro_jitter :: int
  ro_occurrences :: "int \<times> int"
  ro_step_minutes :: "int \<times> int"
  ro_device_mix :: "string list"

record shop_step =
  st_module :: app_module
  st_action_type :: string
  st_category :: string
  st_object_type :: string
  st_id_prefix :: string
  st_details :: "details option"

record cross_app_link =
  li_name :: string
  li_persona :: persona
  li_first :: shop_step
  li_then :: shop_step
  li_hour :: int
  li_gap_minutes :: "int \<times> int"
  li_probability :: real
  li_share_object :: bool
  li_cadence :: string

record shop =
  sh_key :: string
  sh_tenant_id :: string
  sh_display_name :: string
  sh_routines :: "routine list"
  sh_cross_app :: "cross_app_link list"
  sh_country :: string
  sh_region :: string

text \<open>The constructors, with the defaults of the optional fields.\<close>

definition Persona :: "string \<Rightarrow> string \<Rightarrow> string list \<Rightarrow> string \<Rightarrow> persona" where
  "Persona user name_shown roles id_type = \<lparr>pe_native_user_id = user, pe_display_name = name_shown,
     pe_roles = roles, pe_user_id_type = id_type\<rparr>"

definition Module :: "string \<Rightarrow> string \<Rightarrow> string \<Rightarrow> string \<Rightarrow> string \<Rightarrow> string \<Rightarrow> app_module" where
  "Module app inst connector version suite m = \<lparr>mo_application_id = app, mo_instance_id = inst,
     mo_connector = connector, mo_connector_version = version, mo_suite = suite, mo_module = m\<rparr>"

definition Activity :: "string \<Rightarrow> string \<Rightarrow> string \<Rightarrow> string \<Rightarrow> activity" where
  "Activity action category object_type prefix = \<lparr>ac_action_type = action, ac_category = category,
     ac_object_type = object_type, ac_id_prefix = prefix, ac_id_pool = None, ac_details = None, ac_metadata = None\<rparr>"

definition Routine :: "app_module \<Rightarrow> persona list \<Rightarrow> string \<Rightarrow> int \<Rightarrow> activity list \<Rightarrow> routine" where
  "Routine m personas cadence hour activities = \<lparr>ro_module = m, ro_personas = personas, ro_cadence = cadence,
     ro_hour = hour, ro_activities = activities, ro_minute = 0, ro_jitter = 25, ro_occurrences = (1, 1),
     ro_step_minutes = (1, 6), ro_device_mix = [''desktop'']\<rparr>"

definition Step :: "app_module \<Rightarrow> string \<Rightarrow> string \<Rightarrow> string \<Rightarrow> string \<Rightarrow> details option \<Rightarrow> shop_step" where
  "Step m action category object_type prefix ds = \<lparr>st_module = m, st_action_type = action, st_category = category,
     st_object_type = object_type, st_id_prefix = prefix, st_details = ds\<rparr>"

definition CrossAppLink :: "string \<Rightarrow> persona \<Rightarrow> shop_step \<Rightarrow> shop_step \<Rightarrow> cross_app_link" where
  "CrossAppLink link_name p a b = \<lparr>li_name = link_name, li_persona = p, li_first = a, li_then = b, li_hour = 18,
     li_gap_minutes = (3, 15), li_probability = 85 / 100, li_share_object = False, li_cadence = ''weekly''\<rparr>"

section \<open>Building events\<close>

definition dict_merge :: "(string \<times> json) list \<Rightarrow> (string \<times> json) list \<Rightarrow> (string \<times> json) list" where
  \<comment> \<open>\<open>{**a, **b}\<close>\<close>
  "dict_merge a b = fold (\<lambda>(k, v). AList.update k v) b a"

definition next_object_id :: "string \<Rightarrow> string gen" where
  "next_object_id prefix w = (let n = counter_get (counters w) prefix + 1
     in Inr (prefix @ zfill 6 (show_nat n), w\<lparr>counters := AList.update prefix n (counters w)\<rparr>))"

definition event_of ::
  "shop \<Rightarrow> string \<Rightarrow> persona \<Rightarrow> app_module \<Rightarrow> string \<Rightarrow> string \<Rightarrow> string \<Rightarrow> string \<Rightarrow> pydatetime \<Rightarrow>
   (string \<times> json) list \<Rightarrow> (string \<times> json) list option \<Rightarrow> string \<Rightarrow> string option \<Rightarrow> string \<Rightarrow> (string \<times> json) list" where
  "event_of sh event_id p m action_type category object_type object_id timestamp action_metadata object_details
     session_id correlation_id device =
     [(''schemaVersion'', JStr ''1.0.0''), (''eventId'', JStr event_id), (''tenantId'', JStr (sh_tenant_id sh)),
      (''applicationId'', JStr (mo_application_id m)), (''applicationInstanceId'', JStr (mo_instance_id m)),
      (''environment'', JStr ''production''), (''eventTimestamp'', JStr (isoformat timestamp)),
      (''actor'', JObj [(''nativeUserId'', JStr (pe_native_user_id p)), (''userIdType'', JStr (pe_user_id_type p)),
         (''roles'', JList (map JStr (pe_roles p)))]),
      (''action'', JObj [(''type'', JStr action_type), (''category'', JStr category),
         (''metadata'', JObj (dict_merge [(''suite'', JStr (mo_suite m)), (''module'', JStr (mo_module m))] action_metadata))]),
      (''object'', JObj ([(''objectType'', JStr object_type), (''objectId'', JStr object_id)] @
         (case object_details of None \<Rightarrow> [] | Some d \<Rightarrow> [(''objectDetails'', JObj d)]))),
      (''source'', JObj [(''connector'', JStr (mo_connector m)), (''connectorVersion'', JStr (mo_connector_version m))]),
      (''context'', JObj ([(''sessionId'', JStr session_id), (''device'', JStr device),
         (''geo'', JObj [(''country'', JStr (sh_country sh)), (''region'', JStr (sh_region sh))])] @
         (case correlation_id of None \<Rightarrow> [] | Some c \<Rightarrow> [(''correlationId'', JStr c)])))]"

definition build ::
  "shop \<Rightarrow> persona \<Rightarrow> app_module \<Rightarrow> string \<Rightarrow> string \<Rightarrow> string \<Rightarrow> string \<Rightarrow> pydatetime \<Rightarrow>
   (string \<times> json) list \<Rightarrow> (string \<times> json) list option \<Rightarrow> string \<Rightarrow> string option \<Rightarrow> string \<Rightarrow> (string \<times> json) list gen" where
  "build sh p m action_type category object_type object_id timestamp action_metadata object_details
     session_id correlation_id device =
     gmap (\<lambda>u. event_of sh (uuid_str u) p m action_type category object_type object_id timestamp action_metadata
       object_details session_id correlation_id device) uuid4"

section \<open>Dates and times\<close>

definition plus_minutes :: "pydatetime \<Rightarrow> int \<Rightarrow> py_error + pydatetime" where
  \<comment> \<open>\<open>t + timedelta(minutes=k)\<close>\<close>
  "plus_minutes t k = (let u = dt_local t + k * us_per_minute
     in if in_calendar u then Inr (DateTime u (dt_offset t)) else Inl OverflowError)"

definition on_day :: "int \<Rightarrow> int \<Rightarrow> int \<Rightarrow> py_error + pydatetime" where
  \<comment> \<open>\<open>datetime.combine(day, time(hour, minute), tzinfo=timezone.utc)\<close>\<close>
  "on_day day hour minute =
     (if hour < 0 \<or> 24 \<le> hour then Inl (ValueError ''hour must be in 0..23'')
      else if minute < 0 \<or> 60 \<le> minute then Inl (ValueError ''minute must be in 0..59'')
      else Inr (utc ((day - epoch_ordinal) * us_per_day + hour * us_per_hour + minute * us_per_minute)))"

definition at_around :: "int \<Rightarrow> int \<Rightarrow> int \<Rightarrow> int \<Rightarrow> pydatetime gen" where
  "at_around day hour minute jitter =
     gbind (from_result (on_day day hour minute)) (\<lambda>base.
     gbind (randint (- jitter) jitter) (\<lambda>k. from_result (plus_minutes base k)))"

definition dates_for_cadence :: "string \<Rightarrow> int \<Rightarrow> int \<Rightarrow> py_error + int list" where
  "dates_for_cadence cadence start stop =
     (if cadence = ''daily'' then every_day start stop
      else if cadence = ''weekday'' then workdays_between start stop
      else if cadence = ''weekly'' then mondays_between start stop
      else if cadence = ''monthly_end'' then Inr (month_end_workdays_between start stop)
      else Inl (ValueError (''unknown cadence: '' @ repr_str cadence)))"

definition object_id_for :: "activity \<Rightarrow> string gen" where
  "object_id_for a = (case ac_id_pool a of Some pool \<Rightarrow> choice pool | None \<Rightarrow> next_object_id (ac_id_prefix a))"

definition details_or :: "'a \<Rightarrow> ((string \<times> json) list \<Rightarrow> 'a) \<Rightarrow> details option \<Rightarrow> 'a gen" where
  \<comment> \<open>\<open>f(rng) if f else default\<close>\<close>
  "details_or dflt f g = (case g of None \<Rightarrow> yield dflt | Some d \<Rightarrow> gmap f d)"

section \<open>Routines\<close>

fun emit_activities ::
  "shop \<Rightarrow> routine \<Rightarrow> persona \<Rightarrow> string \<Rightarrow> string \<Rightarrow> activity list \<Rightarrow> pydatetime \<Rightarrow> (string \<times> json) list list gen" where
  "emit_activities sh r p sess device [] moment = yield []"
| "emit_activities sh r p sess device (a # as) moment =
     gbind (object_id_for a) (\<lambda>object_id.
     gbind (details_or [] (\<lambda>d. d) (ac_metadata a)) (\<lambda>metadata.
     gbind (details_or None Some (ac_details a)) (\<lambda>ds.
     gbind (build sh p (ro_module r) (ac_action_type a) (ac_category a) (ac_object_type a) object_id moment metadata ds
       sess None device) (\<lambda>e.
     gbind (randint (fst (ro_step_minutes r)) (snd (ro_step_minutes r))) (\<lambda>k.
     gbind (from_result (plus_minutes moment k)) (\<lambda>moment'.
     gbind (emit_activities sh r p sess device as moment') (\<lambda>es. yield (e # es))))))))"

definition session_of :: "nat \<Rightarrow> string" where
  "session_of u = ''sess-'' @ take 12 (uuid_hex u)"

definition emit_occurrence :: "shop \<Rightarrow> routine \<Rightarrow> int \<Rightarrow> persona \<Rightarrow> (string \<times> json) list list gen" where
  "emit_occurrence sh r day p =
     gbind (gmap session_of uuid4) (\<lambda>sess.
     gbind (choice (ro_device_mix r)) (\<lambda>device.
     gbind (at_around day (ro_hour r) (ro_minute r) (ro_jitter r)) (\<lambda>moment.
     emit_activities sh r p sess device (ro_activities r) moment)))"

definition emit_persona :: "shop \<Rightarrow> routine \<Rightarrow> int \<Rightarrow> persona \<Rightarrow> (string \<times> json) list list gen" where
  "emit_persona sh r day p =
     gbind (randint (fst (ro_occurrences r)) (snd (ro_occurrences r))) (\<lambda>n.
     traverse_concat (\<lambda>i. emit_occurrence sh r day p) [0..<nat n])"

definition emit_routine :: "shop \<Rightarrow> int \<Rightarrow> int \<Rightarrow> routine \<Rightarrow> (string \<times> json) list list gen" where
  "emit_routine sh start stop r =
     gbind (from_result (dates_for_cadence (ro_cadence r) start stop)) (\<lambda>days.
     traverse_concat (\<lambda>day. traverse_concat (emit_persona sh r day) (ro_personas r)) days)"

section \<open>Cross-application links\<close>

definition correlation_of :: "nat \<Rightarrow> string" where
  "correlation_of u = ''corr-'' @ take 16 (uuid_hex u)"

definition emit_step ::
  "shop \<Rightarrow> cross_app_link \<Rightarrow> shop_step \<Rightarrow> string \<Rightarrow> pydatetime \<Rightarrow> string \<Rightarrow> string \<Rightarrow> (string \<times> json) list gen" where
  "emit_step sh l st object_id t sess correlation =
     gbind (details_or None Some (st_details st)) (\<lambda>ds.
     build sh (li_persona l) (st_module st) (st_action_type st) (st_category st) (st_object_type st) object_id t
       [(''workflow'', JStr (li_name l))] ds sess (Some correlation) ''desktop'')"

definition emit_pair :: "shop \<Rightarrow> cross_app_link \<Rightarrow> int \<Rightarrow> (string \<times> json) list list gen" where
  "emit_pair sh l day =
     gbind (gmap session_of uuid4) (\<lambda>sess.
     gbind (gmap correlation_of uuid4) (\<lambda>correlation.
     gbind (at_around day (li_hour l) 0 8) (\<lambda>first_time.
     gbind (next_object_id (st_id_prefix (li_first l))) (\<lambda>first_object.
     gbind (emit_step sh l (li_first l) first_object first_time sess correlation) (\<lambda>first_event.
     gbind (if li_share_object l then yield first_object else next_object_id (st_id_prefix (li_then l))) (\<lambda>then_object.
     gbind (randint (fst (li_gap_minutes l)) (snd (li_gap_minutes l))) (\<lambda>gap.
     gbind (from_result (plus_minutes first_time gap)) (\<lambda>then_time.
     gbind (emit_step sh l (li_then l) then_object then_time sess correlation) (\<lambda>then_event.
     yield [first_event, then_event])))))))))"

definition emit_link_day :: "shop \<Rightarrow> cross_app_link \<Rightarrow> int \<Rightarrow> (string \<times> json) list list gen" where
  "emit_link_day sh l day = gbind random_unit (\<lambda>x. if x > li_probability l then yield [] else emit_pair sh l day)"

definition emit_cross_app :: "shop \<Rightarrow> int \<Rightarrow> int \<Rightarrow> cross_app_link \<Rightarrow> (string \<times> json) list list gen" where
  "emit_cross_app sh start stop l =
     gbind (from_result (dates_for_cadence (li_cadence l) start stop)) (\<lambda>days. traverse_concat (emit_link_day sh l) days)"

section \<open>The whole\<close>

definition time_text :: "(string \<times> json) list \<Rightarrow> string" where
  \<comment> \<open>\<open>str(event["eventTimestamp"])\<close>\<close>
  "time_text event = py_str (dget ''eventTimestamp'' event)"

definition fresh_factory :: "unit gen" where
  \<comment> \<open>a factory with no counters yet\<close>
  "fresh_factory w = Inr ((), w\<lparr>counters := []\<rparr>)"

definition generate_shop_events :: "shop \<Rightarrow> int \<Rightarrow> int \<Rightarrow> (string \<times> json) list list gen" where
  "generate_shop_events sh start stop =
     gbind fresh_factory (\<lambda>_.
     gbind (traverse_concat (emit_routine sh start stop) (sh_routines sh)) (\<lambda>es.
     gbind (traverse_concat (emit_cross_app sh start stop) (sh_cross_app sh)) (\<lambda>es'.
     yield (sort_key time_text (es @ es')))))"

section \<open>Values of the payloads\<close>

definition money :: "real \<Rightarrow> real \<Rightarrow> string \<Rightarrow> details" where
  "money low high currency =
     gmap (\<lambda>x. [(''amount'', rounded 2 x), (''currency'', JStr currency)]) (uniform low high)"

definition pick :: "string list \<Rightarrow> json gen" where
  "pick values = gmap JStr (choice values)"

definition entries :: "(string \<times> json gen) list \<Rightarrow> details" where
  \<comment> \<open>a dictionary display, its values evaluated in order\<close>
  "entries kvs = gmap (dict_merge []) (traverse (\<lambda>(k, g). gmap (Pair k) g) kvs)"

definition merged :: "details \<Rightarrow> details \<Rightarrow> details" where
  "merged a b = gbind a (\<lambda>d. gmap (dict_merge d) b)"

definition int_between :: "int \<Rightarrow> int \<Rightarrow> json gen" where
  "int_between a b = gmap JInt (randint a b)"

end
