(* ===== verification/ShopSpec.thy ===== *)
theory ShopSpec
  imports ShopFramework
begin

text \<open>
  When the definitions of a shop are well formed, its generator never raises, whatever is drawn:
  every event is valid under the contract and belongs to the shop's tenant, the events come in
  order of time, and a link gives two events of one user a few minutes apart.
\<close>

section \<open>Well-formed definitions\<close>

abbreviation returns :: "'a gen \<Rightarrow> bool" where
  "returns g \<equiv> always (\<lambda>x. True) g"

definition persona_ok :: "persona \<Rightarrow> bool" where
  "persona_ok p = (pe_native_user_id p \<noteq> [] \<and> pe_user_id_type p \<in> set user_id_types)"

definition module_ok :: "app_module \<Rightarrow> bool" where
  "module_ok m = (mo_application_id m \<noteq> [] \<and> mo_instance_id m \<noteq> [] \<and> mo_connector m \<noteq> [] \<and> mo_connector_version m \<noteq> [])"

definition details_ok :: "details option \<Rightarrow> bool" where
  "details_ok d = (case d of None \<Rightarrow> True | Some g \<Rightarrow> returns g)"

definition activity_ok :: "activity \<Rightarrow> bool" where
  "activity_ok a = (ac_action_type a \<noteq> [] \<and> ac_category a \<in> set action_categories \<and> ac_object_type a \<noteq> [] \<and>
     (case ac_id_pool a of None \<Rightarrow> True | Some pool \<Rightarrow> pool \<noteq> [] \<and> [] \<notin> set pool) \<and>
     details_ok (ac_details a) \<and> details_ok (ac_metadata a))"

definition routine_ok :: "routine \<Rightarrow> bool" where
  \<comment> \<open>its times stay within a day of the date\<close>
  "routine_ok r = (module_ok (ro_module r) \<and> (\<forall>p \<in> set (ro_personas r). persona_ok p) \<and> ro_cadence r \<in> set CADENCES \<and>
     0 \<le> ro_hour r \<and> ro_hour r < 24 \<and> 0 \<le> ro_minute r \<and> ro_minute r < 60 \<and> 0 \<le> ro_jitter r \<and>
     fst (ro_occurrences r) \<le> snd (ro_occurrences r) \<and> 0 \<le> fst (ro_step_minutes r) \<and>
     fst (ro_step_minutes r) \<le> snd (ro_step_minutes r) \<and>
     ro_jitter r + int (length (ro_activities r)) * snd (ro_step_minutes r) < 1440 \<and>
     ro_device_mix r \<noteq> [] \<and> set (ro_device_mix r) \<subseteq> set devices \<and> (\<forall>a \<in> set (ro_activities r). activity_ok a))"

definition step_ok :: "shop_step \<Rightarrow> bool" where
  "step_ok s = (module_ok (st_module s) \<and> st_action_type s \<noteq> [] \<and> st_category s \<in> set action_categories \<and>
     st_object_type s \<noteq> [] \<and> details_ok (st_details s))"

definition link_ok :: "cross_app_link \<Rightarrow> bool" where
  "link_ok l = (persona_ok (li_persona l) \<and> step_ok (li_first l) \<and> step_ok (li_then l) \<and> 0 \<le> li_hour l \<and> li_hour l < 24 \<and>
     0 \<le> fst (li_gap_minutes l) \<and> fst (li_gap_minutes l) \<le> snd (li_gap_minutes l) \<and> snd (li_gap_minutes l) < 1400 \<and>
     li_cadence l \<in> set CADENCES)"

definition shop_ok :: "shop \<Rightarrow> bool" where
  "shop_ok sh = (contract_tenant (sh_tenant_id sh) \<and> (\<forall>r \<in> set (sh_routines sh). routine_ok r) \<and>
     (\<forall>l \<in> set (sh_cross_app sh). link_ok l))"

text \<open>The payloads.\<close>

lemma returns_money [simp, intro]: "returns (money a b c)"
  unfolding money_def by (rule always_gmap[OF always_uniform]) auto

lemma returns_pick [simp, intro]: "vs \<noteq> [] \<Longrightarrow> returns (pick vs)"
  unfolding pick_def by (rule always_gmap[OF always_choice]) auto

lemma returns_int_between [simp, intro]: "a \<le> b \<Longrightarrow> returns (int_between a b)"
  unfolding int_between_def by (rule always_gmap[OF always_randint]) auto

lemma returns_rounded [simp, intro]: "returns (gmap f (uniform a b))"
  by (rule always_gmap[OF always_uniform]) auto

lemma returns_yield [simp, intro]: "returns (yield x)"
  by (rule always_yield) simp

lemma returns_entries [simp, intro]:
  assumes "list_all (\<lambda>(k, g). returns g) kvs"
  shows "returns (entries kvs)"
  unfolding entries_def
proof (rule always_gmap[OF always_traverse[where P = "\<lambda>x y. True"]])
  fix x assume "x \<in> set kvs"
  then show "returns (case x of (k, g) \<Rightarrow> gmap (Pair k) g)"
    using assms always_gmap[of "\<lambda>x. True" "snd x" "\<lambda>x. True"] by (auto simp: list_all_iff split_beta)
qed simp

lemma returns_merged [simp, intro]: "returns a \<Longrightarrow> returns b \<Longrightarrow> returns (merged a b)"
  unfolding merged_def by (rule always_gbind, assumption) (rule always_gmap, auto)

lemma always_details_or:
  assumes "details_ok g" "P dflt" "\<And>d. P (f d)"
  shows "always P (details_or dflt f g)"
proof (cases g)
  case None
  then show ?thesis using assms(2) by (simp add: details_or_def always_yield)
next
  case (Some d)
  have "returns d" using assms(1) Some by (simp add: details_ok_def)
  then show ?thesis using assms(3) Some always_gmap[of "\<lambda>x. True" d P f] by (simp add: details_or_def)
qed

section \<open>One event\<close>

definition event_at :: "(string \<times> json) list \<Rightarrow> int \<Rightarrow> bool" where
  "event_at e t = (map_of e ''eventTimestamp'' = Some (JStr (isoformat_utc (utc t))) \<and> in_calendar t \<and> whole_second t)"

definition tenant_event :: "string \<Rightarrow> (string \<times> json) list \<Rightarrow> bool" where
  \<comment> \<open>a valid event of the tenant with the text of an instant\<close>
  "tenant_event tenant e = (valid event_schema (JObj e) \<and> map_of e ''tenantId'' = Some (JStr tenant) \<and> (\<exists>t. event_at e t))"

abbreviation shop_event :: "shop \<Rightarrow> (string \<times> json) list \<Rightarrow> bool" where
  "shop_event sh \<equiv> tenant_event (sh_tenant_id sh)"

lemma valid_context_geo:
  "d \<in> set devices \<Longrightarrow> valid context_schema (JObj ([(''sessionId'', JStr s), (''device'', JStr d),
     (''geo'', JObj [(''country'', JStr c), (''region'', JStr r)])] @
     (case corr of None \<Rightarrow> [] | Some x \<Rightarrow> [(''correlationId'', JStr x)])))"
  by (cases corr) (auto simp: context_schema_def valid_object_schema)

lemma valid_object_optional:
  "ty \<noteq> [] \<Longrightarrow> i \<noteq> [] \<Longrightarrow> valid object_ref_schema (JObj ([(''objectType'', JStr ty), (''objectId'', JStr i)] @
     (case ds of None \<Rightarrow> [] | Some d \<Rightarrow> [(''objectDetails'', JObj d)])))"
  using valid_object_plain valid_object_details by (cases ds) auto

definition event_parts_ok :: "persona \<Rightarrow> app_module \<Rightarrow> string \<Rightarrow> string \<Rightarrow> string \<Rightarrow> bool" where
  "event_parts_ok p m action category ty = (persona_ok p \<and> module_ok m \<and> action \<noteq> [] \<and> category \<in> set action_categories \<and> ty \<noteq> [])"

lemma event_of_fields:
  "event_of sh i p m action category ty oi t md ds se co dv =
    event_fields i (sh_tenant_id sh) (mo_application_id m) (mo_instance_id m) ''production'' (isoformat t)
      (JObj [(''nativeUserId'', JStr (pe_native_user_id p)), (''userIdType'', JStr (pe_user_id_type p)),
         (''roles'', JList (map JStr (pe_roles p)))])
      (JObj [(''type'', JStr action), (''category'', JStr category),
         (''metadata'', JObj (dict_merge [(''suite'', JStr (mo_suite m)), (''module'', JStr (mo_module m))] md))])
      (JObj ([(''objectType'', JStr ty), (''objectId'', JStr oi)] @ (case ds of None \<Rightarrow> [] | Some d \<Rightarrow> [(''objectDetails'', JObj d)])))
      (JObj [(''connector'', JStr (mo_connector m)), (''connectorVersion'', JStr (mo_connector_version m))]) @
    [(''context'', JObj ([(''sessionId'', JStr se), (''device'', JStr dv),
         (''geo'', JObj [(''country'', JStr (sh_country sh)), (''region'', JStr (sh_region sh))])] @
         (case co of None \<Rightarrow> [] | Some c \<Rightarrow> [(''correlationId'', JStr c)])))]"
  unfolding event_of_def event_fields_def append_Cons append_Nil ..

lemma event_of_valid:
  assumes "contract_tenant (sh_tenant_id sh)" "event_parts_ok p m action category ty" "oi \<noteq> []" "dv \<in> set devices"
  shows "valid event_schema (JObj (event_of sh i p m action category ty oi t md ds se co dv))"
proof -
  have p: "pe_native_user_id p \<noteq> []" "pe_user_id_type p \<in> set user_id_types" "mo_application_id m \<noteq> []"
    "mo_instance_id m \<noteq> []" "mo_connector m \<noteq> []" "mo_connector_version m \<noteq> []" "action \<noteq> []"
    "category \<in> set action_categories" "ty \<noteq> []"
    using assms(2) by (simp_all add: event_parts_ok_def persona_ok_def module_ok_def)
  have env: "''production'' \<in> set environments" by code_simp
  show ?thesis
    unfolding event_of_fields
    by (rule valid_event_fields[OF assms(1) p(3,4) env valid_actor_roles[OF p(1,2)] valid_action_metadata[OF p(7,8)]
      valid_object_optional[OF p(9) assms(3)] valid_source_plain[OF p(5,6)]])
      (rule disjI2, rule exI, rule conjI[OF refl valid_context_geo[OF assms(4)]])
qed

lemma event_of_get [simp]:
  "map_of (event_of sh i p m action category ty oi t md ds se co dv) ''tenantId'' = Some (JStr (sh_tenant_id sh))"
  "map_of (event_of sh i p m action category ty oi t md ds se co dv) ''eventTimestamp'' = Some (JStr (isoformat t))"
  "map_of (event_of sh i p m action category ty oi t md ds se co dv) ''applicationId'' = Some (JStr (mo_application_id m))"
  "map_of (event_of sh i p m action category ty oi t md ds se co dv) ''actor'' =
     Some (JObj [(''nativeUserId'', JStr (pe_native_user_id p)), (''userIdType'', JStr (pe_user_id_type p)),
       (''roles'', JList (map JStr (pe_roles p)))])"
  unfolding event_of_fields by (rule event_fields_get)+

definition made_by :: "persona \<Rightarrow> app_module \<Rightarrow> (string \<times> json) list \<Rightarrow> bool" where
  "made_by p m e = (map_of e ''applicationId'' = Some (JStr (mo_application_id m)) \<and>
     map_of e ''actor'' = Some (JObj [(''nativeUserId'', JStr (pe_native_user_id p)), (''userIdType'', JStr (pe_user_id_type p)),
       (''roles'', JList (map JStr (pe_roles p)))]))"

lemma event_of_made_by: "made_by p m (event_of sh i p m action category ty oi t md ds se co dv)"
  unfolding made_by_def by (intro conjI event_of_get)

lemma build_event:
  assumes "contract_tenant (sh_tenant_id sh)" "event_parts_ok p m action category ty" "oi \<noteq> []" "dv \<in> set devices"
    "in_calendar t" "whole_second t"
  shows "always (\<lambda>e. shop_event sh e \<and> event_at e t \<and> made_by p m e) (build sh p m action category ty oi (utc t) md ds se co dv)"
  unfolding build_def
proof (rule always_gmap[where P = "\<lambda>u. True"])
  fix u
  let ?e = "event_of sh (uuid_str u) p m action category ty oi (utc t) md ds se co dv"
  have t: "event_at ?e t"
    unfolding event_at_def event_of_get(2) isoformat_utc_eq using assms(5,6) by (intro conjI refl)
  then show "shop_event sh ?e \<and> event_at ?e t \<and> made_by p m ?e"
    unfolding tenant_event_def
    by (intro conjI event_of_valid[OF assms(1-4)] event_of_get(1) event_of_made_by exI[of _ t])
qed (rule always_uuid4, simp)

section \<open>Moments\<close>

definition moment_at :: "int \<Rightarrow> int \<Rightarrow> int" where
  \<comment> \<open>the minute of the day, which may lie outside it\<close>
  "moment_at day m = (day - epoch_ordinal) * us_per_day + m * us_per_minute"

definition inner_day :: "int \<Rightarrow> bool" where
  \<comment> \<open>neither the first nor the last date of the calendar\<close>
  "inner_day day = (2 \<le> day \<and> day < max_ordinal)"

lemma moment_in_calendar:
  assumes "inner_day day" "- 1440 \<le> m" "m < 2880"
  shows "in_calendar (moment_at day m)" "whole_second (moment_at day m)"
proof -
  have "us_per_second dvd us_per_day" "us_per_second dvd us_per_minute" by (simp_all add: us_defs)
  then show "whole_second (moment_at day m)" by (simp add: whole_second_def moment_at_def mod_0_imp_dvd dvd_imp_mod_0)
  have "(2 - epoch_ordinal) * us_per_day \<le> (day - epoch_ordinal) * us_per_day"
    "(day - epoch_ordinal) * us_per_day \<le> (max_ordinal - 1 - epoch_ordinal) * us_per_day"
    using assms(1) by (auto simp: inner_day_def us_defs intro!: mult_right_mono)
  then show "in_calendar (moment_at day m)"
    using assms(2,3) by (auto simp: in_calendar_def min_instant_def max_instant_def moment_at_def us_defs epoch_ordinal_def max_ordinal_def)
qed

lemma plus_minutes_moment:
  assumes "inner_day day" "- 1440 \<le> m + k" "m + k < 2880"
  shows "plus_minutes (utc (moment_at day m)) k = Inr (utc (moment_at day (m + k)))"
  using moment_in_calendar(1)[OF assms]
  by (simp add: plus_minutes_def utc_def moment_at_def algebra_simps)

lemma at_around_moment:
  assumes "inner_day day" "0 \<le> h" "h < 24" "0 \<le> mi" "mi < 60" "0 \<le> j" "j \<le> 1440"
  shows "always (\<lambda>t. \<exists>m. t = utc (moment_at day m) \<and> h * 60 + mi - j \<le> m \<and> m \<le> h * 60 + mi + j) (at_around day h mi j)"
proof -
  have b: "on_day day h mi = Inr (utc (moment_at day (h * 60 + mi)))"
    using assms by (simp add: on_day_def moment_at_def us_defs algebra_simps)
  show ?thesis
    unfolding at_around_def
  proof (rule always_gbind[OF always_from_result[OF b refl]])
    fix base assume base: "base = utc (moment_at day (h * 60 + mi))"
    show "always (\<lambda>t. \<exists>m. t = utc (moment_at day m) \<and> h * 60 + mi - j \<le> m \<and> m \<le> h * 60 + mi + j)
        (gbind (randint (- j) j) (\<lambda>k. from_result (plus_minutes base k)))"
    proof (rule always_gbind[OF always_randint])
      fix k assume k: "- j \<le> k \<and> k \<le> j"
      have "- 1440 \<le> h * 60 + mi + k" "h * 60 + mi + k < 2880" using k assms by linarith+
      from plus_minutes_moment[OF assms(1) this]
      show "always (\<lambda>t. \<exists>m. t = utc (moment_at day m) \<and> h * 60 + mi - j \<le> m \<and> m \<le> h * 60 + mi + j)
          (from_result (plus_minutes base k))"
        unfolding base by (rule always_from_result) (use k in force)
    qed (use assms in simp)
  qed
qed

lemma dates_for_cadence_days:
  assumes "cadence \<in> set CADENCES" "2 \<le> start" "start \<le> stop" "stop < max_ordinal"
  shows "\<exists>ds. dates_for_cadence cadence start stop = Inr ds \<and> (\<forall>d \<in> set ds. inner_day d \<and> start \<le> d \<and> d \<le> stop)"
proof -
  have "cadence \<in> {''daily'', ''weekday'', ''weekly'', ''monthly_end''}" using assms(1) by (simp add: CADENCES_def)
  moreover have "\<forall>d \<in> set (month_end_workdays_between start stop). inner_day d \<and> start \<le> d \<and> d \<le> stop"
    using month_end_workdays(1)[of start stop] assms(2-4) by (simp add: inner_day_def)
  ultimately show ?thesis
    using assms(2-4) by (auto simp: dates_for_cadence_def every_day_def workdays_between_def mondays_between_def
        days_where_range inner_day_def)
qed

section \<open>Routines\<close>

lemma next_object_id_nonempty: "always (\<lambda>i. i \<noteq> []) (next_object_id prefix)"
  by (simp add: always_def next_object_id_def Let_def zfill_def)

lemma object_id_for_nonempty: "activity_ok a \<Longrightarrow> always (\<lambda>i. i \<noteq> []) (object_id_for a)"
  by (cases "ac_id_pool a")
    (auto simp: object_id_for_def activity_ok_def intro!: next_object_id_nonempty always_choice)

lemma emit_activities_events:
  assumes "contract_tenant (sh_tenant_id sh)" "persona_ok p" "module_ok (ro_module r)" "device \<in> set devices" "inner_day day"
    "0 \<le> fst (ro_step_minutes r)" "fst (ro_step_minutes r) \<le> snd (ro_step_minutes r)"
  shows "- 1440 \<le> m \<Longrightarrow> m + int (length as) * snd (ro_step_minutes r) < 2880 \<Longrightarrow> \<forall>a \<in> set as. activity_ok a \<Longrightarrow>
    always (\<lambda>es. \<forall>e \<in> set es. shop_event sh e \<and> made_by p (ro_module r) e)
      (emit_activities sh r p sess device as (utc (moment_at day m)))"
proof (induction as arbitrary: m)
  case Nil
  show ?case by (simp add: always_yield)
next
  case (Cons a as)
  let ?hi = "snd (ro_step_minutes r)"
  have a: "activity_ok a" and as: "\<forall>a \<in> set as. activity_ok a" using Cons.prems(3) by auto
  have hi: "0 \<le> ?hi" "0 \<le> int (length as) * ?hi" using assms(6,7) by simp_all
  have len: "int (length (a # as)) * ?hi = int (length as) * ?hi + ?hi" by (simp add: algebra_simps)
  have m: "m < 2880" using Cons.prems(2) hi unfolding len by linarith
  have parts: "event_parts_ok p (ro_module r) (ac_action_type a) (ac_category a) (ac_object_type a)"
    using a assms(2,3) by (simp add: event_parts_ok_def activity_ok_def)
  note cal = moment_in_calendar[OF assms(5) Cons.prems(1) m]
  have d: "details_ok (ac_metadata a)" "details_ok (ac_details a)" using a by (simp_all add: activity_ok_def)
  show ?case
    unfolding emit_activities.simps
  proof (rule always_gbind[OF object_id_for_nonempty[OF a]])
    fix oi :: string assume oi: "oi \<noteq> []"
    show "always (\<lambda>es. \<forall>e \<in> set es. shop_event sh e \<and> made_by p (ro_module r) e)
      (gbind (details_or [] (\<lambda>d. d) (ac_metadata a)) (\<lambda>metadata.
       gbind (details_or None Some (ac_details a)) (\<lambda>ds.
       gbind (build sh p (ro_module r) (ac_action_type a) (ac_category a) (ac_object_type a) oi (utc (moment_at day m)) metadata ds
         sess None device) (\<lambda>e.
       gbind (randint (fst (ro_step_minutes r)) ?hi) (\<lambda>k.
       gbind (from_result (plus_minutes (utc (moment_at day m)) k)) (\<lambda>moment'.
       gbind (emit_activities sh r p sess device as moment') (\<lambda>es. yield (e # es))))))))"
    proof (rule always_gbind[OF always_details_or[OF d(1), of "\<lambda>x. True"]], simp, simp,
        rule always_gbind[OF always_details_or[OF d(2), of "\<lambda>x. True"]], simp, simp,
        rule always_gbind[OF build_event[OF assms(1) parts oi assms(4) cal]],
        rule always_gbind[OF always_randint[OF assms(7)]])
      fix e k assume e: "shop_event sh e \<and> event_at e (moment_at day m) \<and> made_by p (ro_module r) e"
        and k: "fst (ro_step_minutes r) \<le> k \<and> k \<le> ?hi"
      have b: "- 1440 \<le> m + k" "m + k + int (length as) * ?hi < 2880"
        using k Cons.prems(1,2) assms(6) unfolding len by linarith+
      have "m + k < 2880" using b(2) hi by linarith
      note pm = plus_minutes_moment[OF assms(5) b(1) this]
      show "always (\<lambda>es. \<forall>e \<in> set es. shop_event sh e \<and> made_by p (ro_module r) e)
        (gbind (from_result (plus_minutes (utc (moment_at day m)) k)) (\<lambda>moment'.
         gbind (emit_activities sh r p sess device as moment') (\<lambda>es. yield (e # es))))"
        unfolding pm from_result_def sum.case
        by (rule always_gbind[OF always_yield[where P = "\<lambda>t. t = utc (moment_at day (m + k))"]], rule refl,
            simp, rule always_gbind[OF Cons.IH[OF b as]], rule always_yield) (use e in simp)
    qed
  qed
qed

lemma emit_occurrence_events:
  assumes "contract_tenant (sh_tenant_id sh)" "routine_ok r" "p \<in> set (ro_personas r)" "inner_day day"
  shows "always (\<lambda>es. \<forall>e \<in> set es. shop_event sh e) (emit_occurrence sh r day p)"
proof -
  have r: "persona_ok p" "module_ok (ro_module r)" "0 \<le> ro_hour r" "ro_hour r < 24" "0 \<le> ro_minute r" "ro_minute r < 60"
    "0 \<le> ro_jitter r" "0 \<le> fst (ro_step_minutes r)" "fst (ro_step_minutes r) \<le> snd (ro_step_minutes r)"
    "ro_jitter r + int (length (ro_activities r)) * snd (ro_step_minutes r) < 1440" "ro_device_mix r \<noteq> []"
    "set (ro_device_mix r) \<subseteq> set devices" "\<forall>a \<in> set (ro_activities r). activity_ok a"
    using assms(2,3) by (auto simp: routine_ok_def)
  have s: "0 \<le> int (length (ro_activities r)) * snd (ro_step_minutes r)" using r(8,9) by simp
  then have j: "ro_jitter r \<le> 1440" using r(10) by linarith
  show ?thesis
    unfolding emit_occurrence_def
  proof (rule always_gbind[OF always_gmap[OF always_uuid4[of "\<lambda>u. True"]], of "\<lambda>x. True"], simp, simp,
      rule always_gbind[OF always_choice[OF r(11), of "\<lambda>d. d \<in> set devices"]])
    show "x \<in> set (ro_device_mix r) \<Longrightarrow> x \<in> set devices" for x using r(12) by blast
    fix sess :: string and device assume device: "device \<in> set devices"
    show "always (\<lambda>es. \<forall>e \<in> set es. shop_event sh e)
        (gbind (at_around day (ro_hour r) (ro_minute r) (ro_jitter r)) (emit_activities sh r p sess device (ro_activities r)))"
    proof (rule always_gbind[OF at_around_moment[OF assms(4) r(3-7) j]])
      fix t assume "\<exists>m. t = utc (moment_at day m) \<and> ro_hour r * 60 + ro_minute r - ro_jitter r \<le> m \<and>
          m \<le> ro_hour r * 60 + ro_minute r + ro_jitter r"
      then obtain m where m: "t = utc (moment_at day m)" "- 1440 \<le> m"
        "m + int (length (ro_activities r)) * snd (ro_step_minutes r) < 2880"
        using r(3-7,10) j by fastforce
      show "always (\<lambda>es. \<forall>e \<in> set es. shop_event sh e) (emit_activities sh r p sess device (ro_activities r) t)"
        unfolding m(1)
        by (rule always_mono[OF emit_activities_events[OF assms(1) r(1,2) device assms(4) r(8,9) m(2,3) r(13)]]) blast
    qed
  qed
qed

lemma emit_routine_events:
  assumes "contract_tenant (sh_tenant_id sh)" "routine_ok r" "2 \<le> start" "start \<le> stop" "stop < max_ordinal"
  shows "always (\<lambda>es. \<forall>e \<in> set es. shop_event sh e) (emit_routine sh start stop r)"
proof -
  have c: "ro_cadence r \<in> set CADENCES" "fst (ro_occurrences r) \<le> snd (ro_occurrences r)"
    using assms(2) by (simp_all add: routine_ok_def)
  obtain ds where ds: "dates_for_cadence (ro_cadence r) start stop = Inr ds" "\<forall>d \<in> set ds. inner_day d"
    using dates_for_cadence_days[OF c(1) assms(3-5)] by blast
  have "always (\<lambda>es. \<forall>e \<in> set es. shop_event sh e) (emit_persona sh r day p)"
    if "p \<in> set (ro_personas r)" "inner_day day" for p day
    unfolding emit_persona_def
    by (rule always_gbind[OF always_randint[OF c(2)]], rule always_traverse_concat,
        rule emit_occurrence_events[OF assms(1,2) that])
  then show ?thesis
    unfolding emit_routine_def ds(1) from_result_def sum.case
    by (intro always_gbind[OF always_yield[where P = "\<lambda>x. x = ds"]] refl)
       (auto intro!: always_traverse_concat simp: ds(2))
qed

section \<open>Links\<close>

definition linked_pair :: "shop \<Rightarrow> cross_app_link \<Rightarrow> (string \<times> json) list list \<Rightarrow> bool" where
  \<comment> \<open>two events of one user, the second in the other module after the gap\<close>
  "linked_pair sh l es = (\<exists>e e' t t'. es = [e, e'] \<and> shop_event sh e \<and> shop_event sh e' \<and> event_at e t \<and> event_at e' t' \<and>
     made_by (li_persona l) (st_module (li_first l)) e \<and> made_by (li_persona l) (st_module (li_then l)) e' \<and>
     fst (li_gap_minutes l) * us_per_minute \<le> t' - t \<and> t' - t \<le> snd (li_gap_minutes l) * us_per_minute)"

lemma emit_step_event:
  assumes "contract_tenant (sh_tenant_id sh)" "persona_ok (li_persona l)" "step_ok st" "oi \<noteq> []" "in_calendar t" "whole_second t"
  shows "always (\<lambda>e. shop_event sh e \<and> event_at e t \<and> made_by (li_persona l) (st_module st) e)
    (emit_step sh l st oi (utc t) sess corr)"
proof -
  have s: "details_ok (st_details st)" "event_parts_ok (li_persona l) (st_module st) (st_action_type st) (st_category st) (st_object_type st)"
    using assms(2,3) by (simp_all add: step_ok_def event_parts_ok_def)
  have d: "''desktop'' \<in> set devices" by code_simp
  show ?thesis
    unfolding emit_step_def
    by (rule always_gbind[OF always_details_or[OF s(1), of "\<lambda>x. True"]], simp, simp,
        rule build_event[OF assms(1) s(2) assms(4) d assms(5,6)])
qed

lemma emit_pair_linked:
  assumes "contract_tenant (sh_tenant_id sh)" "link_ok l" "inner_day day"
  shows "always (linked_pair sh l) (emit_pair sh l day)"
proof -
  have l: "persona_ok (li_persona l)" "step_ok (li_first l)" "step_ok (li_then l)" "0 \<le> li_hour l" "li_hour l < 24"
    "fst (li_gap_minutes l) \<le> snd (li_gap_minutes l)" "0 \<le> fst (li_gap_minutes l)" "snd (li_gap_minutes l) < 1400"
    using assms(2) by (auto simp: link_ok_def)
  have z: "(0::int) \<le> 0" "(0::int) < 60" "(0::int) \<le> 8" "(8::int) \<le> 1440" by simp_all
  show ?thesis
    unfolding emit_pair_def
  proof (rule always_gbind[OF always_gmap[OF always_uuid4[of "\<lambda>u. True"]], of "\<lambda>x. True"], simp, simp,
      rule always_gbind[OF always_gmap[OF always_uuid4[of "\<lambda>u. True"]], of "\<lambda>x. True"], simp, simp,
      rule always_gbind[OF at_around_moment[OF assms(3) l(4,5) z]], elim exE conjE)
    fix sess corr :: string and t m
    assume t: "t = utc (moment_at day m)" and m: "li_hour l * 60 + 0 - 8 \<le> m" "m \<le> li_hour l * 60 + 0 + 8"
    have m1: "- 1440 \<le> m" "m < 2880" using m l(4,5) by linarith+
    note c1 = moment_in_calendar[OF assms(3) m1]
    show "always (linked_pair sh l)
      (gbind (next_object_id (st_id_prefix (li_first l))) (\<lambda>first_object.
       gbind (emit_step sh l (li_first l) first_object t sess corr) (\<lambda>first_event.
       gbind (if li_share_object l then yield first_object else next_object_id (st_id_prefix (li_then l))) (\<lambda>then_object.
       gbind (randint (fst (li_gap_minutes l)) (snd (li_gap_minutes l))) (\<lambda>gap.
       gbind (from_result (plus_minutes t gap)) (\<lambda>then_time.
       gbind (emit_step sh l (li_then l) then_object then_time sess corr) (\<lambda>then_event.
       yield [first_event, then_event])))))))"
      unfolding t
    proof (rule always_gbind[OF next_object_id_nonempty])
      fix oi :: string assume oi: "oi \<noteq> []"
      have then_id: "always (\<lambda>i. i \<noteq> []) (if li_share_object l then yield oi else next_object_id (st_id_prefix (li_then l)))"
        using oi next_object_id_nonempty by (simp add: always_yield)
      show "always (linked_pair sh l)
       (gbind (emit_step sh l (li_first l) oi (utc (moment_at day m)) sess corr) (\<lambda>first_event.
        gbind (if li_share_object l then yield oi else next_object_id (st_id_prefix (li_then l))) (\<lambda>then_object.
        gbind (randint (fst (li_gap_minutes l)) (snd (li_gap_minutes l))) (\<lambda>gap.
        gbind (from_result (plus_minutes (utc (moment_at day m)) gap)) (\<lambda>then_time.
        gbind (emit_step sh l (li_then l) then_object then_time sess corr) (\<lambda>then_event.
        yield [first_event, then_event]))))))"
      proof (rule always_gbind[OF emit_step_event[OF assms(1) l(1,2) oi c1]], rule always_gbind[OF then_id],
          rule always_gbind[OF always_randint[OF l(6)]])
        fix e and oi' :: string and gap
        assume e: "shop_event sh e \<and> event_at e (moment_at day m) \<and> made_by (li_persona l) (st_module (li_first l)) e"
          and oi': "oi' \<noteq> []" and gap: "fst (li_gap_minutes l) \<le> gap \<and> gap \<le> snd (li_gap_minutes l)"
        have b: "- 1440 \<le> m + gap" "m + gap < 2880" using gap m l(4,5,7,8) by linarith+
        note pm = plus_minutes_moment[OF assms(3) b] and c2 = moment_in_calendar[OF assms(3) b]
        have g: "fst (li_gap_minutes l) * us_per_minute \<le> moment_at day (m + gap) - moment_at day m"
          "moment_at day (m + gap) - moment_at day m \<le> snd (li_gap_minutes l) * us_per_minute"
          using gap by (auto simp: moment_at_def algebra_simps us_defs)
        show "always (linked_pair sh l)
          (gbind (from_result (plus_minutes (utc (moment_at day m)) gap)) (\<lambda>then_time.
           gbind (emit_step sh l (li_then l) oi' then_time sess corr) (\<lambda>then_event. yield [e, then_event])))"
          unfolding pm from_result_def sum.case
          by (rule always_gbind[OF always_yield[where P = "\<lambda>t. t = utc (moment_at day (m + gap))"]], rule refl, simp,
              rule always_gbind[OF emit_step_event[OF assms(1) l(1,3) oi' c2]], rule always_yield)
             (use e g in \<open>unfold linked_pair_def, blast\<close>)
      qed
    qed
  qed
qed

lemma emit_cross_app_events:
  assumes "contract_tenant (sh_tenant_id sh)" "link_ok l" "2 \<le> start" "start \<le> stop" "stop < max_ordinal"
  shows "always (\<lambda>es. \<forall>e \<in> set es. shop_event sh e) (emit_cross_app sh start stop l)"
proof -
  have c: "li_cadence l \<in> set CADENCES" using assms(2) by (simp add: link_ok_def)
  obtain ds where ds: "dates_for_cadence (li_cadence l) start stop = Inr ds" "\<forall>d \<in> set ds. inner_day d"
    using dates_for_cadence_days[OF c assms(3-5)] by blast
  have "always (\<lambda>es. \<forall>e \<in> set es. shop_event sh e) (emit_link_day sh l day)" if "inner_day day" for day
    unfolding emit_link_day_def
  proof (rule always_gbind[OF always_random_unit])
    fix x :: real
    have p: "linked_pair sh l es \<Longrightarrow> \<forall>e \<in> set es. shop_event sh e" for es by (auto simp: linked_pair_def)
    show "always (\<lambda>es. \<forall>e \<in> set es. shop_event sh e) (if x > li_probability l then yield [] else emit_pair sh l day)"
      using always_mono[OF emit_pair_linked[OF assms(1,2) that] p] by (simp add: always_yield)
  qed
  then show ?thesis
    unfolding emit_cross_app_def ds(1) from_result_def sum.case
    by (intro always_gbind[OF always_yield[where P = "\<lambda>x. x = ds"]] refl)
       (auto intro!: always_traverse_concat simp: ds(2))
qed

section \<open>The whole\<close>

definition in_time_order :: "(string \<times> json) list list \<Rightarrow> bool" where
  "in_time_order es = sorted_wrt (\<lambda>e e'. \<forall>t t'. event_at e t \<longrightarrow> event_at e' t' \<longrightarrow> t \<le> t') es"

lemma sort_time_order: "in_time_order (sort_key time_text es)"
proof -
  have s: "sorted_wrt (\<lambda>e e'. time_text e \<le> time_text e') (sort_key time_text es)"
    using sorted_sort_key[of time_text es] by (simp add: sorted_map)
  have o: "t \<le> t'" if "time_text e \<le> time_text e'" "event_at e t" "event_at e' t'" for e e' t t'
    using that isoformat_utc_order[of t t'] by (simp add: event_at_def time_text_def dget_def)
  show ?thesis unfolding in_time_order_def by (rule sorted_wrt_mono_rel[OF _ s]) (use o in blast)
qed

lemma generate_shop_events_ok:
  assumes "shop_ok sh" "2 \<le> start" "start \<le> stop" "stop < max_ordinal"
  shows "always (\<lambda>es. (\<forall>e \<in> set es. shop_event sh e) \<and> in_time_order es) (generate_shop_events sh start stop)"
proof -
  have t: "contract_tenant (sh_tenant_id sh)" using assms(1) by (simp add: shop_ok_def)
  have f: "always (\<lambda>x. True) fresh_factory" by (simp add: always_def fresh_factory_def)
  have r: "always (\<lambda>es. \<forall>e \<in> set es. shop_event sh e) (traverse_concat (emit_routine sh start stop) (sh_routines sh))"
    by (rule always_traverse_concat, rule emit_routine_events[OF t _ assms(2-4)]) (use assms(1) in \<open>simp add: shop_ok_def\<close>)
  have l: "always (\<lambda>es. \<forall>e \<in> set es. shop_event sh e) (traverse_concat (emit_cross_app sh start stop) (sh_cross_app sh))"
    by (rule always_traverse_concat, rule emit_cross_app_events[OF t _ assms(2-4)]) (use assms(1) in \<open>simp add: shop_ok_def\<close>)
  show ?thesis
    unfolding generate_shop_events_def
    by (rule always_gbind[OF f], rule always_gbind[OF r], rule always_gbind[OF l], rule always_yield) (auto simp: sort_time_order)
qed

section \<open>Checking a shop\<close>

lemmas routine_rules = routine_ok_def Routine_def activity_ok_def Activity_def details_ok_def CADENCES_def devices_def
  action_categories_def

lemmas link_rules = link_ok_def CrossAppLink_def step_ok_def Step_def details_ok_def CADENCES_def action_categories_def

end
