(* ===== verification/ShopSap.thy ===== *)
theory ShopSap
  imports ShopSpec
begin

text \<open>
  \<open>samples/shops/sap.py\<close>: a tenant on the SAP products, one application a module.
\<close>

section \<open>Modules, personas and payloads\<close>

definition SF_CONNECTOR_sap :: string where
  "SF_CONNECTOR_sap = ''successfactors-odata-connector''"

definition SF_VERSION_sap :: string where
  "SF_VERSION_sap = ''2.3.1''"

definition SF_EMPLOYEE_CENTRAL_sap :: app_module where
  "SF_EMPLOYEE_CENTRAL_sap = Module ''sap_successfactors_ec'' ''sf-ec-prod-01'' SF_CONNECTOR_sap SF_VERSION_sap ''SAP SuccessFactors'' ''Employee Central''"

definition SF_RECRUITING_sap :: app_module where
  "SF_RECRUITING_sap = Module ''sap_successfactors_rcm'' ''sf-rcm-prod-01'' SF_CONNECTOR_sap SF_VERSION_sap ''SAP SuccessFactors'' ''Recruiting''"

definition SF_LEARNING_sap :: app_module where
  "SF_LEARNING_sap = Module ''sap_successfactors_lms'' ''sf-lms-prod-01'' SF_CONNECTOR_sap SF_VERSION_sap ''SAP SuccessFactors'' ''Learning''"

definition SF_PERFORMANCE_sap :: app_module where
  "SF_PERFORMANCE_sap = Module ''sap_successfactors_pmgm'' ''sf-pmgm-prod-01'' SF_CONNECTOR_sap SF_VERSION_sap ''SAP SuccessFactors'' ''Performance & Goals''"

definition SF_COMPENSATION_sap :: app_module where
  "SF_COMPENSATION_sap = Module ''sap_successfactors_comp'' ''sf-comp-prod-01'' SF_CONNECTOR_sap SF_VERSION_sap ''SAP SuccessFactors'' ''Compensation''"

definition SF_ANALYTICS_sap :: app_module where
  "SF_ANALYTICS_sap = Module ''sap_successfactors_wfa'' ''sf-wfa-prod-01'' SF_CONNECTOR_sap SF_VERSION_sap ''SAP SuccessFactors'' ''Workforce Analytics''"

definition S4_CONNECTOR_sap :: string where
  "S4_CONNECTOR_sap = ''s4hana-cloud-connector''"

definition S4_VERSION_sap :: string where
  "S4_VERSION_sap = ''3.0.4''"

definition S4_FINANCE_sap :: app_module where
  "S4_FINANCE_sap = Module ''sap_s4hana_fi'' ''s4-fi-prod-01'' S4_CONNECTOR_sap S4_VERSION_sap ''SAP S/4HANA'' ''Finance''"

definition S4_MATERIALS_sap :: app_module where
  "S4_MATERIALS_sap = Module ''sap_s4hana_mm'' ''s4-mm-prod-01'' S4_CONNECTOR_sap S4_VERSION_sap ''SAP S/4HANA'' ''Materials Management''"

definition S4_SALES_sap :: app_module where
  "S4_SALES_sap = Module ''sap_s4hana_sd'' ''s4-sd-prod-01'' S4_CONNECTOR_sap S4_VERSION_sap ''SAP S/4HANA'' ''Sales & Distribution''"

definition ARIBA_CONNECTOR_sap :: string where
  "ARIBA_CONNECTOR_sap = ''ariba-api-connector''"

definition ARIBA_VERSION_sap :: string where
  "ARIBA_VERSION_sap = ''1.8.2''"

definition ARIBA_SOURCING_sap :: app_module where
  "ARIBA_SOURCING_sap = Module ''sap_ariba_sourcing'' ''ariba-src-prod-01'' ARIBA_CONNECTOR_sap ARIBA_VERSION_sap ''SAP Ariba'' ''Sourcing''"

definition ARIBA_BUYING_sap :: app_module where
  "ARIBA_BUYING_sap = Module ''sap_ariba_buying'' ''ariba-buy-prod-01'' ARIBA_CONNECTOR_sap ARIBA_VERSION_sap ''SAP Ariba'' ''Buying''"

definition ARIBA_SUPPLIER_sap :: app_module where
  "ARIBA_SUPPLIER_sap = Module ''sap_ariba_slp'' ''ariba-slp-prod-01'' ARIBA_CONNECTOR_sap ARIBA_VERSION_sap ''SAP Ariba'' ''Supplier Management''"

definition CONCUR_CONNECTOR_sap :: string where
  "CONCUR_CONNECTOR_sap = ''concur-connector''"

definition CONCUR_VERSION_sap :: string where
  "CONCUR_VERSION_sap = ''1.5.0''"

definition CONCUR_EXPENSE_sap :: app_module where
  "CONCUR_EXPENSE_sap = Module ''sap_concur_expense'' ''concur-exp-prod-01'' CONCUR_CONNECTOR_sap CONCUR_VERSION_sap ''SAP Concur'' ''Expense''"

definition CONCUR_TRAVEL_sap :: app_module where
  "CONCUR_TRAVEL_sap = Module ''sap_concur_travel'' ''concur-trv-prod-01'' CONCUR_CONNECTOR_sap CONCUR_VERSION_sap ''SAP Concur'' ''Travel''"

definition CONCUR_INVOICE_sap :: app_module where
  "CONCUR_INVOICE_sap = Module ''sap_concur_invoice'' ''concur-inv-prod-01'' CONCUR_CONNECTOR_sap CONCUR_VERSION_sap ''SAP Concur'' ''Invoice''"

definition HR_SPECIALIST_sap :: persona where
  "HR_SPECIALIST_sap = Persona ''10041288'' ''Priya Nair'' [''hr_ops_specialist''] ''employee_id''"

definition RECRUITER_sap :: persona where
  "RECRUITER_sap = Persona ''10052910'' ''Marcus Feld'' [''recruiter''] ''employee_id''"

definition HIRING_MANAGER_sap :: persona where
  "HIRING_MANAGER_sap = Persona ''10033471'' ''Dana Rowe'' [''hiring_manager'', ''people_manager''] ''employee_id''"

definition LEARNING_ADMIN_sap :: persona where
  "LEARNING_ADMIN_sap = Persona ''10061205'' ''Sofia Bianchi'' [''learning_admin''] ''employee_id''"

definition PEOPLE_MANAGER_sap :: persona where
  "PEOPLE_MANAGER_sap = Persona ''10029833'' (''Tom'' @ [CHR 0xE1] @ ''s Vela'') [''people_manager''] ''employee_id''"

definition COMP_ANALYST_sap :: persona where
  "COMP_ANALYST_sap = Persona ''10047762'' ''Grace Okoro'' [''compensation_analyst''] ''employee_id''"

definition HR_ANALYST_sap :: persona where
  "HR_ANALYST_sap = Persona ''10055018'' ''Ken Ishida'' [''workforce_analyst''] ''employee_id''"

definition EMPLOYEE_sap :: persona where
  "EMPLOYEE_sap = Persona ''10071940'' ''Lena Fischer'' [''employee''] ''employee_id''"

definition FIN_ACCOUNTANT_sap :: persona where
  "FIN_ACCOUNTANT_sap = Persona ''10012004'' ''Raj Malhotra'' [''financial_accountant''] ''employee_id''"

definition AP_CLERK_sap :: persona where
  "AP_CLERK_sap = Persona ''10012455'' ''Nadia Haddad'' [''accounts_payable_clerk''] ''employee_id''"

definition PROCUREMENT_SPEC_sap :: persona where
  "PROCUREMENT_SPEC_sap = Persona ''10013890'' ''Owen Pierce'' [''procurement_specialist''] ''employee_id''"

definition ORDER_PROCESSOR_sap :: persona where
  "ORDER_PROCESSOR_sap = Persona ''10014377'' ''Mei Lin'' [''order_processor''] ''employee_id''"

definition SOURCING_MANAGER_sap :: persona where
  "SOURCING_MANAGER_sap = Persona ''10015120'' ''Diego Santos'' [''sourcing_manager''] ''employee_id''"

definition BUYER_sap :: persona where
  "BUYER_sap = Persona ''10015661'' ''Hannah Volk'' [''buyer''] ''employee_id''"

definition CATEGORY_MANAGER_sap :: persona where
  "CATEGORY_MANAGER_sap = Persona ''10016043'' ''Ivan Petrov'' [''category_manager''] ''employee_id''"

definition EXP_SUBMITTER_sap :: persona where
  "EXP_SUBMITTER_sap = Persona ''lena.fischer@globex.example'' ''Lena Fischer'' [''employee''] ''email''"

definition EXP_APPROVER_sap :: persona where
  "EXP_APPROVER_sap = Persona ''tomas.vela@globex.example'' (''Tom'' @ [CHR 0xE1] @ ''s Vela'') [''people_manager''] ''email''"

definition FIN_AUDITOR_sap :: persona where
  "FIN_AUDITOR_sap = Persona ''dana.reyes@globex.example'' ''Dana Reyes'' [''finance_auditor''] ''email''"

definition TRAVEL_ARRANGER_sap :: persona where
  "TRAVEL_ARRANGER_sap = Persona ''carol.diaz@globex.example'' ''Carol Diaz'' [''travel_arranger''] ''email''"

definition AP_PROCESSOR_sap :: persona where
  "AP_PROCESSOR_sap = Persona ''nadia.haddad@globex.example'' ''Nadia Haddad'' [''ap_processor''] ''email''"

definition OPEN_REQUISITIONS_sap :: "string list" where
  "OPEN_REQUISITIONS_sap = [''REQ-2026-0480'', ''REQ-2026-0491'', ''REQ-2026-0507'', ''REQ-2026-0512'']"

definition CLOSE_TASKS_sap :: "string list" where
  "CLOSE_TASKS_sap = [''CLOSE-FY26-GL'', ''CLOSE-FY26-AP'', ''CLOSE-FY26-AR'', ''CLOSE-FY26-FX'']"

definition KEY_SUPPLIERS_sap :: "string list" where
  "KEY_SUPPLIERS_sap = [''SUP-100234'', ''SUP-100251'', ''SUP-100288'']"

definition leave_details_sap :: details where
  "leave_details_sap = entries
     [(''leave_type'', pick [''annual'', ''sick'', ''parental'', ''unpaid'']),
      (''days'', int_between 1 10)]"

lemma returns_leave_details_sap [simp, intro]: "returns leave_details_sap"
  by (auto simp: leave_details_sap_def)

definition course_details_sap :: details where
  "course_details_sap = entries
     [(''course'', pick [''Data Privacy 2026'', ''Anti-Bribery'', ''Leadership 201'', ''SAP Fiori Basics'', ''Workplace Safety'']),
      (''delivery'', pick [''online'', ''instructor_led'', ''virtual''])]"

lemma returns_course_details_sap [simp, intro]: "returns course_details_sap"
  by (auto simp: course_details_sap_def)

definition po_details_sap :: details where
  "po_details_sap = merged (money 1500 240000 ''EUR'') (entries
     [(''plant'', pick [''1010'', ''1710'', ''2020'']),
      (''material_group'', pick [''MRO'', ''RAW'', ''SERV'', ''IT-HW''])])"

lemma returns_po_details_sap [simp, intro]: "returns po_details_sap"
  by (auto simp: po_details_sap_def)

definition journal_details_sap :: details where
  "journal_details_sap = merged (money 5000 900000 ''EUR'') (entries
     [(''ledger'', yield (JStr ''0L'')),
      (''document_type'', pick [''SA'', ''KR'', ''DR'']),
      (''company_code'', pick [''1000'', ''2000'', ''3000''])])"

lemma returns_journal_details_sap [simp, intro]: "returns journal_details_sap"
  by (auto simp: journal_details_sap_def)

definition sourcing_details_sap :: details where
  "sourcing_details_sap = merged (money 50000 3500000 ''EUR'') (entries
     [(''commodity'', pick [''Logistics'', ''IT Services'', ''Packaging'', ''Facilities'']),
      (''region'', pick [''EMEA'', ''AMER'', ''APAC''])])"

lemma returns_sourcing_details_sap [simp, intro]: "returns sourcing_details_sap"
  by (auto simp: sourcing_details_sap_def)

definition expense_details_sap :: details where
  "expense_details_sap = merged (money 45 4200 ''USD'') (entries
     [(''expense_type'', pick [''airfare'', ''lodging'', ''meals'', ''ground_transport'']),
      (''cost_center'', pick [''CC-4100'', ''CC-4200'', ''CC-5300'']),
      (''line_items'', int_between 2 16)])"

lemma returns_expense_details_sap [simp, intro]: "returns expense_details_sap"
  by (auto simp: expense_details_sap_def)

definition trip_details_sap :: details where
  "trip_details_sap = entries
     [(''origin'', pick [''FRA'', ''LHR'', ''JFK'', ''SIN'']),
      (''destination'', pick [''SFO'', ''BLR'', ''DXB'', ''SYD'']),
      (''cabin'', pick [''economy'', ''premium_economy'', ''business''])]"

lemma returns_trip_details_sap [simp, intro]: "returns trip_details_sap"
  by (auto simp: trip_details_sap_def)

section \<open>Routines\<close>

lemmas strings_sap = SF_CONNECTOR_sap_def
  SF_VERSION_sap_def
  S4_CONNECTOR_sap_def
  S4_VERSION_sap_def
  ARIBA_CONNECTOR_sap_def
  ARIBA_VERSION_sap_def
  CONCUR_CONNECTOR_sap_def
  CONCUR_VERSION_sap_def
  OPEN_REQUISITIONS_sap_def
  CLOSE_TASKS_sap_def
  KEY_SUPPLIERS_sap_def

lemma modules_sap [simp]:
  "module_ok SF_EMPLOYEE_CENTRAL_sap"
  "module_ok SF_RECRUITING_sap"
  "module_ok SF_LEARNING_sap"
  "module_ok SF_PERFORMANCE_sap"
  "module_ok SF_COMPENSATION_sap"
  "module_ok SF_ANALYTICS_sap"
  "module_ok S4_FINANCE_sap"
  "module_ok S4_MATERIALS_sap"
  "module_ok S4_SALES_sap"
  "module_ok ARIBA_SOURCING_sap"
  "module_ok ARIBA_BUYING_sap"
  "module_ok ARIBA_SUPPLIER_sap"
  "module_ok CONCUR_EXPENSE_sap"
  "module_ok CONCUR_TRAVEL_sap"
  "module_ok CONCUR_INVOICE_sap"
  by (simp_all add: module_ok_def Module_def strings_sap
    SF_EMPLOYEE_CENTRAL_sap_def SF_RECRUITING_sap_def SF_LEARNING_sap_def SF_PERFORMANCE_sap_def SF_COMPENSATION_sap_def SF_ANALYTICS_sap_def S4_FINANCE_sap_def S4_MATERIALS_sap_def S4_SALES_sap_def ARIBA_SOURCING_sap_def ARIBA_BUYING_sap_def ARIBA_SUPPLIER_sap_def CONCUR_EXPENSE_sap_def CONCUR_TRAVEL_sap_def CONCUR_INVOICE_sap_def)

lemma personas_sap [simp]:
  "persona_ok HR_SPECIALIST_sap"
  "persona_ok RECRUITER_sap"
  "persona_ok HIRING_MANAGER_sap"
  "persona_ok LEARNING_ADMIN_sap"
  "persona_ok PEOPLE_MANAGER_sap"
  "persona_ok COMP_ANALYST_sap"
  "persona_ok HR_ANALYST_sap"
  "persona_ok EMPLOYEE_sap"
  "persona_ok FIN_ACCOUNTANT_sap"
  "persona_ok AP_CLERK_sap"
  "persona_ok PROCUREMENT_SPEC_sap"
  "persona_ok ORDER_PROCESSOR_sap"
  "persona_ok SOURCING_MANAGER_sap"
  "persona_ok BUYER_sap"
  "persona_ok CATEGORY_MANAGER_sap"
  "persona_ok EXP_SUBMITTER_sap"
  "persona_ok EXP_APPROVER_sap"
  "persona_ok FIN_AUDITOR_sap"
  "persona_ok TRAVEL_ARRANGER_sap"
  "persona_ok AP_PROCESSOR_sap"
  by (simp_all add: persona_ok_def Persona_def strings_sap user_id_types_def
    HR_SPECIALIST_sap_def RECRUITER_sap_def HIRING_MANAGER_sap_def LEARNING_ADMIN_sap_def PEOPLE_MANAGER_sap_def COMP_ANALYST_sap_def HR_ANALYST_sap_def EMPLOYEE_sap_def FIN_ACCOUNTANT_sap_def AP_CLERK_sap_def PROCUREMENT_SPEC_sap_def ORDER_PROCESSOR_sap_def SOURCING_MANAGER_sap_def BUYER_sap_def CATEGORY_MANAGER_sap_def EXP_SUBMITTER_sap_def EXP_APPROVER_sap_def FIN_AUDITOR_sap_def TRAVEL_ARRANGER_sap_def AP_PROCESSOR_sap_def)

definition ROUTINE_1_sap :: routine where
  "ROUTINE_1_sap = (Routine SF_EMPLOYEE_CENTRAL_sap [HR_SPECIALIST_sap] ''weekday'' 9
      [Activity ''view_employee_profile'' ''read'' ''employee_record'' ''EMP-'',
       (Activity ''update_personal_info'' ''update'' ''employee_record'' ''EMP-'')
         \<lparr>ac_metadata := Some (entries
     [(''field'', pick [''address'', ''bank'', ''dependent''])])\<rparr>])
     \<lparr>ro_occurrences := (2, 4)\<rparr>"

lemma ROUTINE_1_sap_ok: "routine_ok ROUTINE_1_sap"
  by (auto simp: ROUTINE_1_sap_def routine_rules strings_sap)

definition ROUTINE_2_sap :: routine where
  "ROUTINE_2_sap = Routine SF_EMPLOYEE_CENTRAL_sap [EMPLOYEE_sap] ''weekly'' 8
      [(Activity ''submit_time_off'' ''create'' ''leave_request'' ''LR-'')
         \<lparr>ac_details := Some leave_details_sap\<rparr>]"

lemma ROUTINE_2_sap_ok: "routine_ok ROUTINE_2_sap"
  by (auto simp: ROUTINE_2_sap_def routine_rules strings_sap)

definition ROUTINE_3_sap :: routine where
  "ROUTINE_3_sap = (Routine SF_EMPLOYEE_CENTRAL_sap [PEOPLE_MANAGER_sap] ''weekly'' 9
      [(Activity ''approve_time_off'' ''approve'' ''leave_request'' ''LR-'')
         \<lparr>ac_details := Some leave_details_sap\<rparr>])
     \<lparr>ro_occurrences := (2, 5), ro_device_mix := [''desktop'', ''mobile'']\<rparr>"

lemma ROUTINE_3_sap_ok: "routine_ok ROUTINE_3_sap"
  by (auto simp: ROUTINE_3_sap_def routine_rules strings_sap)

definition ROUTINE_4_sap :: routine where
  "ROUTINE_4_sap = (Routine SF_RECRUITING_sap [RECRUITER_sap] ''weekday'' 10
      [Activity ''screen_candidate'' ''read'' ''candidate'' ''CAND-'',
       (Activity ''advance_candidate_stage'' ''update'' ''candidate'' ''CAND-'')
         \<lparr>ac_metadata := Some (entries
     [(''to_stage'', pick [''phone_screen'', ''onsite'', ''offer''])])\<rparr>])
     \<lparr>ro_occurrences := (2, 5)\<rparr>"

lemma ROUTINE_4_sap_ok: "routine_ok ROUTINE_4_sap"
  by (auto simp: ROUTINE_4_sap_def routine_rules strings_sap)

definition ROUTINE_5_sap :: routine where
  "ROUTINE_5_sap = Routine SF_RECRUITING_sap [HIRING_MANAGER_sap] ''weekly'' 11
      [(Activity ''create_job_requisition'' ''create'' ''job_requisition'' ''JR-'')
         \<lparr>ac_metadata := Some (entries
     [(''headcount'', int_between 1 3),
      (''level'', pick [''IC3'', ''IC4'', ''M1''])])\<rparr>]"

lemma ROUTINE_5_sap_ok: "routine_ok ROUTINE_5_sap"
  by (auto simp: ROUTINE_5_sap_def routine_rules strings_sap)

definition ROUTINE_6_sap :: routine where
  "ROUTINE_6_sap = Routine SF_LEARNING_sap [EMPLOYEE_sap, PEOPLE_MANAGER_sap] ''weekly'' 14
      [(Activity ''launch_content'' ''read'' ''course'' ''LRN-'')
         \<lparr>ac_id_pool := Some [''LRN-000481'', ''LRN-000492'', ''LRN-000513''], ac_details := Some course_details_sap\<rparr>,
       (Activity ''complete_course'' ''update'' ''course'' ''LRN-'')
         \<lparr>ac_details := Some course_details_sap\<rparr>]"

lemma ROUTINE_6_sap_ok: "routine_ok ROUTINE_6_sap"
  by (auto simp: ROUTINE_6_sap_def routine_rules strings_sap)

definition ROUTINE_7_sap :: routine where
  "ROUTINE_7_sap = Routine SF_LEARNING_sap [LEARNING_ADMIN_sap] ''weekday'' 9
      [(Activity ''assign_learning'' ''create'' ''learning_assignment'' ''LA-'')
         \<lparr>ac_metadata := Some (entries
     [(''assignees'', int_between 3 60),
      (''curriculum'', pick [''compliance'', ''onboarding'', ''leadership''])])\<rparr>]"

lemma ROUTINE_7_sap_ok: "routine_ok ROUTINE_7_sap"
  by (auto simp: ROUTINE_7_sap_def routine_rules strings_sap)

definition ROUTINE_8_sap :: routine where
  "ROUTINE_8_sap = Routine SF_PERFORMANCE_sap [PEOPLE_MANAGER_sap] ''weekly'' 15
      [Activity ''write_review'' ''update'' ''performance_review'' ''PR-'',
       Activity ''submit_feedback'' ''create'' ''feedback'' ''FB-'']"

lemma ROUTINE_8_sap_ok: "routine_ok ROUTINE_8_sap"
  by (auto simp: ROUTINE_8_sap_def routine_rules strings_sap)

definition ROUTINE_9_sap :: routine where
  "ROUTINE_9_sap = Routine SF_PERFORMANCE_sap [EMPLOYEE_sap] ''weekly'' 16
      [(Activity ''set_goal'' ''create'' ''goal'' ''GOAL-'')
         \<lparr>ac_metadata := Some (entries
     [(''category'', pick [''delivery'', ''growth'', ''impact''])])\<rparr>]"

lemma ROUTINE_9_sap_ok: "routine_ok ROUTINE_9_sap"
  by (auto simp: ROUTINE_9_sap_def routine_rules strings_sap)

definition ROUTINE_10_sap :: routine where
  "ROUTINE_10_sap = (Routine SF_COMPENSATION_sap [COMP_ANALYST_sap] ''monthly_end'' 10
      [Activity ''model_comp_plan'' ''read'' ''comp_plan'' ''CP-'',
       (Activity ''submit_merit_increase'' ''create'' ''comp_worksheet'' ''CW-'')
         \<lparr>ac_details := Some (merged (money 2000 25000 ''USD'') (entries
     [(''merit_pct'', gmap (rounded 1) (uniform (15 / 10) 6))]))\<rparr>])
     \<lparr>ro_occurrences := (3, 8)\<rparr>"

lemma ROUTINE_10_sap_ok: "routine_ok ROUTINE_10_sap"
  by (auto simp: ROUTINE_10_sap_def routine_rules strings_sap)

definition ROUTINE_11_sap :: routine where
  "ROUTINE_11_sap = (Routine SF_ANALYTICS_sap [HR_ANALYST_sap] ''weekly'' 8
      [(Activity ''run_headcount_report'' ''read'' ''report'' ''RPT-'')
         \<lparr>ac_id_pool := Some [''RPT-HEADCOUNT'', ''RPT-ATTRITION'', ''RPT-DIVERSITY''], ac_metadata := Some (entries
     [(''dimension'', pick [''region'', ''function'', ''band''])])\<rparr>])
     \<lparr>ro_occurrences := (1, 2)\<rparr>"

lemma ROUTINE_11_sap_ok: "routine_ok ROUTINE_11_sap"
  by (auto simp: ROUTINE_11_sap_def routine_rules strings_sap)

definition ROUTINE_12_sap :: routine where
  "ROUTINE_12_sap = (Routine S4_FINANCE_sap [FIN_ACCOUNTANT_sap] ''weekday'' 9
      [(Activity ''post_journal_entry'' ''create'' ''journal_entry'' ''JE-'')
         \<lparr>ac_details := Some journal_details_sap\<rparr>])
     \<lparr>ro_occurrences := (3, 9)\<rparr>"

lemma ROUTINE_12_sap_ok: "routine_ok ROUTINE_12_sap"
  by (auto simp: ROUTINE_12_sap_def routine_rules strings_sap)

definition ROUTINE_13_sap :: routine where
  "ROUTINE_13_sap = (Routine S4_FINANCE_sap [FIN_ACCOUNTANT_sap, AP_CLERK_sap] ''monthly_end'' 11
      [(Activity ''run_financial_close'' ''update'' ''close_task'' ''CLOSE-'')
         \<lparr>ac_id_pool := Some CLOSE_TASKS_sap, ac_metadata := Some (entries
     [(''status'', pick [''in_progress'', ''completed''])])\<rparr>])
     \<lparr>ro_occurrences := (2, 4)\<rparr>"

lemma ROUTINE_13_sap_ok: "routine_ok ROUTINE_13_sap"
  by (auto simp: ROUTINE_13_sap_def routine_rules strings_sap)

definition ROUTINE_14_sap :: routine where
  "ROUTINE_14_sap = (Routine S4_MATERIALS_sap [PROCUREMENT_SPEC_sap] ''weekday'' 10
      [(Activity ''create_purchase_order'' ''create'' ''purchase_order'' ''PO-45'')
         \<lparr>ac_details := Some po_details_sap\<rparr>,
       Activity ''post_goods_receipt'' ''update'' ''goods_receipt'' ''GR-50''])
     \<lparr>ro_occurrences := (2, 6)\<rparr>"

lemma ROUTINE_14_sap_ok: "routine_ok ROUTINE_14_sap"
  by (auto simp: ROUTINE_14_sap_def routine_rules strings_sap)

definition ROUTINE_15_sap :: routine where
  "ROUTINE_15_sap = (Routine S4_SALES_sap [ORDER_PROCESSOR_sap] ''weekday'' 11
      [(Activity ''create_sales_order'' ''create'' ''sales_order'' ''SO-'')
         \<lparr>ac_details := Some (money 800 180000 ''EUR'')\<rparr>,
       Activity ''create_delivery'' ''create'' ''delivery'' ''DLV-80''])
     \<lparr>ro_occurrences := (3, 8)\<rparr>"

lemma ROUTINE_15_sap_ok: "routine_ok ROUTINE_15_sap"
  by (auto simp: ROUTINE_15_sap_def routine_rules strings_sap)

definition ROUTINE_16_sap :: routine where
  "ROUTINE_16_sap = Routine ARIBA_SOURCING_sap [SOURCING_MANAGER_sap] ''weekly'' 10
      [(Activity ''create_sourcing_event'' ''create'' ''sourcing_event'' ''RFX-'')
         \<lparr>ac_details := Some sourcing_details_sap\<rparr>,
       (Activity ''award_supplier'' ''approve'' ''sourcing_event'' ''RFX-'')
         \<lparr>ac_metadata := Some (entries
     [(''suppliers_invited'', int_between 3 9)])\<rparr>]"

lemma ROUTINE_16_sap_ok: "routine_ok ROUTINE_16_sap"
  by (auto simp: ROUTINE_16_sap_def routine_rules strings_sap)

definition ROUTINE_17_sap :: routine where
  "ROUTINE_17_sap = (Routine ARIBA_BUYING_sap [BUYER_sap] ''weekday'' 9
      [(Activity ''create_requisition'' ''create'' ''requisition'' ''REQ-2026-'')
         \<lparr>ac_id_pool := Some OPEN_REQUISITIONS_sap, ac_details := Some (money 200 45000 ''EUR'')\<rparr>,
       (Activity ''approve_requisition'' ''approve'' ''requisition'' ''REQ-2026-'')
         \<lparr>ac_id_pool := Some OPEN_REQUISITIONS_sap\<rparr>])
     \<lparr>ro_occurrences := (1, 3), ro_device_mix := [''desktop'', ''mobile'']\<rparr>"

lemma ROUTINE_17_sap_ok: "routine_ok ROUTINE_17_sap"
  by (auto simp: ROUTINE_17_sap_def routine_rules strings_sap)

definition ROUTINE_18_sap :: routine where
  "ROUTINE_18_sap = (Routine ARIBA_SUPPLIER_sap [CATEGORY_MANAGER_sap] ''weekly'' 13
      [(Activity ''assess_supplier_risk'' ''read'' ''supplier'' ''SUP-'')
         \<lparr>ac_id_pool := Some KEY_SUPPLIERS_sap, ac_metadata := Some (entries
     [(''risk_tier'', pick [''low'', ''medium'', ''high''])])\<rparr>])
     \<lparr>ro_occurrences := (2, 4)\<rparr>"

lemma ROUTINE_18_sap_ok: "routine_ok ROUTINE_18_sap"
  by (auto simp: ROUTINE_18_sap_def routine_rules strings_sap)

definition ROUTINE_19_sap :: routine where
  "ROUTINE_19_sap = Routine CONCUR_EXPENSE_sap [EXP_SUBMITTER_sap] ''monthly_end'' 16
      [(Activity ''create_expense_report'' ''create'' ''expense_report'' ''EXP-'')
         \<lparr>ac_details := Some expense_details_sap\<rparr>,
       Activity ''submit_expense_report'' ''update'' ''expense_report'' ''EXP-'']"

lemma ROUTINE_19_sap_ok: "routine_ok ROUTINE_19_sap"
  by (auto simp: ROUTINE_19_sap_def routine_rules strings_sap)

definition ROUTINE_20_sap :: routine where
  "ROUTINE_20_sap = (Routine CONCUR_EXPENSE_sap [EXP_APPROVER_sap] ''weekly'' 9
      [(Activity ''approve_expense_report'' ''approve'' ''expense_report'' ''EXP-'')
         \<lparr>ac_details := Some expense_details_sap\<rparr>])
     \<lparr>ro_occurrences := (2, 5), ro_device_mix := [''desktop'', ''mobile'', ''mobile'']\<rparr>"

lemma ROUTINE_20_sap_ok: "routine_ok ROUTINE_20_sap"
  by (auto simp: ROUTINE_20_sap_def routine_rules strings_sap)

definition ROUTINE_21_sap :: routine where
  "ROUTINE_21_sap = (Routine CONCUR_EXPENSE_sap [FIN_AUDITOR_sap] ''weekly'' 14
      [(Activity ''audit_expense_report'' ''read'' ''expense_report'' ''EXP-'')
         \<lparr>ac_metadata := Some (entries
     [(''flagged'', pick [''none'', ''policy'', ''receipt_missing''])])\<rparr>])
     \<lparr>ro_occurrences := (3, 7)\<rparr>"

lemma ROUTINE_21_sap_ok: "routine_ok ROUTINE_21_sap"
  by (auto simp: ROUTINE_21_sap_def routine_rules strings_sap)

definition ROUTINE_22_sap :: routine where
  "ROUTINE_22_sap = (Routine CONCUR_TRAVEL_sap [TRAVEL_ARRANGER_sap] ''weekday'' 10
      [(Activity ''book_flight'' ''create'' ''trip'' ''TRIP-'')
         \<lparr>ac_details := Some trip_details_sap\<rparr>])
     \<lparr>ro_occurrences := (1, 3)\<rparr>"

lemma ROUTINE_22_sap_ok: "routine_ok ROUTINE_22_sap"
  by (auto simp: ROUTINE_22_sap_def routine_rules strings_sap)

definition ROUTINE_23_sap :: routine where
  "ROUTINE_23_sap = (Routine CONCUR_INVOICE_sap [AP_PROCESSOR_sap] ''weekday'' 13
      [(Activity ''process_vendor_invoice'' ''create'' ''vendor_invoice'' ''VINV-'')
         \<lparr>ac_details := Some (money 300 90000 ''USD'')\<rparr>,
       (Activity ''match_invoice_po'' ''update'' ''vendor_invoice'' ''VINV-'')
         \<lparr>ac_metadata := Some (entries
     [(''match'', pick [''2-way'', ''3-way''])])\<rparr>])
     \<lparr>ro_occurrences := (2, 6)\<rparr>"

lemma ROUTINE_23_sap_ok: "routine_ok ROUTINE_23_sap"
  by (auto simp: ROUTINE_23_sap_def routine_rules strings_sap)

definition ROUTINES_sap :: "routine list" where
  "ROUTINES_sap = [ROUTINE_1_sap, ROUTINE_2_sap, ROUTINE_3_sap, ROUTINE_4_sap, ROUTINE_5_sap, ROUTINE_6_sap, ROUTINE_7_sap, ROUTINE_8_sap, ROUTINE_9_sap, ROUTINE_10_sap, ROUTINE_11_sap, ROUTINE_12_sap, ROUTINE_13_sap, ROUTINE_14_sap, ROUTINE_15_sap, ROUTINE_16_sap, ROUTINE_17_sap, ROUTINE_18_sap, ROUTINE_19_sap, ROUTINE_20_sap, ROUTINE_21_sap, ROUTINE_22_sap, ROUTINE_23_sap]"

section \<open>Links\<close>

definition LINK_1_sap :: cross_app_link where
  "LINK_1_sap = (CrossAppLink ''travel_to_expense'' EXP_SUBMITTER_sap
      (Step CONCUR_TRAVEL_sap ''create_travel_request'' ''create'' ''trip'' ''TRIP-'' (Some trip_details_sap))
      (Step CONCUR_EXPENSE_sap ''create_expense_report'' ''create'' ''expense_report'' ''EXP-'' (Some expense_details_sap)))
     \<lparr>li_hour := 18, li_probability := 85 / 100\<rparr>"

lemma LINK_1_sap_ok: "link_ok LINK_1_sap"
  by (auto simp: LINK_1_sap_def link_rules strings_sap)

definition LINK_2_sap :: cross_app_link where
  "LINK_2_sap = (CrossAppLink ''requisition_to_po'' PROCUREMENT_SPEC_sap
      (Step ARIBA_BUYING_sap ''release_requisition'' ''approve'' ''requisition'' ''REQ-2026-'' (Some (money 500 60000 ''EUR'')))
      (Step S4_MATERIALS_sap ''create_purchase_order'' ''create'' ''purchase_order'' ''PO-45'' (Some po_details_sap)))
     \<lparr>li_hour := 18, li_probability := 85 / 100\<rparr>"

lemma LINK_2_sap_ok: "link_ok LINK_2_sap"
  by (auto simp: LINK_2_sap_def link_rules strings_sap)

definition LINK_3_sap :: cross_app_link where
  "LINK_3_sap = (CrossAppLink ''recruit_to_onboard'' RECRUITER_sap
      (Step SF_RECRUITING_sap ''mark_candidate_hired'' ''update'' ''candidate'' ''CAND-'' None)
      (Step SF_EMPLOYEE_CENTRAL_sap ''create_new_hire'' ''create'' ''employee_record'' ''EMP-'' None))
     \<lparr>li_hour := 19, li_probability := 7 / 10\<rparr>"

lemma LINK_3_sap_ok: "link_ok LINK_3_sap"
  by (auto simp: LINK_3_sap_def link_rules strings_sap)

definition LINK_4_sap :: cross_app_link where
  "LINK_4_sap = (CrossAppLink ''invoice_to_journal'' AP_PROCESSOR_sap
      (Step CONCUR_INVOICE_sap ''post_vendor_invoice'' ''update'' ''vendor_invoice'' ''VINV-'' (Some (money 300 90000 ''USD'')))
      (Step S4_FINANCE_sap ''post_journal_entry'' ''create'' ''journal_entry'' ''JE-'' (Some journal_details_sap)))
     \<lparr>li_hour := 19, li_probability := 8 / 10\<rparr>"

lemma LINK_4_sap_ok: "link_ok LINK_4_sap"
  by (auto simp: LINK_4_sap_def link_rules strings_sap)

definition CROSS_APP_sap :: "cross_app_link list" where
  "CROSS_APP_sap = [LINK_1_sap, LINK_2_sap, LINK_3_sap, LINK_4_sap]"

definition SHOP_sap :: shop where
  "SHOP_sap = \<lparr>sh_key = ''sap'', sh_tenant_id = ''globex-industries'',
     sh_display_name = ''Globex Industries (SAP shop)'', sh_routines = ROUTINES_sap, sh_cross_app = CROSS_APP_sap,
     sh_country = ''DE'', sh_region = ''HE''\<rparr>"

lemma shop_ok_sap: "shop_ok SHOP_sap"
proof -
  have t: "contract_tenant ''globex-industries''" by code_simp
  have r: "\<forall>r \<in> set ROUTINES_sap. routine_ok r"
    by (simp add: ROUTINES_sap_def ROUTINE_1_sap_ok ROUTINE_2_sap_ok ROUTINE_3_sap_ok ROUTINE_4_sap_ok ROUTINE_5_sap_ok ROUTINE_6_sap_ok ROUTINE_7_sap_ok ROUTINE_8_sap_ok ROUTINE_9_sap_ok ROUTINE_10_sap_ok ROUTINE_11_sap_ok ROUTINE_12_sap_ok ROUTINE_13_sap_ok ROUTINE_14_sap_ok ROUTINE_15_sap_ok ROUTINE_16_sap_ok ROUTINE_17_sap_ok ROUTINE_18_sap_ok ROUTINE_19_sap_ok ROUTINE_20_sap_ok ROUTINE_21_sap_ok ROUTINE_22_sap_ok ROUTINE_23_sap_ok)
  have l: "\<forall>l \<in> set CROSS_APP_sap. link_ok l"
    by (simp add: CROSS_APP_sap_def LINK_1_sap_ok LINK_2_sap_ok LINK_3_sap_ok LINK_4_sap_ok)
  show ?thesis using t r l by (simp add: shop_ok_def SHOP_sap_def)
qed

end
