(* ===== verification/ShopOracle.thy ===== *)
theory ShopOracle
  imports ShopSpec
begin

text \<open>
  \<open>samples/shops/oracle.py\<close>: a tenant on the Oracle products.
\<close>

section \<open>Modules, personas and payloads\<close>

definition HCM_CONN_oracle :: string where
  "HCM_CONN_oracle = ''oracle-fusion-hcm-connector''"

definition ERP_CONN_oracle :: string where
  "ERP_CONN_oracle = ''oracle-fusion-erp-connector''"

definition SCM_CONN_oracle :: string where
  "SCM_CONN_oracle = ''oracle-fusion-scm-connector''"

definition HCM_V_oracle :: string where
  "HCM_V_oracle = ''22.4.1''"

definition ERP_V_oracle :: string where
  "ERP_V_oracle = ''22.4.1''"

definition HCM_CORE_oracle :: app_module where
  "HCM_CORE_oracle = Module ''oracle_hcm_core'' ''hcm-prod'' HCM_CONN_oracle HCM_V_oracle ''Oracle Fusion HCM'' ''Core HR''"

definition HCM_PAYROLL_oracle :: app_module where
  "HCM_PAYROLL_oracle = Module ''oracle_hcm_payroll'' ''hcm-prod'' HCM_CONN_oracle HCM_V_oracle ''Oracle Fusion HCM'' ''Payroll''"

definition HCM_TALENT_oracle :: app_module where
  "HCM_TALENT_oracle = Module ''oracle_hcm_talent'' ''hcm-prod'' HCM_CONN_oracle HCM_V_oracle ''Oracle Fusion HCM'' ''Talent Management''"

definition HCM_ABSENCE_oracle :: app_module where
  "HCM_ABSENCE_oracle = Module ''oracle_hcm_absence'' ''hcm-prod'' HCM_CONN_oracle HCM_V_oracle ''Oracle Fusion HCM'' ''Absence Management''"

definition HCM_RECRUITING_oracle :: app_module where
  "HCM_RECRUITING_oracle = Module ''oracle_hcm_recruiting'' ''hcm-prod'' HCM_CONN_oracle HCM_V_oracle ''Oracle Fusion HCM'' ''Recruiting''"

definition ERP_GL_oracle :: app_module where
  "ERP_GL_oracle = Module ''oracle_erp_gl'' ''erp-prod'' ERP_CONN_oracle ERP_V_oracle ''Oracle Fusion ERP'' ''General Ledger''"

definition ERP_PAYABLES_oracle :: app_module where
  "ERP_PAYABLES_oracle = Module ''oracle_erp_ap'' ''erp-prod'' ERP_CONN_oracle ERP_V_oracle ''Oracle Fusion ERP'' ''Payables''"

definition ERP_RECEIVABLES_oracle :: app_module where
  "ERP_RECEIVABLES_oracle = Module ''oracle_erp_ar'' ''erp-prod'' ERP_CONN_oracle ERP_V_oracle ''Oracle Fusion ERP'' ''Receivables''"

definition ERP_EXPENSES_oracle :: app_module where
  "ERP_EXPENSES_oracle = Module ''oracle_erp_expenses'' ''erp-prod'' ERP_CONN_oracle ERP_V_oracle ''Oracle Fusion ERP'' ''Expenses''"

definition SCM_PROCUREMENT_oracle :: app_module where
  "SCM_PROCUREMENT_oracle = Module ''oracle_scm_procurement'' ''scm-prod'' SCM_CONN_oracle ''22.4.0'' ''Oracle Fusion SCM'' ''Procurement''"

definition SCM_INVENTORY_oracle :: app_module where
  "SCM_INVENTORY_oracle = Module ''oracle_scm_inventory'' ''scm-prod'' SCM_CONN_oracle ''22.4.0'' ''Oracle Fusion SCM'' ''Inventory''"

definition SCM_ORDER_MGMT_oracle :: app_module where
  "SCM_ORDER_MGMT_oracle = Module ''oracle_scm_order_mgmt'' ''scm-prod'' SCM_CONN_oracle ''22.4.0'' ''Oracle Fusion SCM'' ''Order Management''"

definition CX_SALES_oracle :: app_module where
  "CX_SALES_oracle = Module ''oracle_cx_sales'' ''cx-prod'' ''oracle-cx-connector'' ''21.2.0'' ''Oracle CX'' ''Sales''"

definition CX_SERVICE_oracle :: app_module where
  "CX_SERVICE_oracle = Module ''oracle_cx_service'' ''cx-prod'' ''oracle-cx-connector'' ''21.2.0'' ''Oracle CX'' ''Service''"

definition NS_FINANCIALS_oracle :: app_module where
  "NS_FINANCIALS_oracle = Module ''oracle_netsuite_financials'' ''ns-prod'' ''netsuite-suitetalk-connector'' ''2024.1'' ''Oracle NetSuite'' ''Financials''"

definition NS_ORDER_TO_CASH_oracle :: app_module where
  "NS_ORDER_TO_CASH_oracle = Module ''oracle_netsuite_o2c'' ''ns-prod'' ''netsuite-suitetalk-connector'' ''2024.1'' ''Oracle NetSuite'' ''Order-to-Cash''"

definition EID_oracle :: string where
  "EID_oracle = ''employee_id''"

definition HR_SPECIALIST_oracle :: persona where
  "HR_SPECIALIST_oracle = Persona ''300000042118'' ''Ana Duarte'' [''hr_specialist''] EID_oracle"

definition PAYROLL_MANAGER_oracle :: persona where
  "PAYROLL_MANAGER_oracle = Persona ''300000042205'' ''Victor Osei'' [''payroll_manager''] EID_oracle"

definition PEOPLE_MANAGER_oracle :: persona where
  "PEOPLE_MANAGER_oracle = Persona ''300000042330'' ''Sara Lindqvist'' [''people_manager''] EID_oracle"

definition EMPLOYEE_oracle :: persona where
  "EMPLOYEE_oracle = Persona ''300000042471'' ''Hiro Tanaka'' [''employee''] EID_oracle"

definition ORC_RECRUITER_oracle :: persona where
  "ORC_RECRUITER_oracle = Persona ''300000042588'' ''Farah Nasser'' [''recruiter''] EID_oracle"

definition GL_ACCOUNTANT_oracle :: persona where
  "GL_ACCOUNTANT_oracle = Persona ''300000051004'' ''Paul Nguyen'' [''gl_accountant''] EID_oracle"

definition AP_SPECIALIST_oracle :: persona where
  "AP_SPECIALIST_oracle = Persona ''300000051188'' ''Rita Gomez'' [''ap_specialist''] EID_oracle"

definition AR_ANALYST_oracle :: persona where
  "AR_ANALYST_oracle = Persona ''300000051245'' ''Kwame Mensah'' [''ar_analyst''] EID_oracle"

definition BUYER_oracle :: persona where
  "BUYER_oracle = Persona ''300000061077'' ''Elena Volkova'' [''buyer''] EID_oracle"

definition WAREHOUSE_ANALYST_oracle :: persona where
  "WAREHOUSE_ANALYST_oracle = Persona ''300000061152'' ''Tariq Aziz'' [''inventory_analyst''] EID_oracle"

definition ORDER_MANAGER_oracle :: persona where
  "ORDER_MANAGER_oracle = Persona ''300000061390'' ''Julia Fernandez'' [''order_manager''] EID_oracle"

definition SALES_REP_oracle :: persona where
  "SALES_REP_oracle = Persona ''gwen.park@umbrella.example'' ''Gwen Park'' [''sales_rep''] ''email''"

definition SERVICE_AGENT_oracle :: persona where
  "SERVICE_AGENT_oracle = Persona ''omar.saleh@umbrella.example'' ''Omar Saleh'' [''service_agent''] ''email''"

definition CONTROLLER_oracle :: persona where
  "CONTROLLER_oracle = Persona ''300000071011'' ''Maya Kaplan'' [''controller''] EID_oracle"

definition BILLING_SPECIALIST_oracle :: persona where
  "BILLING_SPECIALIST_oracle = Persona ''300000071204'' ''Leon Wright'' [''billing_specialist''] EID_oracle"

definition ACCT_PERIODS_oracle :: "string list" where
  "ACCT_PERIODS_oracle = [''APR-2026'', ''MAY-2026'', ''JUN-2026'']"

definition KEY_SUPPLIERS_oracle :: "string list" where
  "KEY_SUPPLIERS_oracle = [''SUP-70012'', ''SUP-70045'', ''SUP-70081'']"

definition OPEN_ORDERS_oracle :: "string list" where
  "OPEN_ORDERS_oracle = [''SO-880122'', ''SO-880155'', ''SO-880190'', ''SO-880210'']"

definition journal_details_oracle :: details where
  "journal_details_oracle = merged (money 4000 850000 ''USD'') (entries
     [(''ledger'', yield (JStr ''US Primary'')),
      (''period'', pick ACCT_PERIODS_oracle),
      (''source'', pick [''Manual'', ''Payables'', ''Receivables'', ''Assets''])])"

lemma returns_journal_details_oracle [simp, intro]: "returns journal_details_oracle"
  by (auto simp: journal_details_oracle_def ACCT_PERIODS_oracle_def)

definition invoice_details_oracle :: details where
  "invoice_details_oracle = merged (money 250 120000 ''USD'') (entries
     [(''terms'', pick [''Net 30'', ''Net 45'', ''Net 60'']),
      (''supplier'', pick KEY_SUPPLIERS_oracle)])"

lemma returns_invoice_details_oracle [simp, intro]: "returns invoice_details_oracle"
  by (auto simp: invoice_details_oracle_def KEY_SUPPLIERS_oracle_def)

definition payroll_details_oracle :: details where
  "payroll_details_oracle = merged (entries
     [(''pay_group'', pick [''US-Salaried'', ''US-Hourly'', ''UK-Salaried'']),
      (''employees'', int_between 80 1400)]) (money 400000 6500000 ''USD'')"

lemma returns_payroll_details_oracle [simp, intro]: "returns payroll_details_oracle"
  by (auto simp: payroll_details_oracle_def)

definition expense_details_oracle :: details where
  "expense_details_oracle = merged (money 40 3800 ''USD'') (entries
     [(''type'', pick [''airfare'', ''lodging'', ''meals'', ''mileage'']),
      (''cost_center'', pick [''CC-1001'', ''CC-1002'', ''CC-2005''])])"

lemma returns_expense_details_oracle [simp, intro]: "returns expense_details_oracle"
  by (auto simp: expense_details_oracle_def)

definition po_details_oracle :: details where
  "po_details_oracle = merged (money 800 320000 ''USD'') (entries
     [(''supplier'', pick KEY_SUPPLIERS_oracle),
      (''category'', pick [''IT'', ''Facilities'', ''Raw Materials'', ''Services''])])"

lemma returns_po_details_oracle [simp, intro]: "returns po_details_oracle"
  by (auto simp: po_details_oracle_def KEY_SUPPLIERS_oracle_def)

definition order_details_oracle :: details where
  "order_details_oracle = merged (money 1200 260000 ''USD'') (entries
     [(''channel'', pick [''direct'', ''partner'', ''web'']),
      (''ship_from'', pick [''WH-EAST'', ''WH-WEST'', ''WH-CENTRAL''])])"

lemma returns_order_details_oracle [simp, intro]: "returns order_details_oracle"
  by (auto simp: order_details_oracle_def)

section \<open>Routines\<close>

lemmas strings_oracle = HCM_CONN_oracle_def
  ERP_CONN_oracle_def
  SCM_CONN_oracle_def
  HCM_V_oracle_def
  ERP_V_oracle_def
  EID_oracle_def
  ACCT_PERIODS_oracle_def
  KEY_SUPPLIERS_oracle_def
  OPEN_ORDERS_oracle_def

lemma modules_oracle [simp]:
  "module_ok HCM_CORE_oracle"
  "module_ok HCM_PAYROLL_oracle"
  "module_ok HCM_TALENT_oracle"
  "module_ok HCM_ABSENCE_oracle"
  "module_ok HCM_RECRUITING_oracle"
  "module_ok ERP_GL_oracle"
  "module_ok ERP_PAYABLES_oracle"
  "module_ok ERP_RECEIVABLES_oracle"
  "module_ok ERP_EXPENSES_oracle"
  "module_ok SCM_PROCUREMENT_oracle"
  "module_ok SCM_INVENTORY_oracle"
  "module_ok SCM_ORDER_MGMT_oracle"
  "module_ok CX_SALES_oracle"
  "module_ok CX_SERVICE_oracle"
  "module_ok NS_FINANCIALS_oracle"
  "module_ok NS_ORDER_TO_CASH_oracle"
  by (simp_all add: module_ok_def Module_def strings_oracle
    HCM_CORE_oracle_def HCM_PAYROLL_oracle_def HCM_TALENT_oracle_def HCM_ABSENCE_oracle_def HCM_RECRUITING_oracle_def ERP_GL_oracle_def ERP_PAYABLES_oracle_def ERP_RECEIVABLES_oracle_def ERP_EXPENSES_oracle_def SCM_PROCUREMENT_oracle_def SCM_INVENTORY_oracle_def SCM_ORDER_MGMT_oracle_def CX_SALES_oracle_def CX_SERVICE_oracle_def NS_FINANCIALS_oracle_def NS_ORDER_TO_CASH_oracle_def)

lemma personas_oracle [simp]:
  "persona_ok HR_SPECIALIST_oracle"
  "persona_ok PAYROLL_MANAGER_oracle"
  "persona_ok PEOPLE_MANAGER_oracle"
  "persona_ok EMPLOYEE_oracle"
  "persona_ok ORC_RECRUITER_oracle"
  "persona_ok GL_ACCOUNTANT_oracle"
  "persona_ok AP_SPECIALIST_oracle"
  "persona_ok AR_ANALYST_oracle"
  "persona_ok BUYER_oracle"
  "persona_ok WAREHOUSE_ANALYST_oracle"
  "persona_ok ORDER_MANAGER_oracle"
  "persona_ok SALES_REP_oracle"
  "persona_ok SERVICE_AGENT_oracle"
  "persona_ok CONTROLLER_oracle"
  "persona_ok BILLING_SPECIALIST_oracle"
  by (simp_all add: persona_ok_def Persona_def strings_oracle user_id_types_def
    HR_SPECIALIST_oracle_def PAYROLL_MANAGER_oracle_def PEOPLE_MANAGER_oracle_def EMPLOYEE_oracle_def ORC_RECRUITER_oracle_def GL_ACCOUNTANT_oracle_def AP_SPECIALIST_oracle_def AR_ANALYST_oracle_def BUYER_oracle_def WAREHOUSE_ANALYST_oracle_def ORDER_MANAGER_oracle_def SALES_REP_oracle_def SERVICE_AGENT_oracle_def CONTROLLER_oracle_def BILLING_SPECIALIST_oracle_def)

definition ROUTINE_1_oracle :: routine where
  "ROUTINE_1_oracle = (Routine HCM_CORE_oracle [HR_SPECIALIST_oracle] ''weekday'' 9
      [Activity ''update_worker_assignment'' ''update'' ''worker'' ''WKR-'',
       (Activity ''process_promotion'' ''update'' ''worker'' ''WKR-'')
         \<lparr>ac_metadata := Some (entries
     [(''grade_to'', pick [''G6'', ''G7'', ''M2''])])\<rparr>])
     \<lparr>ro_occurrences := (1, 4)\<rparr>"

lemma ROUTINE_1_oracle_ok: "routine_ok ROUTINE_1_oracle"
  by (auto simp: ROUTINE_1_oracle_def routine_rules strings_oracle)

definition ROUTINE_2_oracle :: routine where
  "ROUTINE_2_oracle = Routine HCM_PAYROLL_oracle [PAYROLL_MANAGER_oracle] ''monthly_end'' 8
      [(Activity ''run_payroll'' ''create'' ''payroll_run'' ''PAY-'')
         \<lparr>ac_details := Some payroll_details_oracle\<rparr>,
       Activity ''verify_payroll'' ''approve'' ''payroll_run'' ''PAY-'']"

lemma ROUTINE_2_oracle_ok: "routine_ok ROUTINE_2_oracle"
  by (auto simp: ROUTINE_2_oracle_def routine_rules strings_oracle)

definition ROUTINE_3_oracle :: routine where
  "ROUTINE_3_oracle = Routine HCM_TALENT_oracle [PEOPLE_MANAGER_oracle] ''weekly'' 15
      [Activity ''complete_check_in'' ''create'' ''check_in'' ''CHK-'',
       (Activity ''create_performance_goal'' ''create'' ''goal'' ''GOAL-'')
         \<lparr>ac_metadata := Some (entries
     [(''weight'', int_between 10 40)])\<rparr>]"

lemma ROUTINE_3_oracle_ok: "routine_ok ROUTINE_3_oracle"
  by (auto simp: ROUTINE_3_oracle_def routine_rules strings_oracle)

definition ROUTINE_4_oracle :: routine where
  "ROUTINE_4_oracle = Routine HCM_ABSENCE_oracle [EMPLOYEE_oracle] ''weekly'' 8
      [(Activity ''record_absence'' ''create'' ''absence'' ''ABS-'')
         \<lparr>ac_details := Some (entries
     [(''type'', pick [''vacation'', ''sick'', ''personal'']),
      (''days'', int_between 1 8)])\<rparr>]"

lemma ROUTINE_4_oracle_ok: "routine_ok ROUTINE_4_oracle"
  by (auto simp: ROUTINE_4_oracle_def routine_rules strings_oracle)

definition ROUTINE_5_oracle :: routine where
  "ROUTINE_5_oracle = (Routine HCM_ABSENCE_oracle [PEOPLE_MANAGER_oracle] ''weekly'' 9
      [Activity ''approve_absence'' ''approve'' ''absence'' ''ABS-''])
     \<lparr>ro_occurrences := (2, 5), ro_device_mix := [''desktop'', ''mobile'']\<rparr>"

lemma ROUTINE_5_oracle_ok: "routine_ok ROUTINE_5_oracle"
  by (auto simp: ROUTINE_5_oracle_def routine_rules strings_oracle)

definition ROUTINE_6_oracle :: routine where
  "ROUTINE_6_oracle = (Routine HCM_RECRUITING_oracle [ORC_RECRUITER_oracle] ''weekday'' 10
      [(Activity ''move_candidate'' ''update'' ''candidate'' ''CAND-'')
         \<lparr>ac_metadata := Some (entries
     [(''phase'', pick [''screen'', ''interview'', ''offer''])])\<rparr>,
       Activity ''post_requisition'' ''create'' ''requisition'' ''HREQ-''])
     \<lparr>ro_occurrences := (1, 4)\<rparr>"

lemma ROUTINE_6_oracle_ok: "routine_ok ROUTINE_6_oracle"
  by (auto simp: ROUTINE_6_oracle_def routine_rules strings_oracle)

definition ROUTINE_7_oracle :: routine where
  "ROUTINE_7_oracle = (Routine ERP_GL_oracle [GL_ACCOUNTANT_oracle] ''weekday'' 9
      [(Activity ''create_journal'' ''create'' ''journal'' ''JRN-'')
         \<lparr>ac_details := Some journal_details_oracle\<rparr>,
       Activity ''post_journal'' ''update'' ''journal'' ''JRN-''])
     \<lparr>ro_occurrences := (2, 7)\<rparr>"

lemma ROUTINE_7_oracle_ok: "routine_ok ROUTINE_7_oracle"
  by (auto simp: ROUTINE_7_oracle_def routine_rules strings_oracle)

definition ROUTINE_8_oracle :: routine where
  "ROUTINE_8_oracle = (Routine ERP_GL_oracle [GL_ACCOUNTANT_oracle, CONTROLLER_oracle] ''monthly_end'' 12
      [(Activity ''close_period'' ''update'' ''accounting_period'' ''PERIOD-'')
         \<lparr>ac_id_pool := Some ACCT_PERIODS_oracle, ac_metadata := Some (entries
     [(''status'', pick [''open'', ''closed'', ''adjusting''])])\<rparr>])
     \<lparr>ro_occurrences := (1, 3)\<rparr>"

lemma ROUTINE_8_oracle_ok: "routine_ok ROUTINE_8_oracle"
  by (auto simp: ROUTINE_8_oracle_def routine_rules strings_oracle)

definition ROUTINE_9_oracle :: routine where
  "ROUTINE_9_oracle = (Routine ERP_PAYABLES_oracle [AP_SPECIALIST_oracle] ''weekday'' 10
      [(Activity ''enter_invoice'' ''create'' ''invoice'' ''AP-'')
         \<lparr>ac_details := Some invoice_details_oracle\<rparr>,
       (Activity ''validate_invoice'' ''update'' ''invoice'' ''AP-'')
         \<lparr>ac_metadata := Some (entries
     [(''hold'', pick [''none'', ''price'', ''quantity''])])\<rparr>])
     \<lparr>ro_occurrences := (3, 9)\<rparr>"

lemma ROUTINE_9_oracle_ok: "routine_ok ROUTINE_9_oracle"
  by (auto simp: ROUTINE_9_oracle_def routine_rules strings_oracle)

definition ROUTINE_10_oracle :: routine where
  "ROUTINE_10_oracle = (Routine ERP_RECEIVABLES_oracle [AR_ANALYST_oracle] ''weekday'' 11
      [(Activity ''create_receipt'' ''create'' ''receipt'' ''RCT-'')
         \<lparr>ac_details := Some (money 300 180000 ''USD'')\<rparr>,
       Activity ''apply_receipt'' ''update'' ''receipt'' ''RCT-''])
     \<lparr>ro_occurrences := (2, 6)\<rparr>"

lemma ROUTINE_10_oracle_ok: "routine_ok ROUTINE_10_oracle"
  by (auto simp: ROUTINE_10_oracle_def routine_rules strings_oracle)

definition ROUTINE_11_oracle :: routine where
  "ROUTINE_11_oracle = Routine ERP_EXPENSES_oracle [EMPLOYEE_oracle] ''monthly_end'' 16
      [(Activity ''create_expense_report'' ''create'' ''expense_report'' ''EXP-'')
         \<lparr>ac_details := Some expense_details_oracle\<rparr>,
       Activity ''submit_expense_report'' ''update'' ''expense_report'' ''EXP-'']"

lemma ROUTINE_11_oracle_ok: "routine_ok ROUTINE_11_oracle"
  by (auto simp: ROUTINE_11_oracle_def routine_rules strings_oracle)

definition ROUTINE_12_oracle :: routine where
  "ROUTINE_12_oracle = (Routine SCM_PROCUREMENT_oracle [BUYER_oracle] ''weekday'' 9
      [(Activity ''create_purchase_order'' ''create'' ''purchase_order'' ''SCMPO-'')
         \<lparr>ac_details := Some po_details_oracle\<rparr>,
       Activity ''approve_po'' ''approve'' ''purchase_order'' ''SCMPO-''])
     \<lparr>ro_occurrences := (2, 6), ro_device_mix := [''desktop'', ''mobile'']\<rparr>"

lemma ROUTINE_12_oracle_ok: "routine_ok ROUTINE_12_oracle"
  by (auto simp: ROUTINE_12_oracle_def routine_rules strings_oracle)

definition ROUTINE_13_oracle :: routine where
  "ROUTINE_13_oracle = (Routine SCM_INVENTORY_oracle [WAREHOUSE_ANALYST_oracle] ''weekday'' 8
      [Activity ''record_receipt'' ''create'' ''inventory_transaction'' ''INVTXN-'',
       (Activity ''cycle_count'' ''update'' ''inventory_transaction'' ''INVTXN-'')
         \<lparr>ac_metadata := Some (entries
     [(''variance_pct'', gmap (rounded 2) (uniform (- 3) 3))])\<rparr>])
     \<lparr>ro_occurrences := (3, 8)\<rparr>"

lemma ROUTINE_13_oracle_ok: "routine_ok ROUTINE_13_oracle"
  by (auto simp: ROUTINE_13_oracle_def routine_rules strings_oracle)

definition ROUTINE_14_oracle :: routine where
  "ROUTINE_14_oracle = (Routine SCM_ORDER_MGMT_oracle [ORDER_MANAGER_oracle] ''weekday'' 10
      [(Activity ''create_sales_order'' ''create'' ''sales_order'' ''SO-'')
         \<lparr>ac_id_pool := Some OPEN_ORDERS_oracle, ac_details := Some order_details_oracle\<rparr>,
       (Activity ''book_order'' ''update'' ''sales_order'' ''SO-'')
         \<lparr>ac_id_pool := Some OPEN_ORDERS_oracle\<rparr>,
       Activity ''schedule_shipment'' ''update'' ''shipment'' ''SHP-''])
     \<lparr>ro_occurrences := (2, 5)\<rparr>"

lemma ROUTINE_14_oracle_ok: "routine_ok ROUTINE_14_oracle"
  by (auto simp: ROUTINE_14_oracle_def routine_rules strings_oracle)

definition ROUTINE_15_oracle :: routine where
  "ROUTINE_15_oracle = (Routine CX_SALES_oracle [SALES_REP_oracle] ''weekday'' 9
      [(Activity ''update_opportunity'' ''update'' ''opportunity'' ''CXOPP-'')
         \<lparr>ac_details := Some (merged (money 5000 500000 ''USD'') (entries
     [(''stage'', pick [''Qualify'', ''Propose'', ''Win'', ''Lose''])]))\<rparr>,
       Activity ''create_lead'' ''create'' ''lead'' ''CXLEAD-''])
     \<lparr>ro_occurrences := (2, 6), ro_device_mix := [''desktop'', ''mobile'']\<rparr>"

lemma ROUTINE_15_oracle_ok: "routine_ok ROUTINE_15_oracle"
  by (auto simp: ROUTINE_15_oracle_def routine_rules strings_oracle)

definition ROUTINE_16_oracle :: routine where
  "ROUTINE_16_oracle = (Routine CX_SERVICE_oracle [SERVICE_AGENT_oracle] ''weekday'' 10
      [(Activity ''create_service_request'' ''create'' ''service_request'' ''SR-'')
         \<lparr>ac_metadata := Some (entries
     [(''severity'', pick [''1'', ''2'', ''3'', ''4''])])\<rparr>,
       Activity ''resolve_service_request'' ''update'' ''service_request'' ''SR-''])
     \<lparr>ro_occurrences := (4, 10)\<rparr>"

lemma ROUTINE_16_oracle_ok: "routine_ok ROUTINE_16_oracle"
  by (auto simp: ROUTINE_16_oracle_def routine_rules strings_oracle)

definition ROUTINE_17_oracle :: routine where
  "ROUTINE_17_oracle = (Routine NS_FINANCIALS_oracle [CONTROLLER_oracle] ''monthly_end'' 13
      [(Activity ''close_books'' ''update'' ''accounting_period'' ''NSPERIOD-'')
         \<lparr>ac_id_pool := Some ACCT_PERIODS_oracle, ac_metadata := Some (entries
     [(''subsidiary'', pick [''US'', ''UK'', ''APAC''])])\<rparr>])
     \<lparr>ro_occurrences := (1, 2)\<rparr>"

lemma ROUTINE_17_oracle_ok: "routine_ok ROUTINE_17_oracle"
  by (auto simp: ROUTINE_17_oracle_def routine_rules strings_oracle)

definition ROUTINE_18_oracle :: routine where
  "ROUTINE_18_oracle = (Routine NS_ORDER_TO_CASH_oracle [BILLING_SPECIALIST_oracle] ''weekday'' 11
      [(Activity ''create_invoice'' ''create'' ''invoice'' ''NSINV-'')
         \<lparr>ac_details := Some (money 500 240000 ''USD'')\<rparr>,
       Activity ''apply_payment'' ''update'' ''payment'' ''NSPMT-''])
     \<lparr>ro_occurrences := (2, 7)\<rparr>"

lemma ROUTINE_18_oracle_ok: "routine_ok ROUTINE_18_oracle"
  by (auto simp: ROUTINE_18_oracle_def routine_rules strings_oracle)

definition ROUTINES_oracle :: "routine list" where
  "ROUTINES_oracle = [ROUTINE_1_oracle, ROUTINE_2_oracle, ROUTINE_3_oracle, ROUTINE_4_oracle, ROUTINE_5_oracle, ROUTINE_6_oracle, ROUTINE_7_oracle, ROUTINE_8_oracle, ROUTINE_9_oracle, ROUTINE_10_oracle, ROUTINE_11_oracle, ROUTINE_12_oracle, ROUTINE_13_oracle, ROUTINE_14_oracle, ROUTINE_15_oracle, ROUTINE_16_oracle, ROUTINE_17_oracle, ROUTINE_18_oracle]"

section \<open>Links\<close>

definition LINK_1_oracle :: cross_app_link where
  "LINK_1_oracle = (CrossAppLink ''receivable_to_netsuite'' AR_ANALYST_oracle
      (Step ERP_RECEIVABLES_oracle ''invoice_customer'' ''create'' ''receipt'' ''RCT-'' (Some (money 500 200000 ''USD'')))
      (Step NS_ORDER_TO_CASH_oracle ''create_invoice'' ''create'' ''invoice'' ''NSINV-'' (Some (money 500 240000 ''USD''))))
     \<lparr>li_hour := 18, li_probability := 7 / 10\<rparr>"

lemma LINK_1_oracle_ok: "link_ok LINK_1_oracle"
  by (auto simp: LINK_1_oracle_def link_rules strings_oracle)

definition LINK_2_oracle :: cross_app_link where
  "LINK_2_oracle = (CrossAppLink ''gl_to_netsuite_close'' GL_ACCOUNTANT_oracle
      (Step ERP_GL_oracle ''finalize_period_journal'' ''update'' ''journal'' ''JRN-'' (Some journal_details_oracle))
      (Step NS_FINANCIALS_oracle ''close_books'' ''update'' ''accounting_period'' ''NSPERIOD-'' None))
     \<lparr>li_hour := 18, li_probability := 7 / 10\<rparr>"

lemma LINK_2_oracle_ok: "link_ok LINK_2_oracle"
  by (auto simp: LINK_2_oracle_def link_rules strings_oracle)

definition LINK_3_oracle :: cross_app_link where
  "LINK_3_oracle = (CrossAppLink ''absence_to_talent'' PEOPLE_MANAGER_oracle
      (Step HCM_ABSENCE_oracle ''close_absence_case'' ''update'' ''absence'' ''ABS-'' None)
      (Step HCM_TALENT_oracle ''log_talent_check_in'' ''create'' ''check_in'' ''CHK-'' None))
     \<lparr>li_hour := 19, li_probability := 75 / 100\<rparr>"

lemma LINK_3_oracle_ok: "link_ok LINK_3_oracle"
  by (auto simp: LINK_3_oracle_def link_rules strings_oracle)

definition LINK_4_oracle :: cross_app_link where
  "LINK_4_oracle = (CrossAppLink ''opportunity_to_order'' SALES_REP_oracle
      (Step CX_SALES_oracle ''win_opportunity'' ''update'' ''opportunity'' ''CXOPP-'' None)
      (Step SCM_ORDER_MGMT_oracle ''create_sales_order'' ''create'' ''sales_order'' ''SO-'' (Some order_details_oracle)))
     \<lparr>li_hour := 19, li_probability := 65 / 100\<rparr>"

lemma LINK_4_oracle_ok: "link_ok LINK_4_oracle"
  by (auto simp: LINK_4_oracle_def link_rules strings_oracle)

definition CROSS_APP_oracle :: "cross_app_link list" where
  "CROSS_APP_oracle = [LINK_1_oracle, LINK_2_oracle, LINK_3_oracle, LINK_4_oracle]"

definition SHOP_oracle :: shop where
  "SHOP_oracle = \<lparr>sh_key = ''oracle'', sh_tenant_id = ''umbrella-holdings'',
     sh_display_name = ''Umbrella Holdings (Oracle shop)'', sh_routines = ROUTINES_oracle, sh_cross_app = CROSS_APP_oracle,
     sh_country = ''US'', sh_region = ''TX''\<rparr>"

lemma shop_ok_oracle: "shop_ok SHOP_oracle"
proof -
  have t: "contract_tenant ''umbrella-holdings''" by code_simp
  have r: "\<forall>r \<in> set ROUTINES_oracle. routine_ok r"
    by (simp add: ROUTINES_oracle_def ROUTINE_1_oracle_ok ROUTINE_2_oracle_ok ROUTINE_3_oracle_ok ROUTINE_4_oracle_ok ROUTINE_5_oracle_ok ROUTINE_6_oracle_ok ROUTINE_7_oracle_ok ROUTINE_8_oracle_ok ROUTINE_9_oracle_ok ROUTINE_10_oracle_ok ROUTINE_11_oracle_ok ROUTINE_12_oracle_ok ROUTINE_13_oracle_ok ROUTINE_14_oracle_ok ROUTINE_15_oracle_ok ROUTINE_16_oracle_ok ROUTINE_17_oracle_ok ROUTINE_18_oracle_ok)
  have l: "\<forall>l \<in> set CROSS_APP_oracle. link_ok l"
    by (simp add: CROSS_APP_oracle_def LINK_1_oracle_ok LINK_2_oracle_ok LINK_3_oracle_ok LINK_4_oracle_ok)
  show ?thesis using t r l by (simp add: shop_ok_def SHOP_oracle_def)
qed

end
