(* ===== verification/ShopSalesforce.thy ===== *)
theory ShopSalesforce
  imports ShopSpec
begin

text \<open>
  \<open>samples/shops/salesforce.py\<close>: a tenant on the Salesforce products.
\<close>

section \<open>Modules, personas and payloads\<close>

definition SALES_CONN_salesforce :: string where
  "SALES_CONN_salesforce = ''salesforce-platform-events''"

definition VERSION_salesforce :: string where
  "VERSION_salesforce = ''4.2.0''"

definition SALES_LEADS_salesforce :: app_module where
  "SALES_LEADS_salesforce = Module ''sfdc_sales_leads'' ''sfdc-sales-prod'' SALES_CONN_salesforce VERSION_salesforce ''Salesforce Sales Cloud'' ''Leads''"

definition SALES_OPPORTUNITIES_salesforce :: app_module where
  "SALES_OPPORTUNITIES_salesforce = Module ''sfdc_sales_opportunities'' ''sfdc-sales-prod'' SALES_CONN_salesforce VERSION_salesforce ''Salesforce Sales Cloud'' ''Opportunities''"

definition SALES_FORECASTING_salesforce :: app_module where
  "SALES_FORECASTING_salesforce = Module ''sfdc_sales_forecasting'' ''sfdc-sales-prod'' SALES_CONN_salesforce VERSION_salesforce ''Salesforce Sales Cloud'' ''Forecasting''"

definition SALES_ACCOUNTS_salesforce :: app_module where
  "SALES_ACCOUNTS_salesforce = Module ''sfdc_sales_accounts'' ''sfdc-sales-prod'' SALES_CONN_salesforce VERSION_salesforce ''Salesforce Sales Cloud'' ''Accounts & Contacts''"

definition SERVICE_CASES_salesforce :: app_module where
  "SERVICE_CASES_salesforce = Module ''sfdc_service_cases'' ''sfdc-service-prod'' SALES_CONN_salesforce VERSION_salesforce ''Salesforce Service Cloud'' ''Cases''"

definition SERVICE_KNOWLEDGE_salesforce :: app_module where
  "SERVICE_KNOWLEDGE_salesforce = Module ''sfdc_service_knowledge'' ''sfdc-service-prod'' SALES_CONN_salesforce VERSION_salesforce ''Salesforce Service Cloud'' ''Knowledge''"

definition SERVICE_OMNI_salesforce :: app_module where
  "SERVICE_OMNI_salesforce = Module ''sfdc_service_omni'' ''sfdc-service-prod'' SALES_CONN_salesforce VERSION_salesforce ''Salesforce Service Cloud'' ''Omni-Channel''"

definition MKT_JOURNEYS_salesforce :: app_module where
  "MKT_JOURNEYS_salesforce = Module ''sfdc_marketing_journeys'' ''sfmc-prod'' ''marketing-cloud-connector'' ''2.9.1'' ''Salesforce Marketing Cloud'' ''Journeys''"

definition MKT_CAMPAIGNS_salesforce :: app_module where
  "MKT_CAMPAIGNS_salesforce = Module ''sfdc_marketing_campaigns'' ''sfmc-prod'' ''marketing-cloud-connector'' ''2.9.1'' ''Salesforce Marketing Cloud'' ''Campaigns''"

definition CPQ_QUOTES_salesforce :: app_module where
  "CPQ_QUOTES_salesforce = Module ''sfdc_cpq_quotes'' ''sfdc-cpq-prod'' SALES_CONN_salesforce VERSION_salesforce ''Salesforce CPQ'' ''Quotes''"

definition CPQ_APPROVALS_salesforce :: app_module where
  "CPQ_APPROVALS_salesforce = Module ''sfdc_cpq_approvals'' ''sfdc-cpq-prod'' SALES_CONN_salesforce VERSION_salesforce ''Salesforce CPQ'' ''Approvals''"

definition EXP_PARTNER_salesforce :: app_module where
  "EXP_PARTNER_salesforce = Module ''sfdc_experience_partner'' ''sfdc-exp-prod'' SALES_CONN_salesforce VERSION_salesforce ''Salesforce Experience Cloud'' ''Partner Portal''"

definition EXP_CUSTOMER_salesforce :: app_module where
  "EXP_CUSTOMER_salesforce = Module ''sfdc_experience_customer'' ''sfdc-exp-prod'' SALES_CONN_salesforce VERSION_salesforce ''Salesforce Experience Cloud'' ''Customer Community''"

definition SSO_salesforce :: string where
  "SSO_salesforce = ''sso_subject''"

definition SDR_salesforce :: persona where
  "SDR_salesforce = Persona ''sso|initech|a1b2c3'' ''Priya Kapoor'' [''sales_development_rep''] SSO_salesforce"

definition AE_ONE_salesforce :: persona where
  "AE_ONE_salesforce = Persona ''sso|initech|d4e5f6'' ''Jordan Blake'' [''account_executive''] SSO_salesforce"

definition AE_TWO_salesforce :: persona where
  "AE_TWO_salesforce = Persona ''sso|initech|g7h8i9'' ''Wei Zhang'' [''account_executive''] SSO_salesforce"

definition SALES_MANAGER_salesforce :: persona where
  "SALES_MANAGER_salesforce = Persona ''sso|initech|j1k2l3'' ''Rosa Iglesias'' [''sales_manager''] SSO_salesforce"

definition SALES_OPS_salesforce :: persona where
  "SALES_OPS_salesforce = Persona ''sso|initech|m4n5o6'' ''Ben Carter'' [''sales_ops''] SSO_salesforce"

definition SUPPORT_AGENT_ONE_salesforce :: persona where
  "SUPPORT_AGENT_ONE_salesforce = Persona ''sso|initech|p7q8r9'' ''Amara Diallo'' [''support_agent''] SSO_salesforce"

definition SUPPORT_AGENT_TWO_salesforce :: persona where
  "SUPPORT_AGENT_TWO_salesforce = Persona ''sso|initech|s1t2u3'' ''Nikhil Rao'' [''support_agent''] SSO_salesforce"

definition SUPPORT_LEAD_salesforce :: persona where
  "SUPPORT_LEAD_salesforce = Persona ''sso|initech|v4w5x6'' ''Chloe Martin'' [''support_team_lead''] SSO_salesforce"

definition KNOWLEDGE_MANAGER_salesforce :: persona where
  "KNOWLEDGE_MANAGER_salesforce = Persona ''sso|initech|y7z8a9'' ''Dmitri Sokolov'' [''knowledge_manager''] SSO_salesforce"

definition MKT_SPECIALIST_salesforce :: persona where
  "MKT_SPECIALIST_salesforce = Persona ''sso|initech|b1c2d3'' ''Yara Haddad'' [''marketing_specialist''] SSO_salesforce"

definition CAMPAIGN_MANAGER_salesforce :: persona where
  "CAMPAIGN_MANAGER_salesforce = Persona ''sso|initech|e4f5g6'' (''Liam O'' @ [CHR 0x27] @ ''Brien'') [''campaign_manager''] SSO_salesforce"

definition DEAL_DESK_ANALYST_salesforce :: persona where
  "DEAL_DESK_ANALYST_salesforce = Persona ''sso|initech|h7i8j9'' ''Sana Qureshi'' [''deal_desk_analyst''] SSO_salesforce"

definition SALES_ENGINEER_salesforce :: persona where
  "SALES_ENGINEER_salesforce = Persona ''sso|initech|k1l2m3'' ''Erik Larsson'' [''sales_engineer''] SSO_salesforce"

definition DEAL_DESK_MANAGER_salesforce :: persona where
  "DEAL_DESK_MANAGER_salesforce = Persona ''sso|initech|n4o5p6'' ''Grace Kim'' [''deal_desk_manager''] SSO_salesforce"

definition PARTNER_USER_salesforce :: persona where
  "PARTNER_USER_salesforce = Persona ''sso|partner|q7r8s9'' ''Marco Rossi'' [''partner_user''] SSO_salesforce"

definition COMMUNITY_CUSTOMER_salesforce :: persona where
  "COMMUNITY_CUSTOMER_salesforce = Persona ''sso|community|t1u2v3'' ''Aisha Bello'' [''customer''] SSO_salesforce"

definition KEY_ACCOUNTS_salesforce :: "string list" where
  "KEY_ACCOUNTS_salesforce = [''ACC-004821'', ''ACC-004833'', ''ACC-004850'', ''ACC-004867'']"

definition OPEN_OPPS_salesforce :: "string list" where
  "OPEN_OPPS_salesforce = [''OPP-018204'', ''OPP-018231'', ''OPP-018255'', ''OPP-018290'', ''OPP-018312'']"

definition HOT_CASES_salesforce :: "string list" where
  "HOT_CASES_salesforce = [''CASE-00204811'', ''CASE-00204833'', ''CASE-00204850'']"

definition STAGES_salesforce :: "string list" where
  "STAGES_salesforce = [''Prospecting'', ''Qualification'', ''Proposal'', ''Negotiation'', ''Closed Won'', ''Closed Lost'']"

definition PRIORITIES_salesforce :: "string list" where
  "PRIORITIES_salesforce = [''Low'', ''Medium'', ''High'', ''Critical'']"

definition opp_details_salesforce :: details where
  "opp_details_salesforce = merged (money 8000 750000 ''USD'') (entries
     [(''stage'', pick STAGES_salesforce),
      (''forecast_category'', pick [''Pipeline'', ''Best Case'', ''Commit'']),
      (''close_quarter'', pick [''Q1-FY27'', ''Q2-FY27'', ''Q3-FY27''])])"

lemma returns_opp_details_salesforce [simp, intro]: "returns opp_details_salesforce"
  by (auto simp: opp_details_salesforce_def STAGES_salesforce_def)

definition lead_details_salesforce :: details where
  "lead_details_salesforce = entries
     [(''source'', pick [''webinar'', ''inbound'', ''event'', ''partner'', ''cold_outreach'']),
      (''rating'', pick [''Cold'', ''Warm'', ''Hot'']),
      (''industry'', pick [''SaaS'', ''Manufacturing'', ''Healthcare'', ''Finance''])]"

lemma returns_lead_details_salesforce [simp, intro]: "returns lead_details_salesforce"
  by (auto simp: lead_details_salesforce_def)

definition case_details_salesforce :: details where
  "case_details_salesforce = entries
     [(''priority'', pick PRIORITIES_salesforce),
      (''origin'', pick [''Email'', ''Phone'', ''Web'', ''Chat'']),
      (''product'', pick [''Platform'', ''Analytics'', ''Mobile SDK'', ''Billing'']),
      (''sla_minutes'', pick [''60'', ''240'', ''480''])]"

lemma returns_case_details_salesforce [simp, intro]: "returns case_details_salesforce"
  by (auto simp: case_details_salesforce_def PRIORITIES_salesforce_def)

definition quote_details_salesforce :: details where
  "quote_details_salesforce = merged (money 12000 900000 ''USD'') (entries
     [(''term_months'', pick [''12'', ''24'', ''36'']),
      (''discount_pct'', gmap (rounded 1) (uniform 0 35)),
      (''line_count'', int_between 2 14)])"

lemma returns_quote_details_salesforce [simp, intro]: "returns quote_details_salesforce"
  by (auto simp: quote_details_salesforce_def)

definition campaign_details_salesforce :: details where
  "campaign_details_salesforce = entries
     [(''channel'', pick [''email'', ''webinar'', ''paid_social'', ''field_event'']),
      (''audience_size'', int_between 500 45000),
      (''budget_usd'', gmap (rounded 2) (uniform 2000 120000))]"

lemma returns_campaign_details_salesforce [simp, intro]: "returns campaign_details_salesforce"
  by (auto simp: campaign_details_salesforce_def)

section \<open>Routines\<close>

lemmas strings_salesforce = SALES_CONN_salesforce_def
  VERSION_salesforce_def
  SSO_salesforce_def
  KEY_ACCOUNTS_salesforce_def
  OPEN_OPPS_salesforce_def
  HOT_CASES_salesforce_def
  STAGES_salesforce_def
  PRIORITIES_salesforce_def

lemma modules_salesforce [simp]:
  "module_ok SALES_LEADS_salesforce"
  "module_ok SALES_OPPORTUNITIES_salesforce"
  "module_ok SALES_FORECASTING_salesforce"
  "module_ok SALES_ACCOUNTS_salesforce"
  "module_ok SERVICE_CASES_salesforce"
  "module_ok SERVICE_KNOWLEDGE_salesforce"
  "module_ok SERVICE_OMNI_salesforce"
  "module_ok MKT_JOURNEYS_salesforce"
  "module_ok MKT_CAMPAIGNS_salesforce"
  "module_ok CPQ_QUOTES_salesforce"
  "module_ok CPQ_APPROVALS_salesforce"
  "module_ok EXP_PARTNER_salesforce"
  "module_ok EXP_CUSTOMER_salesforce"
  by (simp_all add: module_ok_def Module_def strings_salesforce
    SALES_LEADS_salesforce_def SALES_OPPORTUNITIES_salesforce_def SALES_FORECASTING_salesforce_def SALES_ACCOUNTS_salesforce_def SERVICE_CASES_salesforce_def SERVICE_KNOWLEDGE_salesforce_def SERVICE_OMNI_salesforce_def MKT_JOURNEYS_salesforce_def MKT_CAMPAIGNS_salesforce_def CPQ_QUOTES_salesforce_def CPQ_APPROVALS_salesforce_def EXP_PARTNER_salesforce_def EXP_CUSTOMER_salesforce_def)

lemma personas_salesforce [simp]:
  "persona_ok SDR_salesforce"
  "persona_ok AE_ONE_salesforce"
  "persona_ok AE_TWO_salesforce"
  "persona_ok SALES_MANAGER_salesforce"
  "persona_ok SALES_OPS_salesforce"
  "persona_ok SUPPORT_AGENT_ONE_salesforce"
  "persona_ok SUPPORT_AGENT_TWO_salesforce"
  "persona_ok SUPPORT_LEAD_salesforce"
  "persona_ok KNOWLEDGE_MANAGER_salesforce"
  "persona_ok MKT_SPECIALIST_salesforce"
  "persona_ok CAMPAIGN_MANAGER_salesforce"
  "persona_ok DEAL_DESK_ANALYST_salesforce"
  "persona_ok SALES_ENGINEER_salesforce"
  "persona_ok DEAL_DESK_MANAGER_salesforce"
  "persona_ok PARTNER_USER_salesforce"
  "persona_ok COMMUNITY_CUSTOMER_salesforce"
  by (simp_all add: persona_ok_def Persona_def strings_salesforce user_id_types_def
    SDR_salesforce_def AE_ONE_salesforce_def AE_TWO_salesforce_def SALES_MANAGER_salesforce_def SALES_OPS_salesforce_def SUPPORT_AGENT_ONE_salesforce_def SUPPORT_AGENT_TWO_salesforce_def SUPPORT_LEAD_salesforce_def KNOWLEDGE_MANAGER_salesforce_def MKT_SPECIALIST_salesforce_def CAMPAIGN_MANAGER_salesforce_def DEAL_DESK_ANALYST_salesforce_def SALES_ENGINEER_salesforce_def DEAL_DESK_MANAGER_salesforce_def PARTNER_USER_salesforce_def COMMUNITY_CUSTOMER_salesforce_def)

definition ROUTINE_1_salesforce :: routine where
  "ROUTINE_1_salesforce = (Routine SALES_LEADS_salesforce [SDR_salesforce] ''weekday'' 8
      [(Activity ''create_lead'' ''create'' ''lead'' ''LEAD-'')
         \<lparr>ac_details := Some lead_details_salesforce\<rparr>,
       (Activity ''qualify_lead'' ''update'' ''lead'' ''LEAD-'')
         \<lparr>ac_metadata := Some (entries
     [(''outcome'', pick [''MQL'', ''SQL'', ''disqualified''])])\<rparr>])
     \<lparr>ro_occurrences := (4, 10)\<rparr>"

lemma ROUTINE_1_salesforce_ok: "routine_ok ROUTINE_1_salesforce"
  by (auto simp: ROUTINE_1_salesforce_def routine_rules strings_salesforce)

definition ROUTINE_2_salesforce :: routine where
  "ROUTINE_2_salesforce = (Routine SALES_OPPORTUNITIES_salesforce [AE_ONE_salesforce, AE_TWO_salesforce] ''weekday'' 9
      [(Activity ''view_opportunity'' ''read'' ''opportunity'' ''OPP-'')
         \<lparr>ac_id_pool := Some OPEN_OPPS_salesforce\<rparr>,
       (Activity ''update_stage'' ''update'' ''opportunity'' ''OPP-'')
         \<lparr>ac_id_pool := Some OPEN_OPPS_salesforce, ac_details := Some opp_details_salesforce\<rparr>,
       (Activity ''log_activity'' ''create'' ''task'' ''TASK-'')
         \<lparr>ac_metadata := Some (entries
     [(''type'', pick [''call'', ''email'', ''meeting''])])\<rparr>])
     \<lparr>ro_occurrences := (2, 5), ro_device_mix := [''desktop'', ''desktop'', ''mobile'']\<rparr>"

lemma ROUTINE_2_salesforce_ok: "routine_ok ROUTINE_2_salesforce"
  by (auto simp: ROUTINE_2_salesforce_def routine_rules strings_salesforce)

definition ROUTINE_3_salesforce :: routine where
  "ROUTINE_3_salesforce = Routine SALES_FORECASTING_salesforce [SALES_MANAGER_salesforce] ''weekly'' 16
      [(Activity ''submit_forecast'' ''update'' ''forecast'' ''FCT-'')
         \<lparr>ac_details := Some (merged (money 250000 4000000 ''USD'') (entries
     [(''category'', pick [''Commit'', ''Best Case''])]))\<rparr>]"

lemma ROUTINE_3_salesforce_ok: "routine_ok ROUTINE_3_salesforce"
  by (auto simp: ROUTINE_3_salesforce_def routine_rules strings_salesforce)

definition ROUTINE_4_salesforce :: routine where
  "ROUTINE_4_salesforce = (Routine SALES_ACCOUNTS_salesforce [SALES_OPS_salesforce] ''weekday'' 11
      [(Activity ''update_account'' ''update'' ''account'' ''ACC-'')
         \<lparr>ac_id_pool := Some KEY_ACCOUNTS_salesforce\<rparr>,
       Activity ''create_contact'' ''create'' ''contact'' ''CON-''])
     \<lparr>ro_occurrences := (1, 4)\<rparr>"

lemma ROUTINE_4_salesforce_ok: "routine_ok ROUTINE_4_salesforce"
  by (auto simp: ROUTINE_4_salesforce_def routine_rules strings_salesforce)

definition ROUTINE_5_salesforce :: routine where
  "ROUTINE_5_salesforce = (Routine SERVICE_CASES_salesforce [SUPPORT_AGENT_ONE_salesforce, SUPPORT_AGENT_TWO_salesforce] ''weekday'' 10
      [(Activity ''create_case'' ''create'' ''case'' ''CASE-'')
         \<lparr>ac_details := Some case_details_salesforce\<rparr>,
       (Activity ''add_case_comment'' ''update'' ''case'' ''CASE-'')
         \<lparr>ac_id_pool := Some HOT_CASES_salesforce\<rparr>,
       (Activity ''resolve_case'' ''update'' ''case'' ''CASE-'')
         \<lparr>ac_id_pool := Some HOT_CASES_salesforce, ac_metadata := Some (entries
     [(''resolution'', pick [''fixed'', ''workaround'', ''no_repro''])])\<rparr>])
     \<lparr>ro_occurrences := (5, 12), ro_device_mix := [''desktop'']\<rparr>"

lemma ROUTINE_5_salesforce_ok: "routine_ok ROUTINE_5_salesforce"
  by (auto simp: ROUTINE_5_salesforce_def routine_rules strings_salesforce)

definition ROUTINE_6_salesforce :: routine where
  "ROUTINE_6_salesforce = (Routine SERVICE_KNOWLEDGE_salesforce [KNOWLEDGE_MANAGER_salesforce] ''weekly'' 13
      [(Activity ''publish_article'' ''create'' ''knowledge_article'' ''KA-'')
         \<lparr>ac_metadata := Some (entries
     [(''category'', pick [''how-to'', ''troubleshooting'', ''release-note''])])\<rparr>])
     \<lparr>ro_occurrences := (1, 3)\<rparr>"

lemma ROUTINE_6_salesforce_ok: "routine_ok ROUTINE_6_salesforce"
  by (auto simp: ROUTINE_6_salesforce_def routine_rules strings_salesforce)

definition ROUTINE_7_salesforce :: routine where
  "ROUTINE_7_salesforce = (Routine SERVICE_OMNI_salesforce [SUPPORT_LEAD_salesforce] ''weekday'' 9
      [(Activity ''route_work_item'' ''update'' ''work_item'' ''WI-'')
         \<lparr>ac_metadata := Some (entries
     [(''queue'', pick [''tier1'', ''tier2'', ''billing'']),
      (''wait_seconds'', int_between 5 900)])\<rparr>])
     \<lparr>ro_occurrences := (3, 8)\<rparr>"

lemma ROUTINE_7_salesforce_ok: "routine_ok ROUTINE_7_salesforce"
  by (auto simp: ROUTINE_7_salesforce_def routine_rules strings_salesforce)

definition ROUTINE_8_salesforce :: routine where
  "ROUTINE_8_salesforce = (Routine MKT_JOURNEYS_salesforce [MKT_SPECIALIST_salesforce] ''weekday'' 10
      [(Activity ''build_journey'' ''create'' ''journey'' ''JNY-'')
         \<lparr>ac_metadata := Some (entries
     [(''steps'', int_between 3 12)])\<rparr>,
       (Activity ''send_journey_email'' ''create'' ''email_send'' ''SEND-'')
         \<lparr>ac_details := Some (entries
     [(''recipients'', int_between 1000 80000),
      (''template'', pick [''nurture-a'', ''nurture-b'', ''reengage''])])\<rparr>])
     \<lparr>ro_occurrences := (1, 3)\<rparr>"

lemma ROUTINE_8_salesforce_ok: "routine_ok ROUTINE_8_salesforce"
  by (auto simp: ROUTINE_8_salesforce_def routine_rules strings_salesforce)

definition ROUTINE_9_salesforce :: routine where
  "ROUTINE_9_salesforce = Routine MKT_CAMPAIGNS_salesforce [CAMPAIGN_MANAGER_salesforce] ''weekly'' 11
      [(Activity ''create_campaign'' ''create'' ''campaign'' ''CMP-'')
         \<lparr>ac_details := Some campaign_details_salesforce\<rparr>]"

lemma ROUTINE_9_salesforce_ok: "routine_ok ROUTINE_9_salesforce"
  by (auto simp: ROUTINE_9_salesforce_def routine_rules strings_salesforce)

definition ROUTINE_10_salesforce :: routine where
  "ROUTINE_10_salesforce = (Routine CPQ_QUOTES_salesforce [DEAL_DESK_ANALYST_salesforce, SALES_ENGINEER_salesforce] ''weekday'' 14
      [(Activity ''create_quote'' ''create'' ''quote'' ''Q-'')
         \<lparr>ac_details := Some quote_details_salesforce\<rparr>,
       (Activity ''configure_product'' ''update'' ''quote_line'' ''QL-'')
         \<lparr>ac_metadata := Some (entries
     [(''product'', pick [''Platform'', ''Analytics'', ''Support''])])\<rparr>,
       Activity ''generate_quote_doc'' ''create'' ''quote_document'' ''QDOC-''])
     \<lparr>ro_occurrences := (1, 4)\<rparr>"

lemma ROUTINE_10_salesforce_ok: "routine_ok ROUTINE_10_salesforce"
  by (auto simp: ROUTINE_10_salesforce_def routine_rules strings_salesforce)

definition ROUTINE_11_salesforce :: routine where
  "ROUTINE_11_salesforce = (Routine CPQ_APPROVALS_salesforce [DEAL_DESK_MANAGER_salesforce] ''weekday'' 15
      [(Activity ''approve_discount'' ''approve'' ''approval'' ''APR-'')
         \<lparr>ac_metadata := Some (entries
     [(''discount_pct'', gmap (rounded 1) (uniform 10 40)),
      (''outcome'', pick [''approved'', ''rejected'', ''escalated''])])\<rparr>])
     \<lparr>ro_occurrences := (2, 6), ro_device_mix := [''desktop'', ''mobile'']\<rparr>"

lemma ROUTINE_11_salesforce_ok: "routine_ok ROUTINE_11_salesforce"
  by (auto simp: ROUTINE_11_salesforce_def routine_rules strings_salesforce)

definition ROUTINE_12_salesforce :: routine where
  "ROUTINE_12_salesforce = (Routine EXP_PARTNER_salesforce [PARTNER_USER_salesforce] ''weekly'' 12
      [(Activity ''register_deal'' ''create'' ''deal_registration'' ''DR-'')
         \<lparr>ac_details := Some (money 5000 300000 ''USD'')\<rparr>])
     \<lparr>ro_occurrences := (1, 3)\<rparr>"

lemma ROUTINE_12_salesforce_ok: "routine_ok ROUTINE_12_salesforce"
  by (auto simp: ROUTINE_12_salesforce_def routine_rules strings_salesforce)

definition ROUTINE_13_salesforce :: routine where
  "ROUTINE_13_salesforce = (Routine EXP_CUSTOMER_salesforce [COMMUNITY_CUSTOMER_salesforce] ''weekday'' 13
      [(Activity ''open_community_case'' ''create'' ''case'' ''CCASE-'')
         \<lparr>ac_details := Some case_details_salesforce\<rparr>])
     \<lparr>ro_occurrences := (1, 2)\<rparr>"

lemma ROUTINE_13_salesforce_ok: "routine_ok ROUTINE_13_salesforce"
  by (auto simp: ROUTINE_13_salesforce_def routine_rules strings_salesforce)

definition ROUTINES_salesforce :: "routine list" where
  "ROUTINES_salesforce = [ROUTINE_1_salesforce, ROUTINE_2_salesforce, ROUTINE_3_salesforce, ROUTINE_4_salesforce, ROUTINE_5_salesforce, ROUTINE_6_salesforce, ROUTINE_7_salesforce, ROUTINE_8_salesforce, ROUTINE_9_salesforce, ROUTINE_10_salesforce, ROUTINE_11_salesforce, ROUTINE_12_salesforce, ROUTINE_13_salesforce]"

section \<open>Links\<close>

definition LINK_1_salesforce :: cross_app_link where
  "LINK_1_salesforce = (CrossAppLink ''lead_to_opportunity'' AE_ONE_salesforce
      (Step SALES_LEADS_salesforce ''convert_lead'' ''update'' ''lead'' ''LEAD-'' None)
      (Step SALES_OPPORTUNITIES_salesforce ''create_opportunity'' ''create'' ''opportunity'' ''OPP-'' (Some opp_details_salesforce)))
     \<lparr>li_hour := 18, li_probability := 8 / 10\<rparr>"

lemma LINK_1_salesforce_ok: "link_ok LINK_1_salesforce"
  by (auto simp: LINK_1_salesforce_def link_rules strings_salesforce)

definition LINK_2_salesforce :: cross_app_link where
  "LINK_2_salesforce = (CrossAppLink ''opportunity_to_quote'' AE_TWO_salesforce
      (Step SALES_OPPORTUNITIES_salesforce ''move_to_proposal'' ''update'' ''opportunity'' ''OPP-'' None)
      (Step CPQ_QUOTES_salesforce ''create_quote'' ''create'' ''quote'' ''Q-'' (Some quote_details_salesforce)))
     \<lparr>li_hour := 18, li_probability := 7 / 10\<rparr>"

lemma LINK_2_salesforce_ok: "link_ok LINK_2_salesforce"
  by (auto simp: LINK_2_salesforce_def link_rules strings_salesforce)

definition LINK_3_salesforce :: cross_app_link where
  "LINK_3_salesforce = (CrossAppLink ''case_to_knowledge'' SUPPORT_LEAD_salesforce
      (Step SERVICE_CASES_salesforce ''escalate_case'' ''update'' ''case'' ''CASE-'' None)
      (Step SERVICE_KNOWLEDGE_salesforce ''link_article_to_case'' ''update'' ''knowledge_article'' ''KA-'' None))
     \<lparr>li_hour := 19, li_probability := 65 / 100\<rparr>"

lemma LINK_3_salesforce_ok: "link_ok LINK_3_salesforce"
  by (auto simp: LINK_3_salesforce_def link_rules strings_salesforce)

definition LINK_4_salesforce :: cross_app_link where
  "LINK_4_salesforce = (CrossAppLink ''opportunity_to_forecast'' SALES_MANAGER_salesforce
      (Step SALES_OPPORTUNITIES_salesforce ''review_opportunity'' ''read'' ''opportunity'' ''OPP-'' None)
      (Step SALES_FORECASTING_salesforce ''submit_forecast'' ''update'' ''forecast'' ''FCT-'' (Some (money 250000 4000000 ''USD''))))
     \<lparr>li_hour := 19, li_probability := 8 / 10\<rparr>"

lemma LINK_4_salesforce_ok: "link_ok LINK_4_salesforce"
  by (auto simp: LINK_4_salesforce_def link_rules strings_salesforce)

definition CROSS_APP_salesforce :: "cross_app_link list" where
  "CROSS_APP_salesforce = [LINK_1_salesforce, LINK_2_salesforce, LINK_3_salesforce, LINK_4_salesforce]"

definition SHOP_salesforce :: shop where
  "SHOP_salesforce = \<lparr>sh_key = ''salesforce'', sh_tenant_id = ''initech-global'',
     sh_display_name = ''Initech Global (Salesforce shop)'', sh_routines = ROUTINES_salesforce, sh_cross_app = CROSS_APP_salesforce,
     sh_country = ''US'', sh_region = ''NY''\<rparr>"

lemma shop_ok_salesforce: "shop_ok SHOP_salesforce"
proof -
  have t: "contract_tenant ''initech-global''" by code_simp
  have r: "\<forall>r \<in> set ROUTINES_salesforce. routine_ok r"
    by (simp add: ROUTINES_salesforce_def ROUTINE_1_salesforce_ok ROUTINE_2_salesforce_ok ROUTINE_3_salesforce_ok ROUTINE_4_salesforce_ok ROUTINE_5_salesforce_ok ROUTINE_6_salesforce_ok ROUTINE_7_salesforce_ok ROUTINE_8_salesforce_ok ROUTINE_9_salesforce_ok ROUTINE_10_salesforce_ok ROUTINE_11_salesforce_ok ROUTINE_12_salesforce_ok ROUTINE_13_salesforce_ok)
  have l: "\<forall>l \<in> set CROSS_APP_salesforce. link_ok l"
    by (simp add: CROSS_APP_salesforce_def LINK_1_salesforce_ok LINK_2_salesforce_ok LINK_3_salesforce_ok LINK_4_salesforce_ok)
  show ?thesis using t r l by (simp add: shop_ok_def SHOP_salesforce_def)
qed

end
