(* ===== verification/SeedData.thy ===== *)
theory SeedData
  imports ShopSpec
begin

text \<open>
  \<open>samples/data\<close>: the catalog of a small company, the builder of its events, the four patterns of
  behaviour and \<open>seed_events.py\<close>'s generator, with what holds of everything it can generate.
\<close>

section \<open>The catalog\<close>

record seed_user =
  su_native_user_id :: string
  su_display_name :: string
  su_roles :: "string list"

record seed_app =
  sa_application_id :: string
  sa_instance_id :: string
  sa_connector :: string
  sa_connector_version :: string

definition User :: "string \<Rightarrow> string \<Rightarrow> string list \<Rightarrow> seed_user" where
  "User user name_shown roles = \<lparr>su_native_user_id = user, su_display_name = name_shown, su_roles = roles\<rparr>"

definition Application :: "string \<Rightarrow> string \<Rightarrow> string \<Rightarrow> string \<Rightarrow> seed_app" where
  "Application app inst connector version = \<lparr>sa_application_id = app, sa_instance_id = inst,
     sa_connector = connector, sa_connector_version = version\<rparr>"

definition ALICE :: seed_user where
  "ALICE = User ''alice.chen@acme-corp.example'' ''Alice Chen'' [''hr_manager'']"

definition BOB :: seed_user where
  "BOB = User ''bob.martinez@acme-corp.example'' ''Bob Martinez'' [''engineering_lead'']"

definition CAROL :: seed_user where
  "CAROL = User ''carol.singh@acme-corp.example'' ''Carol Singh'' [''software_engineer'']"

definition DAVE :: seed_user where
  "DAVE = User ''dave.kim@acme-corp.example'' ''Dave Kim'' [''finance_analyst'']"

definition ERIN :: seed_user where
  "ERIN = User ''erin.wong@acme-corp.example'' ''Erin Wong'' [''project_manager'']"

definition SEED_USERS :: "seed_user list" where
  "SEED_USERS = [ALICE, BOB, CAROL, DAVE, ERIN]"

definition DEVELOPERS :: "seed_user list" where
  "DEVELOPERS = [BOB, CAROL, ERIN]"

definition EXPENSE_SUBMITTERS :: "seed_user list" where
  "EXPENSE_SUBMITTERS = [BOB, CAROL, DAVE, ERIN]"

definition JIRA :: seed_app where
  "JIRA = Application ''jira'' ''jira-prod-01'' ''jira-connector'' ''1.4.0''"

definition SUCCESSFACTORS :: seed_app where
  "SUCCESSFACTORS = Application ''successfactors'' ''sf-prod-01'' ''successfactors-connector'' ''2.1.0''"

definition CONCUR :: seed_app where
  "CONCUR = Application ''concur'' ''concur-prod-01'' ''concur-connector'' ''1.0.3''"

definition APPLICATIONS :: "seed_app list" where
  "APPLICATIONS = [JIRA, SUCCESSFACTORS, CONCUR]"

section \<open>The builder\<close>

record event_spec =
  es_user :: seed_user
  es_app :: seed_app
  es_action_type :: string
  es_category :: string
  es_object_type :: string
  es_object_id :: string
  es_timestamp :: pydatetime
  es_metadata :: "(string \<times> json) list option"
  es_object_details :: "(string \<times> json) list option"
  es_session_id :: "string option"
  es_device :: string

record event_builder =
  eb_tenant_id :: string
  eb_environment :: string

definition EventSpec :: "seed_user \<Rightarrow> seed_app \<Rightarrow> string \<Rightarrow> string \<Rightarrow> string \<Rightarrow> string \<Rightarrow> pydatetime \<Rightarrow> event_spec" where
  \<comment> \<open>with the defaults of the optional fields\<close>
  "EventSpec user app action category ty i t = \<lparr>es_user = user, es_app = app, es_action_type = action,
     es_category = category, es_object_type = ty, es_object_id = i, es_timestamp = t, es_metadata = None,
     es_object_details = None, es_session_id = None, es_device = ''desktop''\<rparr>"

definition EventBuilder :: "string \<Rightarrow> event_builder" where
  "EventBuilder tenant = \<lparr>eb_tenant_id = tenant, eb_environment = ''production''\<rparr>"

definition spec_session :: "event_spec \<Rightarrow> string gen" where
  \<comment> \<open>\<open>spec.session_id or f"sess-{uuid.uuid4().hex[:12]}"\<close>\<close>
  "spec_session spec = (case es_session_id spec of
     None \<Rightarrow> gmap session_of uuid4
   | Some s \<Rightarrow> if s = [] then gmap session_of uuid4 else yield s)"

definition seed_event_of :: "event_builder \<Rightarrow> event_spec \<Rightarrow> string \<Rightarrow> string \<Rightarrow> (string \<times> json) list" where
  "seed_event_of b spec event_id sess =
     [(''schemaVersion'', JStr ''1.0.0''), (''eventId'', JStr event_id), (''tenantId'', JStr (eb_tenant_id b)),
      (''applicationId'', JStr (sa_application_id (es_app spec))),
      (''applicationInstanceId'', JStr (sa_instance_id (es_app spec))),
      (''environment'', JStr (eb_environment b)), (''eventTimestamp'', JStr (isoformat (es_timestamp spec))),
      (''actor'', JObj [(''nativeUserId'', JStr (su_native_user_id (es_user spec))), (''userIdType'', JStr ''email''),
         (''roles'', JList (map JStr (su_roles (es_user spec))))]),
      (''action'', JObj ([(''type'', JStr (es_action_type spec)), (''category'', JStr (es_category spec))] @
         (case es_metadata spec of None \<Rightarrow> [] | Some m \<Rightarrow> [(''metadata'', JObj m)]))),
      (''object'', JObj ([(''objectType'', JStr (es_object_type spec)), (''objectId'', JStr (es_object_id spec))] @
         (case es_object_details spec of None \<Rightarrow> [] | Some d \<Rightarrow> [(''objectDetails'', JObj d)]))),
      (''source'', JObj [(''connector'', JStr (sa_connector (es_app spec))),
         (''connectorVersion'', JStr (sa_connector_version (es_app spec)))]),
      (''context'', JObj [(''sessionId'', JStr sess), (''device'', JStr (es_device spec))])]"

definition build_spec :: "event_builder \<Rightarrow> event_spec \<Rightarrow> (string \<times> json) list gen" where
  "build_spec b spec = gbind uuid4 (\<lambda>u. gmap (seed_event_of b spec (uuid_str u)) (spec_session spec))"

definition at_time :: "int \<Rightarrow> int \<Rightarrow> int \<Rightarrow> int \<Rightarrow> pydatetime gen" where
  "at_time day hour minute jitter_minutes =
     gbind (from_result (on_day day hour minute)) (\<lambda>base.
     gbind (randint (- jitter_minutes) jitter_minutes) (\<lambda>k. from_result (plus_minutes base k)))"

definition after_minutes :: "pydatetime \<Rightarrow> int \<Rightarrow> int \<Rightarrow> pydatetime gen" where
  \<comment> \<open>\<open>t + timedelta(minutes=rng.randint(a, b))\<close>\<close>
  "after_minutes t a b = gbind (randint a b) (\<lambda>k. from_result (plus_minutes t k))"

section \<open>The patterns\<close>

definition iso_week :: "int \<Rightarrow> int" where
  \<comment> \<open>\<open>day.isocalendar().week\<close>: the year of the week is that of its Thursday\<close>
  "iso_week day = (let thursday = day - weekday day + 3; (y, m, d) = ord2ymd thursday
     in (thursday - ymd2ord y 1 1) div 7 + 1)"

definition sprint_of :: "int \<Rightarrow> string" where
  "sprint_of day = ''SPRINT-'' @ two (iso_week day)"

definition developer_morning :: "event_builder \<Rightarrow> int \<Rightarrow> seed_user \<Rightarrow> (string \<times> json) list list gen" where
  "developer_morning b workday developer =
     gbind (gmap session_of uuid4) (\<lambda>sess.
     gbind (at_time workday 9 0 25) (\<lambda>board_time.
     gbind (build_spec b ((EventSpec developer JIRA ''view_sprint_board'' ''read'' ''sprint'' (sprint_of workday) board_time)
       \<lparr>es_metadata := Some [(''board'', JStr ''engineering'')], es_session_id := Some sess\<rparr>)) (\<lambda>board_event.
     gbind (randint 1000 1400) (\<lambda>n.
     gbind (after_minutes board_time 2 12) (\<lambda>t.
     gbind (choice [''in_progress'', ''in_review'', ''done'']) (\<lambda>st.
     gbind (build_spec b ((EventSpec developer JIRA ''update_issue_status'' ''update'' ''issue'' (''ENG-'' @ show_int n) t)
       \<lparr>es_metadata := Some [(''to_status'', JStr st)], es_session_id := Some sess\<rparr>)) (\<lambda>issue_event.
     yield [board_event, issue_event])))))))"

definition daily_sprint_checks :: "event_builder \<Rightarrow> int \<Rightarrow> int \<Rightarrow> (string \<times> json) list list gen" where
  "daily_sprint_checks b start stop =
     gbind (from_result (workdays_between start stop)) (\<lambda>days.
     traverse_concat (\<lambda>day. traverse_concat (developer_morning b day) DEVELOPERS) days)"

definition leave_request_id :: "nat \<Rightarrow> string" where
  "leave_request_id u = ''LR-'' @ take 8 (uuid_hex u)"

definition leave_approval :: "event_builder \<Rightarrow> int \<Rightarrow> string \<Rightarrow> (string \<times> json) list gen" where
  "leave_approval b monday sess =
     gbind (gmap leave_request_id uuid4) (\<lambda>request_id.
     gbind (at_time monday 9 30 40) (\<lambda>t.
     gbind (choice [''annual'', ''sick'', ''parental'']) (\<lambda>leave.
     build_spec b ((EventSpec ALICE SUCCESSFACTORS ''approve_leave_request'' ''approve'' ''leave_request'' request_id t)
       \<lparr>es_metadata := Some [(''leave_type'', JStr leave)], es_session_id := Some sess\<rparr>))))"

definition weekly_leave_approvals :: "event_builder \<Rightarrow> int \<Rightarrow> int \<Rightarrow> (string \<times> json) list list gen" where
  "weekly_leave_approvals b start stop =
     gbind (from_result (mondays_between start stop)) (\<lambda>days.
     traverse_concat (\<lambda>monday.
       gbind (gmap session_of uuid4) (\<lambda>sess.
       gbind (randint 2 4) (\<lambda>n. traverse (\<lambda>i. leave_approval b monday sess) [0..<nat n]))) days)"

definition report_of :: "int \<Rightarrow> seed_user \<Rightarrow> string" where
  \<comment> \<open>\<open>f"EXP-{month_end.strftime('%Y%m')}-{submitter.native_user_id[:3]}"\<close>\<close>
  "report_of closing submitter = (let (y, m, d) = ord2ymd closing
     in ''EXP-'' @ show_nat (nat y) @ two m @ ''-'' @ take 3 (su_native_user_id submitter))"

definition expense_submission :: "event_builder \<Rightarrow> int \<Rightarrow> seed_user \<Rightarrow> (string \<times> json) list gen" where
  "expense_submission b closing submitter =
     gbind (gmap (rounded 2) (uniform 120 2400)) (\<lambda>amount.
     gbind (at_time closing 16 0 60) (\<lambda>t.
     gbind (randint 3 14) (\<lambda>line_items.
     build_spec b ((EventSpec submitter CONCUR ''submit_expense_report'' ''create'' ''expense_report''
         (report_of closing submitter) t)
       \<lparr>es_metadata := Some [(''amount_usd'', amount), (''currency'', JStr ''USD'')],
        es_object_details := Some [(''line_items'', JInt line_items)]\<rparr>))))"

definition monthly_expense_submissions :: "event_builder \<Rightarrow> int \<Rightarrow> int \<Rightarrow> (string \<times> json) list list gen" where
  "monthly_expense_submissions b start stop =
     traverse_concat (\<lambda>closing. traverse (expense_submission b closing) EXPENSE_SUBMITTERS)
       (month_end_workdays_between start stop)"

definition leave_then_capacity :: "event_builder \<Rightarrow> int \<Rightarrow> (string \<times> json) list list gen" where
  "leave_then_capacity b monday =
     gbind random_unit (\<lambda>x. if x > 7/10 then yield [] else
     gbind (gmap session_of uuid4) (\<lambda>sess.
     gbind (gmap leave_request_id uuid4) (\<lambda>request_id.
     gbind (at_time monday 10 15 30) (\<lambda>approval_time.
     gbind (build_spec b ((EventSpec ERIN SUCCESSFACTORS ''approve_leave_request'' ''approve'' ''leave_request'' request_id
         approval_time)
       \<lparr>es_metadata := Some [(''leave_type'', JStr ''annual'')], es_session_id := Some sess\<rparr>)) (\<lambda>approval.
     gbind (after_minutes approval_time 3 10) (\<lambda>t.
     gbind (build_spec b ((EventSpec ERIN JIRA ''update_capacity_plan'' ''update'' ''sprint'' (sprint_of monday) t)
       \<lparr>es_metadata := Some [(''reason'', JStr ''team_member_on_leave'')], es_session_id := Some sess\<rparr>)) (\<lambda>plan.
     yield [approval, plan])))))))"

definition cross_app_leave_to_capacity :: "event_builder \<Rightarrow> int \<Rightarrow> int \<Rightarrow> (string \<times> json) list list gen" where
  "cross_app_leave_to_capacity b start stop =
     gbind (from_result (mondays_between start stop)) (\<lambda>days. traverse_concat (leave_then_capacity b) days)"

definition ALL_PATTERNS :: "(event_builder \<Rightarrow> int \<Rightarrow> int \<Rightarrow> (string \<times> json) list list gen) list" where
  "ALL_PATTERNS = [daily_sprint_checks, weekly_leave_approvals, monthly_expense_submissions, cross_app_leave_to_capacity]"

section \<open>The generator\<close>

definition SEED_START :: int where
  "SEED_START = ymd2ord 2026 1 12"

definition SEED_END :: int where
  "SEED_END = ymd2ord 2026 7 11"

definition generate_events :: "string \<Rightarrow> int \<Rightarrow> int \<Rightarrow> (string \<times> json) list list gen" where
  "generate_events tenant_id start stop =
     gmap (sort_key time_text) (traverse_concat (\<lambda>pattern. pattern (EventBuilder tenant_id) start stop) ALL_PATTERNS)"

definition relabel :: "string \<Rightarrow> (string \<times> json) list \<Rightarrow> (string \<times> json) list" where
  \<comment> \<open>\<open>event["tenantId"] = args.tenant\<close>\<close>
  "relabel tenant event = AList.update ''tenantId'' (JStr tenant) event"


section \<open>Specifications of valid events\<close>

definition spec_ok :: "event_spec \<Rightarrow> bool" where
  "spec_ok spec = (su_native_user_id (es_user spec) \<noteq> [] \<and> sa_application_id (es_app spec) \<noteq> [] \<and>
     sa_instance_id (es_app spec) \<noteq> [] \<and> sa_connector (es_app spec) \<noteq> [] \<and> sa_connector_version (es_app spec) \<noteq> [] \<and>
     es_action_type spec \<noteq> [] \<and> es_category spec \<in> set action_categories \<and> es_object_type spec \<noteq> [] \<and>
     es_object_id spec \<noteq> [] \<and> es_device spec \<in> set devices \<and>
     (\<exists>t. es_timestamp spec = utc t \<and> in_calendar t \<and> whole_second t))"

lemma seed_event_fields:
  "seed_event_of b spec i sess =
    event_fields i (eb_tenant_id b) (sa_application_id (es_app spec)) (sa_instance_id (es_app spec)) (eb_environment b)
      (isoformat (es_timestamp spec))
      (JObj [(''nativeUserId'', JStr (su_native_user_id (es_user spec))), (''userIdType'', JStr ''email''),
         (''roles'', JList (map JStr (su_roles (es_user spec))))])
      (JObj ([(''type'', JStr (es_action_type spec)), (''category'', JStr (es_category spec))] @
         (case es_metadata spec of None \<Rightarrow> [] | Some m \<Rightarrow> [(''metadata'', JObj m)])))
      (JObj ([(''objectType'', JStr (es_object_type spec)), (''objectId'', JStr (es_object_id spec))] @
         (case es_object_details spec of None \<Rightarrow> [] | Some d \<Rightarrow> [(''objectDetails'', JObj d)])))
      (JObj [(''connector'', JStr (sa_connector (es_app spec))), (''connectorVersion'', JStr (sa_connector_version (es_app spec)))]) @
    [(''context'', JObj [(''sessionId'', JStr sess), (''device'', JStr (es_device spec))])]"
  unfolding seed_event_of_def event_fields_def append_Cons append_Nil ..

lemma valid_action_optional:
  "a \<noteq> [] \<Longrightarrow> c \<in> set action_categories \<Longrightarrow> valid action_schema (JObj ([(''type'', JStr a), (''category'', JStr c)] @
     (case md of None \<Rightarrow> [] | Some m \<Rightarrow> [(''metadata'', JObj m)])))"
  using valid_action_plain valid_action_metadata by (cases md) auto

lemma valid_context_plain:
  "d \<in> set devices \<Longrightarrow> valid context_schema (JObj [(''sessionId'', JStr s), (''device'', JStr d)])"
  by (auto simp: context_schema_def valid_object_schema)

lemma seed_event_ok:
  assumes "contract_tenant (eb_tenant_id b)" "eb_environment b \<in> set environments" "spec_ok spec"
  shows "tenant_event (eb_tenant_id b) (seed_event_of b spec i sess)"
proof -
  have e: "''email'' \<in> set user_id_types" by code_simp
  have p: "su_native_user_id (es_user spec) \<noteq> []" "sa_application_id (es_app spec) \<noteq> []"
    "sa_instance_id (es_app spec) \<noteq> []" "sa_connector (es_app spec) \<noteq> []" "sa_connector_version (es_app spec) \<noteq> []"
    "es_action_type spec \<noteq> []" "es_category spec \<in> set action_categories" "es_object_type spec \<noteq> []"
    "es_object_id spec \<noteq> []" "es_device spec \<in> set devices"
    using assms(3) by (simp_all add: spec_ok_def)
  obtain t where t: "es_timestamp spec = utc t" "in_calendar t" "whole_second t" using assms(3) unfolding spec_ok_def by blast
  have "valid event_schema (JObj (seed_event_of b spec i sess))"
    unfolding seed_event_fields
    by (rule valid_event_fields[OF assms(1) p(2,3) assms(2) valid_actor_roles[OF p(1) e] valid_action_optional[OF p(6,7)]
      valid_object_optional[OF p(8,9)] valid_source_plain[OF p(4,5)]])
      (rule disjI2, rule exI, rule conjI[OF refl valid_context_plain[OF p(10)]])
  moreover have "map_of (seed_event_of b spec i sess) ''tenantId'' = Some (JStr (eb_tenant_id b))"
    unfolding seed_event_fields by (rule event_fields_get)
  moreover have "map_of (seed_event_of b spec i sess) ''eventTimestamp'' = Some (JStr (isoformat_utc (utc t)))"
    unfolding seed_event_fields t(1) isoformat_utc_eq by (rule event_fields_get)
  ultimately show ?thesis unfolding tenant_event_def event_at_def using t(2,3) by blast
qed

lemma always_spec_session: "always (\<lambda>x. True) (spec_session spec)"
  by (auto simp: spec_session_def split: option.split intro!: always_gmap[OF always_uuid4] always_yield)

lemma build_spec_ok:
  assumes "contract_tenant (eb_tenant_id b)" "eb_environment b \<in> set environments" "spec_ok spec"
  shows "always (tenant_event (eb_tenant_id b)) (build_spec b spec)"
  unfolding build_spec_def
  by (rule always_gbind[OF always_uuid4[of "\<lambda>u. True"]], simp, rule always_gmap[OF always_spec_session], rule seed_event_ok[OF assms])

section \<open>The patterns never raise\<close>

definition moment_of :: "int \<Rightarrow> pydatetime \<Rightarrow> bool" where
  \<comment> \<open>a minute of the day\<close>
  "moment_of day t = (\<exists>m. t = utc (moment_at day m) \<and> 0 \<le> m \<and> m < 1440)"

lemma at_time_moment:
  assumes "inner_day day" "0 \<le> h" "0 \<le> mi" "mi < 60" "0 \<le> j" "j \<le> h * 60 + mi" "h * 60 + mi + j < 1440"
  shows "always (moment_of day) (at_time day h mi j)"
proof -
  have b: "h < 24" "j \<le> 1440" using assms by linarith+
  have e: "at_time day h mi j = at_around day h mi j" by (simp add: at_time_def at_around_def)
  show ?thesis
    unfolding e
    by (rule always_mono[OF at_around_moment[OF assms(1,2) b(1) assms(3-5) b(2)]])
       (use assms(6,7) in \<open>force simp: moment_of_def\<close>)
qed

lemma moment_of_instant: "inner_day day \<Longrightarrow> moment_of day t \<Longrightarrow> \<exists>u. t = utc u \<and> in_calendar u \<and> whole_second u"
  using moment_in_calendar[of day] by (fastforce simp: moment_of_def)

lemma after_minutes_instant:
  assumes "inner_day day" "moment_of day t" "0 \<le> a" "a \<le> b" "b \<le> 60"
  shows "always (\<lambda>t. \<exists>u. t = utc u \<and> in_calendar u \<and> whole_second u) (after_minutes t a b)"
proof -
  obtain m where m: "t = utc (moment_at day m)" "0 \<le> m" "m < 1440" using assms(2) by (auto simp: moment_of_def)
  show ?thesis
    unfolding after_minutes_def
  proof (rule always_gbind[OF always_randint[OF assms(4)]])
    fix k assume k: "a \<le> k \<and> k \<le> b"
    have b: "- 1440 \<le> m + k" "m + k < 2880" using k m assms(3,5) by linarith+
    show "always (\<lambda>t. \<exists>u. t = utc u \<and> in_calendar u \<and> whole_second u) (from_result (plus_minutes t k))"
      unfolding m(1) plus_minutes_moment[OF assms(1) b]
      by (rule always_from_result[OF refl]) (use moment_in_calendar[OF assms(1) b] in blast)
  qed
qed

lemmas spec_rules = spec_ok_def EventSpec_def ALICE_def ERIN_def JIRA_def SUCCESSFACTORS_def CONCUR_def User_def Application_def
  action_categories_def devices_def

lemma developers_named: "u \<in> set DEVELOPERS \<Longrightarrow> su_native_user_id u \<noteq> []"
  by (auto simp: DEVELOPERS_def BOB_def CAROL_def ERIN_def User_def)

lemma submitters_named: "u \<in> set EXPENSE_SUBMITTERS \<Longrightarrow> su_native_user_id u \<noteq> []"
  by (auto simp: EXPENSE_SUBMITTERS_def BOB_def CAROL_def DAVE_def ERIN_def User_def)

abbreviation sound :: "event_builder \<Rightarrow> bool" where
  "sound b \<equiv> contract_tenant (eb_tenant_id b) \<and> eb_environment b \<in> set environments"

abbreviation all_ok :: "event_builder \<Rightarrow> (string \<times> json) list list \<Rightarrow> bool" where
  "all_ok b es \<equiv> \<forall>e \<in> set es. tenant_event (eb_tenant_id b) e"

lemma always_session: "always (\<lambda>x. True) (gmap f uuid4)"
  by (rule always_gmap[OF always_uuid4[of "\<lambda>u. True"]]) simp_all

lemma developer_morning_ok:
  assumes b: "sound b" and d: "inner_day day" and u: "su_native_user_id u \<noteq> []"
  shows "always (all_ok b) (developer_morning b day u)"
proof -
  have at: "always (moment_of day) (at_time day 9 0 25)" using at_time_moment[OF d, of 9 0 25] by simp
  note build = build_spec_ok[OF conjunct1[OF b] conjunct2[OF b]]
  show ?thesis
    unfolding developer_morning_def
  proof (rule always_gbind[OF always_session], rule always_gbind[OF at])
    fix sess t assume t: "moment_of day t"
    have after: "always (\<lambda>t. \<exists>u. t = utc u \<and> in_calendar u \<and> whole_second u) (after_minutes t 2 12)"
      by (rule after_minutes_instant[OF d t]) simp_all
    have first: "spec_ok ((EventSpec u JIRA ''view_sprint_board'' ''read'' ''sprint'' (sprint_of day) t)
         \<lparr>es_metadata := Some [(''board'', JStr ''engineering'')], es_session_id := Some sess\<rparr>)"
      using moment_of_instant[OF d t] u by (simp add: spec_rules sprint_of_def)
    have second: "spec_ok ((EventSpec u JIRA ''update_issue_status'' ''update'' ''issue'' (''ENG-'' @ show_int n) t')
         \<lparr>es_metadata := Some [(''to_status'', JStr st)], es_session_id := Some sess\<rparr>)"
      if "\<exists>u. t' = utc u \<and> in_calendar u \<and> whole_second u" for t' n st
      using that u by (simp add: spec_rules)
    show "always (all_ok b)
      (gbind (build_spec b ((EventSpec u JIRA ''view_sprint_board'' ''read'' ''sprint'' (sprint_of day) t)
         \<lparr>es_metadata := Some [(''board'', JStr ''engineering'')], es_session_id := Some sess\<rparr>)) (\<lambda>board_event.
       gbind (randint 1000 1400) (\<lambda>n. gbind (after_minutes t 2 12) (\<lambda>t.
       gbind (choice [''in_progress'', ''in_review'', ''done'']) (\<lambda>st.
       gbind (build_spec b ((EventSpec u JIRA ''update_issue_status'' ''update'' ''issue'' (''ENG-'' @ show_int n) t)
         \<lparr>es_metadata := Some [(''to_status'', JStr st)], es_session_id := Some sess\<rparr>)) (\<lambda>issue_event.
       yield [board_event, issue_event]))))))"
      by (rule always_gbind[OF build[OF first]], rule always_gbind[OF always_randint], simp,
          rule always_gbind[OF after], rule always_gbind[OF always_choice[where P = "\<lambda>x. True"]], simp, simp,
          rule always_gbind[OF build[OF second]], assumption, rule always_yield, simp)
  qed
qed

lemma leave_approval_ok:
  assumes b: "sound b" and d: "inner_day day"
  shows "always (tenant_event (eb_tenant_id b)) (leave_approval b day sess)"
proof -
  have at: "always (moment_of day) (at_time day 9 30 40)" using at_time_moment[OF d, of 9 30 40] by simp
  have ok: "spec_ok ((EventSpec ALICE SUCCESSFACTORS ''approve_leave_request'' ''approve'' ''leave_request'' i t)
       \<lparr>es_metadata := Some [(''leave_type'', JStr leave)], es_session_id := Some sess\<rparr>)"
    if "moment_of day t" "i \<noteq> []" for t leave i
    using moment_of_instant[OF d that(1)] that(2) by (simp add: spec_rules)
  show ?thesis
    unfolding leave_approval_def
    by (rule always_gbind[OF always_gmap[OF always_uuid4[of "\<lambda>u. True"], of "\<lambda>i. i \<noteq> []"]], simp,
        simp add: leave_request_id_def, rule always_gbind[OF at], rule always_gbind[OF always_choice[where P = "\<lambda>x. True"]],
        simp, simp, rule build_spec_ok[OF conjunct1[OF b] conjunct2[OF b] ok], assumption, assumption)
qed

lemma report_of_nonempty: "report_of closing u \<noteq> []"
  by (simp add: report_of_def split: prod.split)

lemma expense_submission_ok:
  assumes b: "sound b" and d: "inner_day day" and u: "su_native_user_id u \<noteq> []"
  shows "always (tenant_event (eb_tenant_id b)) (expense_submission b day u)"
proof -
  have at: "always (moment_of day) (at_time day 16 0 60)" using at_time_moment[OF d, of 16 0 60] by simp
  have ok: "spec_ok ((EventSpec u CONCUR ''submit_expense_report'' ''create'' ''expense_report'' (report_of day u) t)
       \<lparr>es_metadata := Some [(''amount_usd'', amount), (''currency'', JStr ''USD'')],
        es_object_details := Some [(''line_items'', JInt n)]\<rparr>)" if "moment_of day t" for t amount n
    using moment_of_instant[OF d that(1)] u report_of_nonempty[of day u] by (simp add: spec_rules)
  show ?thesis
    unfolding expense_submission_def
    by (rule always_gbind[OF returns_rounded], rule always_gbind[OF at], rule always_gbind[OF always_randint], simp,
        rule build_spec_ok[OF conjunct1[OF b] conjunct2[OF b] ok], assumption)
qed

lemma leave_then_capacity_ok:
  assumes b: "sound b" and d: "inner_day day"
  shows "always (all_ok b) (leave_then_capacity b day)"
proof -
  have at: "always (moment_of day) (at_time day 10 15 30)" using at_time_moment[OF d, of 10 15 30] by simp
  note build = build_spec_ok[OF conjunct1[OF b] conjunct2[OF b]]
  have first: "spec_ok ((EventSpec ERIN SUCCESSFACTORS ''approve_leave_request'' ''approve'' ''leave_request'' i t)
       \<lparr>es_metadata := Some [(''leave_type'', JStr ''annual'')], es_session_id := Some sess\<rparr>)"
    if "moment_of day t" "i \<noteq> []" for t i sess
    using moment_of_instant[OF d that(1)] that(2) by (simp add: spec_rules)
  have second: "spec_ok ((EventSpec ERIN JIRA ''update_capacity_plan'' ''update'' ''sprint'' (sprint_of day) t)
       \<lparr>es_metadata := Some [(''reason'', JStr ''team_member_on_leave'')], es_session_id := Some sess\<rparr>)"
    if "\<exists>u. t = utc u \<and> in_calendar u \<and> whole_second u" for t sess
    using that by (simp add: spec_rules sprint_of_def)
  have after: "always (\<lambda>t. \<exists>u. t = utc u \<and> in_calendar u \<and> whole_second u) (after_minutes t 3 10)" if "moment_of day t" for t
    by (rule after_minutes_instant[OF d that]) simp_all
  have pair: "always (all_ok b)
     (gbind (gmap session_of uuid4) (\<lambda>sess.
      gbind (gmap leave_request_id uuid4) (\<lambda>request_id.
      gbind (at_time day 10 15 30) (\<lambda>approval_time.
      gbind (build_spec b ((EventSpec ERIN SUCCESSFACTORS ''approve_leave_request'' ''approve'' ''leave_request'' request_id
          approval_time)
        \<lparr>es_metadata := Some [(''leave_type'', JStr ''annual'')], es_session_id := Some sess\<rparr>)) (\<lambda>approval.
      gbind (after_minutes approval_time 3 10) (\<lambda>t.
      gbind (build_spec b ((EventSpec ERIN JIRA ''update_capacity_plan'' ''update'' ''sprint'' (sprint_of day) t)
        \<lparr>es_metadata := Some [(''reason'', JStr ''team_member_on_leave'')], es_session_id := Some sess\<rparr>)) (\<lambda>plan.
      yield [approval, plan])))))))"
    by (rule always_gbind[OF always_session], rule always_gbind[OF always_gmap[OF always_uuid4[of "\<lambda>u. True"], of "\<lambda>i. i \<noteq> []"]],
        simp, simp add: leave_request_id_def, rule always_gbind[OF at], rule always_gbind[OF build[OF first]], assumption, assumption,
        rule always_gbind[OF after], assumption, rule always_gbind[OF build[OF second]], assumption, rule always_yield, simp)
  show ?thesis
    unfolding leave_then_capacity_def
    by (rule always_gbind[OF always_random_unit]) (use pair in \<open>simp add: always_yield\<close>)
qed

section \<open>The whole\<close>

lemma always_days:
  assumes "r = Inr ds" "\<And>d. d \<in> set ds \<Longrightarrow> always (\<lambda>ys. \<forall>y \<in> set ys. P y) (f d)"
  shows "always (\<lambda>ys. \<forall>y \<in> set ys. P y) (gbind (from_result r) (traverse_concat f))"
  by (rule always_gbind[OF always_from_result[OF assms(1), of "\<lambda>x. x = ds"]], rule refl)
     (use assms(2) in \<open>auto intro!: always_traverse_concat\<close>)

lemma always_traverse_all:
  assumes "\<And>x. x \<in> set xs \<Longrightarrow> always P (f x)"
  shows "always (\<lambda>ys. \<forall>y \<in> set ys. P y) (traverse f xs)"
  by (rule always_mono[OF always_traverse[OF assms]]) (auto dest: list_all2_const)

lemma patterns_ok:
  assumes b: "sound b" and r: "2 \<le> start" "start \<le> stop" "stop < max_ordinal" and p: "pattern \<in> set ALL_PATTERNS"
  shows "always (all_ok b) (pattern b start stop)"
proof -
  obtain ds where ds: "workdays_between start stop = Inr ds" "\<forall>d \<in> set ds. inner_day d"
    using dates_for_cadence_days[of "''weekday''", OF _ r] by (auto simp: CADENCES_def dates_for_cadence_def)
  obtain ms where ms: "mondays_between start stop = Inr ms" "\<forall>d \<in> set ms. inner_day d"
    using dates_for_cadence_days[of "''weekly''", OF _ r] by (auto simp: CADENCES_def dates_for_cadence_def)
  have es: "\<forall>d \<in> set (month_end_workdays_between start stop). inner_day d"
    using dates_for_cadence_days[of "''monthly_end''", OF _ r] by (auto simp: CADENCES_def dates_for_cadence_def)
  consider "pattern = daily_sprint_checks" | "pattern = weekly_leave_approvals" | "pattern = monthly_expense_submissions"
    | "pattern = cross_app_leave_to_capacity" using p by (auto simp: ALL_PATTERNS_def)
  then show ?thesis
  proof cases
    case 1
    show ?thesis unfolding 1 daily_sprint_checks_def
      by (rule always_days[OF ds(1)], rule always_traverse_concat, rule developer_morning_ok[OF b])
         (use ds(2) developers_named in auto)
  next
    case 2
    show ?thesis unfolding 2 weekly_leave_approvals_def
      by (rule always_days[OF ms(1)], rule always_gbind[OF always_session], rule always_gbind[OF always_randint], simp,
          rule always_traverse_all, rule leave_approval_ok[OF b]) (use ms(2) in blast)
  next
    case 3
    show ?thesis unfolding 3 monthly_expense_submissions_def
      by (rule always_traverse_concat, rule always_traverse_all, rule expense_submission_ok[OF b])
         (use es submitters_named in auto)
  next
    case 4
    show ?thesis unfolding 4 cross_app_leave_to_capacity_def
      by (rule always_days[OF ms(1)], rule leave_then_capacity_ok[OF b]) (use ms(2) in blast)
  qed
qed

lemma generate_events_ok:
  assumes "contract_tenant tenant" "2 \<le> start" "start \<le> stop" "stop < max_ordinal"
  shows "always (\<lambda>es. (\<forall>e \<in> set es. tenant_event tenant e) \<and> in_time_order es) (generate_events tenant start stop)"
proof -
  have b: "sound (EventBuilder tenant)" using assms(1) by (simp add: EventBuilder_def environments_def)
  have t: "eb_tenant_id (EventBuilder tenant) = tenant" by (simp add: EventBuilder_def)
  have "always (all_ok (EventBuilder tenant))
      (traverse_concat (\<lambda>pattern. pattern (EventBuilder tenant) start stop) ALL_PATTERNS)"
    by (rule always_traverse_concat, rule patterns_ok[OF b assms(2-4)])
  then show ?thesis
    unfolding generate_events_def t by (rule always_gmap) (simp add: sort_time_order)
qed

lemma relabel_ok:
  assumes "tenant_event tenant e" "contract_tenant other"
  shows "map_of (relabel other e) ''tenantId'' = Some (JStr other)" "event_at (relabel other e) t = event_at e t"
  by (simp_all add: relabel_def update_conv' event_at_def)

end
