(* ===== verification/Shops.thy ===== *)
theory Shops
  imports ShopSap ShopOracle ShopSalesforce SeedData Patterns
begin

text \<open>
  \<open>samples/shops/generate.py\<close>: the shops by name and the run that generates their events over the
  default dates, with what holds of every shop: valid events in order of time, and links that the
  engine's detector recognises.
\<close>

section \<open>Generating\<close>

definition DEFAULT_START :: int where
  "DEFAULT_START = ymd2ord 2026 1 12"

definition DEFAULT_END :: int where
  "DEFAULT_END = ymd2ord 2026 7 11"

definition SHOPS :: "(string, shop) pydict" where
  "SHOPS = [(sh_key SHOP_sap, SHOP_sap), (sh_key SHOP_salesforce, SHOP_salesforce), (sh_key SHOP_oracle, SHOP_oracle)]"

definition selected_shops :: "string \<Rightarrow> shop list option" where
  \<comment> \<open>no result means \<open>SystemExit\<close>\<close>
  "selected_shops n = (if n = ''all'' then Some (map snd SHOPS) else map_option (\<lambda>sh. [sh]) (map_of SHOPS n))"

definition run_generate :: "(shop \<Rightarrow> world) \<Rightarrow> string \<Rightarrow> (py_error + (string \<times> (string \<times> json) list list) list) option" where
  \<comment> \<open>the events written for each shop, by its key; every shop has a world of its own\<close>
  "run_generate world_of n = map_option (emap (\<lambda>sh.
     ebind (generate_shop_events sh DEFAULT_START DEFAULT_END (world_of sh)) (\<lambda>(events, w). Inr (sh_key sh, events))))
     (selected_shops n)"

section \<open>The shops\<close>

lemma default_dates: "2 \<le> DEFAULT_START" "DEFAULT_START \<le> DEFAULT_END" "DEFAULT_END < max_ordinal"
  by code_simp+

lemma shops_ok: "sh \<in> snd ` set SHOPS \<Longrightarrow> shop_ok sh"
  using shop_ok_sap shop_ok_oracle shop_ok_salesforce by (auto simp: SHOPS_def)

lemma selected_shops_in: "selected_shops n = Some shs \<Longrightarrow> sh \<in> set shs \<Longrightarrow> sh \<in> snd ` set SHOPS"
  unfolding selected_shops_def by (auto split: if_splits dest: map_of_SomeD intro: rev_image_eqI)

lemma emap_all2:
  "(\<And>x. x \<in> set xs \<Longrightarrow> \<exists>y. f x = Inr y \<and> P x y) \<Longrightarrow> \<exists>ys. emap f xs = Inr ys \<and> list_all2 P xs ys"
proof (induction xs)
  case (Cons x xs)
  obtain y where "f x = Inr y" "P x y" using Cons.prems[of x] by auto
  moreover obtain ys where "emap f xs = Inr ys" "list_all2 P xs ys" using Cons.IH Cons.prems by force
  ultimately show ?case by simp
qed simp

definition detectable :: "cross_app_link \<Rightarrow> bool" where
  \<comment> \<open>two applications, with a gap inside the detector's window\<close>
  "detectable l = (mo_application_id (st_module (li_first l)) \<noteq> mo_application_id (st_module (li_then l)) \<and>
     0 \<le> fst (li_gap_minutes l) \<and> snd (li_gap_minutes l) \<le> 30)"

lemmas detectable_rules = detectable_def CrossAppLink_def Step_def Module_def

lemma links_sap: "l \<in> set CROSS_APP_sap \<Longrightarrow> detectable l"
  by (auto simp: CROSS_APP_sap_def detectable_rules LINK_1_sap_def LINK_2_sap_def LINK_3_sap_def LINK_4_sap_def
      CONCUR_TRAVEL_sap_def CONCUR_EXPENSE_sap_def ARIBA_BUYING_sap_def S4_MATERIALS_sap_def SF_RECRUITING_sap_def SF_EMPLOYEE_CENTRAL_sap_def CONCUR_INVOICE_sap_def S4_FINANCE_sap_def)

lemma links_oracle: "l \<in> set CROSS_APP_oracle \<Longrightarrow> detectable l"
  by (auto simp: CROSS_APP_oracle_def detectable_rules LINK_1_oracle_def LINK_2_oracle_def LINK_3_oracle_def LINK_4_oracle_def
      ERP_RECEIVABLES_oracle_def NS_ORDER_TO_CASH_oracle_def ERP_GL_oracle_def NS_FINANCIALS_oracle_def HCM_ABSENCE_oracle_def HCM_TALENT_oracle_def CX_SALES_oracle_def SCM_ORDER_MGMT_oracle_def)

lemma links_salesforce: "l \<in> set CROSS_APP_salesforce \<Longrightarrow> detectable l"
  by (auto simp: CROSS_APP_salesforce_def detectable_rules LINK_1_salesforce_def LINK_2_salesforce_def LINK_3_salesforce_def LINK_4_salesforce_def
      SALES_LEADS_salesforce_def SALES_OPPORTUNITIES_salesforce_def CPQ_QUOTES_salesforce_def SERVICE_CASES_salesforce_def SERVICE_KNOWLEDGE_salesforce_def SALES_FORECASTING_salesforce_def)

lemma links_detectable: "sh \<in> snd ` set SHOPS \<Longrightarrow> l \<in> set (sh_cross_app sh) \<Longrightarrow> detectable l"
  using links_sap links_oracle links_salesforce
  by (auto simp: SHOPS_def SHOP_sap_def SHOP_oracle_def SHOP_salesforce_def)

section \<open>Properties\<close>

text \<open>
  C38: whatever is drawn, the generators of the samples return. That of the shops does for every
  name the command line takes: one file per selected shop, whose events are all valid under the
  contract, belong to the shop's tenant and stand in order of time; any other name ends the
  program. That of the seed data gives such a list for every tenant the contract allows.
\<close>

theorem shops_generate_valid_events:
  "(n = ''all'' \<or> n \<in> fst ` set SHOPS \<longrightarrow>
     (\<exists>shs files. selected_shops n = Some shs \<and> shs \<noteq> [] \<and> run_generate world_of n = Some (Inr files) \<and>
        list_all2 (\<lambda>sh (k, events). k = sh_key sh \<and> (\<forall>e \<in> set events. shop_event sh e) \<and> in_time_order events) shs files)) \<and>
   (n \<noteq> ''all'' \<and> n \<notin> fst ` set SHOPS \<longrightarrow> run_generate world_of n = None) \<and>
   (contract_tenant tenant \<longrightarrow> (\<exists>events w'. generate_events tenant SEED_START SEED_END w = Inr (events, w') \<and>
      (\<forall>e \<in> set events. tenant_event tenant e) \<and> in_time_order events))"
proof (intro conjI impI)
  assume n: "n = ''all'' \<or> n \<in> fst ` set SHOPS"
  obtain shs where shs: "selected_shops n = Some shs" "shs \<noteq> []"
  proof (cases "n = ''all''")
    case True
    then show thesis using that by (simp add: selected_shops_def SHOPS_def)
  next
    case False
    then obtain sh where "map_of SHOPS n = Some sh" using n by (auto simp: map_of_eq_None_iff dest: weak_map_of_SomeI)
    then show thesis using that False by (simp add: selected_shops_def)
  qed
  let ?P = "\<lambda>sh (k, events). k = sh_key sh \<and> (\<forall>e \<in> set events. shop_event sh e) \<and> in_time_order events"
  have "\<exists>y. ebind (generate_shop_events sh DEFAULT_START DEFAULT_END (world_of sh)) (\<lambda>(events, w). Inr (sh_key sh, events)) = Inr y \<and>
      ?P sh y" if "sh \<in> set shs" for sh
  proof -
    note ok = shops_ok[OF selected_shops_in[OF shs(1) that]]
    obtain es w' where "generate_shop_events sh DEFAULT_START DEFAULT_END (world_of sh) = Inr (es, w')"
      "(\<forall>e \<in> set es. shop_event sh e) \<and> in_time_order es"
      using alwaysD[OF generate_shop_events_ok[OF ok default_dates]] by blast
    then show ?thesis by simp
  qed
  from emap_all2[of shs _ ?P, OF this] shs
  show "\<exists>shs files. selected_shops n = Some shs \<and> shs \<noteq> [] \<and> run_generate world_of n = Some (Inr files) \<and> list_all2 ?P shs files"
    by (auto simp: run_generate_def)
next
  assume "n \<noteq> ''all'' \<and> n \<notin> fst ` set SHOPS"
  then show "run_generate world_of n = None"
    by (simp add: run_generate_def selected_shops_def map_of_eq_None_iff)
next
  assume t: "contract_tenant tenant"
  have d: "2 \<le> SEED_START" "SEED_START \<le> SEED_END" "SEED_END < max_ordinal" by code_simp+
  show "\<exists>events w'. generate_events tenant SEED_START SEED_END w = Inr (events, w') \<and>
      (\<forall>e \<in> set events. tenant_event tenant e) \<and> in_time_order events"
    using alwaysD[OF generate_events_ok[OF t d]] by blast
qed

theorem shops_generate_valid_events_witness:
  "\<exists>files. run_generate (\<lambda>sh. \<lparr>draws = sconst 7, uuids = sconst 11, counters = []\<rparr>) ''oracle'' = Some (Inr files) \<and>
     length files = 1"
proof -
  let ?w = "\<lambda>sh :: shop. \<lparr>draws = sconst 7, uuids = sconst 11, counters = []\<rparr>"
  have k: "selected_shops ''oracle'' = Some [SHOP_oracle]" "''oracle'' \<in> fst ` set SHOPS"
    by (simp_all add: selected_shops_def SHOPS_def SHOP_sap_def SHOP_oracle_def SHOP_salesforce_def)
  obtain shs files where f: "selected_shops ''oracle'' = Some shs" "run_generate ?w ''oracle'' = Some (Inr files)"
    "list_all2 (\<lambda>sh (k, events). k = sh_key sh \<and> (\<forall>e \<in> set events. shop_event sh e) \<and> in_time_order events) shs files"
    using conjunct1[OF shops_generate_valid_events[of "''oracle''" ?w "''acme''" "?w SHOP_sap"]] k(2) by blast
  then show ?thesis using k(1) list_all2_lengthD[OF f(3)] by auto
qed

definition reads_back :: "(string \<times> json) list \<Rightarrow> history_row \<Rightarrow> bool" where
  \<comment> \<open>the row holds the application and the time of the event\<close>
  "reads_back e h = (map_of e ''applicationId'' = Some (JStr (h_applicationId h)) \<and>
     event_at e (dt_instant (h_eventTimestamp h)))"

lemma event_at_unique: "event_at e t \<Longrightarrow> event_at e t' \<Longrightarrow> t = t'"
proof -
  assume e: "event_at e t" "event_at e t'"
  then have "isoformat_utc (utc t) = isoformat_utc (utc t')" unfolding event_at_def by (metis json.inject(4) option.inject)
  then have "t \<le> t'" "t' \<le> t" using e unfolding event_at_def by (metis isoformat_utc_order order_refl)+
  then show ?thesis by simp
qed

lemma linked_pair_detected:
  assumes "linked_pair sh l [e, e']" "detectable l" "reads_back e h" "reads_back e' h'"
  shows "\<exists>g. cross_app_gap_minutes h h' = Some g \<and> of_int (fst (li_gap_minutes l)) \<le> g \<and> g \<le> of_int (snd (li_gap_minutes l))"
proof -
  obtain t t' where t: "event_at e t" "event_at e' t'" "made_by (li_persona l) (st_module (li_first l)) e"
    "made_by (li_persona l) (st_module (li_then l)) e'"
    "fst (li_gap_minutes l) * us_per_minute \<le> t' - t" "t' - t \<le> snd (li_gap_minutes l) * us_per_minute"
    using assms(1) unfolding linked_pair_def by blast
  have i: "dt_instant (h_eventTimestamp h) = t" "dt_instant (h_eventTimestamp h') = t'"
    using assms(3,4) event_at_unique t(1,2) unfolding reads_back_def by blast+
  have a: "h_applicationId h = mo_application_id (st_module (li_first l))"
    "h_applicationId h' = mo_application_id (st_module (li_then l))"
    using assms(3,4) t(3,4) by (simp_all add: reads_back_def made_by_def)
  let ?g = "of_int (t' - t) / 1000000 / 60 :: real"
  have m: "of_int (k * us_per_minute) = (of_int k * 60000000 :: real)" for k by (simp add: us_defs)
  have b: "of_int (fst (li_gap_minutes l)) \<le> ?g" "?g \<le> of_int (snd (li_gap_minutes l))"
    using of_int_le_iff[of "fst (li_gap_minutes l) * us_per_minute" "t' - t", where ?'a = real]
      of_int_le_iff[of "t' - t" "snd (li_gap_minutes l) * us_per_minute", where ?'a = real] t(5,6)
    unfolding m by simp_all
  have d: "0 \<le> ?g" "?g \<le> 30" using b assms(2) by (auto simp: detectable_def)
  have n: "h_applicationId h \<noteq> h_applicationId h'" using a assms(2) by (simp add: detectable_def)
  have g: "seconds_between (as_aware (h_eventTimestamp h)) (as_aware (h_eventTimestamp h')) / 60 = ?g"
    by (simp add: seconds_between_def i)
  have "cross_app_gap_minutes h h' = Some ?g"
    unfolding cross_app_gap_minutes_def Let_def g SEQUENCE_GAP_MINUTES_def using n d by simp
  then show ?thesis using b by blast
qed

text \<open>
  C39: on every date of the default range, every link of every shop gives two events, of which the
  engine's detector makes a transition from the first module to the second: the rows that carry
  their application and their time are at most a quarter of an hour apart in the right order, well
  inside the detector's window of thirty minutes.
\<close>

theorem links_are_detected:
  assumes "sh \<in> snd ` set SHOPS" "l \<in> set (sh_cross_app sh)" "DEFAULT_START \<le> day" "day \<le> DEFAULT_END"
  shows "\<exists>e e' w'. emit_pair sh l day w = Inr ([e, e'], w') \<and> shop_event sh e \<and> shop_event sh e' \<and>
    map_of e ''actor'' = map_of e' ''actor'' \<and>
    (\<forall>h h'. reads_back e h \<longrightarrow> reads_back e' h' \<longrightarrow> cross_app_gap_minutes h h' \<noteq> None)"
proof -
  have s: "contract_tenant (sh_tenant_id sh)" "link_ok l" using shops_ok[OF assms(1)] assms(2) by (simp_all add: shop_ok_def)
  have d: "inner_day day" using assms(3,4) default_dates by (simp add: inner_day_def)
  obtain es w' where p: "emit_pair sh l day w = Inr (es, w')" "linked_pair sh l es"
    using alwaysD[OF emit_pair_linked[OF s d]] by blast
  obtain e e' where e: "es = [e, e']" "shop_event sh e" "shop_event sh e'"
    "made_by (li_persona l) (st_module (li_first l)) e" "made_by (li_persona l) (st_module (li_then l)) e'"
    using p(2) unfolding linked_pair_def by blast
  have "cross_app_gap_minutes h h' \<noteq> None" if "reads_back e h" "reads_back e' h'" for h h'
    using linked_pair_detected[OF p(2)[unfolded e(1)] links_detectable[OF assms(1,2)] that] by auto
  then show ?thesis using p(1) e by (auto simp: made_by_def)
qed

theorem links_are_detected_witness:
  "\<exists>e e' w'. emit_pair SHOP_sap LINK_1_sap (DEFAULT_START + 7) \<lparr>draws = sconst 7, uuids = sconst 11, counters = []\<rparr>
     = Inr ([e, e'], w') \<and> map_of e ''actor'' = map_of e' ''actor''"
proof -
  have "SHOP_sap \<in> snd ` set SHOPS" "LINK_1_sap \<in> set (sh_cross_app SHOP_sap)"
    by (simp_all add: SHOPS_def SHOP_sap_def CROSS_APP_sap_def)
  moreover have "DEFAULT_START \<le> DEFAULT_START + 7" "DEFAULT_START + 7 \<le> DEFAULT_END" by code_simp+
  ultimately show ?thesis using links_are_detected by blast
qed

end
