(* ===== verification/LoaderRuns.thy ===== *)
theory LoaderRuns
  imports Loader Shops Sdk
begin

text \<open>
  The two subcommands of \<open>samples/shops/generate.py\<close> and of \<open>samples/data/seed_events.py\<close>:
  \<open>generate\<close> writes files of events, \<open>load\<close> reads them and posts them. A file is the JSON value
  its text encodes, or a text that is no JSON; the result of a load is what it prints.
\<close>

section \<open>Files\<close>

datatype content = JsonText json | OtherText

type_synonym files = "(string, content) pydict"

definition write_json :: "string \<Rightarrow> json \<Rightarrow> files \<Rightarrow> files" where
  \<comment> \<open>\<open>path.write_text(json.dumps(value))\<close>\<close>
  "write_json path value fs = AList.update path (JsonText value) fs"

definition read_json :: "files \<Rightarrow> string \<Rightarrow> py_error + json" where
  \<comment> \<open>\<open>json.loads(path.read_text())\<close>\<close>
  "read_json fs path = (case map_of fs path of
     None \<Rightarrow> Inl (FileNotFoundError path)
   | Some OtherText \<Rightarrow> Inl (ValueError ''invalid JSON'')
   | Some (JsonText j) \<Rightarrow> Inr j)"

definition text_key :: "json \<times> json \<Rightarrow> py_error + string \<times> json" where
  "text_key kv = (case kv of (JStr k, v) \<Rightarrow> Inr (k, v) | _ \<Rightarrow> Inl TypeError)"

definition event_dict :: "json \<Rightarrow> py_error + (string \<times> json) list" where
  \<comment> \<open>\<open>dict(event)\<close>; a list of pairs whose keys are not text is refused here\<close>
  "event_dict j = ebind (py_dict j) (emap text_key)"

definition parse_events :: "string \<Rightarrow> json \<Rightarrow> py_error + (string \<times> json) list list" where
  "parse_events path parsed = (case parsed of
     JList es \<Rightarrow> emap event_dict es
   | _ \<Rightarrow> Inl (ValueError (''expected a JSON list of events in '' @ path)))"

definition seed_read_events :: "files \<Rightarrow> string \<Rightarrow> py_error + (string \<times> json) list list" where
  "seed_read_events fs path = ebind (read_json fs path) (parse_events path)"

definition shop_read_events :: "files \<Rightarrow> string \<Rightarrow> py_error + (string \<times> json) list list" where
  "shop_read_events fs path =
     (if map_of fs path = None then Inl (SystemExit (path @ '' not found; run '' @ repr_str ''generate'' @ '' first''))
      else ebind (read_json fs path) (parse_events path))"

section \<open>The seed data\<close>

definition seed_run_generate :: "string \<Rightarrow> string \<Rightarrow> world \<Rightarrow> files \<Rightarrow> py_error + nat \<times> files" where
  \<comment> \<open>the number of events written\<close>
  "seed_run_generate out tenant w fs =
     ebind (generate_events tenant SEED_START SEED_END w) (\<lambda>(events, w').
     Inr (length events, write_json out (JList (map JObj events)) fs))"

definition seed_post_batches ::
  "('s \<Rightarrow> string \<Rightarrow> json \<Rightarrow> 's \<times> outcome) \<Rightarrow> 's \<Rightarrow> (string \<times> json) list list \<Rightarrow> string \<Rightarrow> 's \<times> (py_error + int \<times> int)" where
  "seed_post_batches post s events tenant = post_batches seed_count_batch_result post s (map JObj events) tenant"

definition seed_run_load ::
  "('s \<Rightarrow> string \<Rightarrow> json \<Rightarrow> 's \<times> outcome) \<Rightarrow> files \<Rightarrow> string \<Rightarrow> string \<Rightarrow> 's \<Rightarrow> 's \<times> (py_error + int \<times> int)" where
  "seed_run_load post fs infile tenant s = (case seed_read_events fs infile of
     Inl e \<Rightarrow> (s, Inl e)
   | Inr events \<Rightarrow> seed_post_batches post s (map (relabel tenant) events) tenant)"

section \<open>The shops\<close>

definition output_path :: "string \<Rightarrow> shop \<Rightarrow> string" where
  "output_path data_dir sh = data_dir @ ''/'' @ sh_key sh @ ''_events.json''"

fun generate_files :: "string \<Rightarrow> (shop \<Rightarrow> world) \<Rightarrow> shop list \<Rightarrow> files \<Rightarrow> files \<times> (py_error + (string \<times> nat) list)" where
  \<comment> \<open>an error leaves the files of the shops before it\<close>
  "generate_files data_dir world_of [] fs = (fs, Inr [])"
| "generate_files data_dir world_of (sh # shs) fs =
     (case generate_shop_events sh DEFAULT_START DEFAULT_END (world_of sh) of
        Inl e \<Rightarrow> (fs, Inl e)
      | Inr (events, w) \<Rightarrow>
          (let (fs', r) = generate_files data_dir world_of shs (write_json (output_path data_dir sh) (JList (map JObj events)) fs)
           in (fs', ebind r (\<lambda>ns. Inr ((sh_key sh, length events) # ns)))))"

definition unknown_shop :: "string \<Rightarrow> py_error" where
  "unknown_shop n = SystemExit (''unknown shop '' @ repr_str n @ ''; choose from all, '' @
     join '', '' (map fst SHOPS))"

definition shop_run_generate ::
  "string \<Rightarrow> (shop \<Rightarrow> world) \<Rightarrow> string \<Rightarrow> files \<Rightarrow> files \<times> (py_error + (string \<times> nat) list)" where
  "shop_run_generate data_dir world_of n fs = (case selected_shops n of
     None \<Rightarrow> (fs, Inl (unknown_shop n)) | Some shs \<Rightarrow> generate_files data_dir world_of shs fs)"

fun load_files ::
  "('s \<Rightarrow> string \<Rightarrow> json \<Rightarrow> 's \<times> outcome) \<Rightarrow> string \<Rightarrow> files \<Rightarrow> shop list \<Rightarrow> 's \<Rightarrow>
   's \<times> (py_error + (string \<times> int \<times> int) list)" where
  "load_files post data_dir fs [] s = (s, Inr [])"
| "load_files post data_dir fs (sh # shs) s = (case shop_read_events fs (output_path data_dir sh) of
     Inl e \<Rightarrow> (s, Inl e)
   | Inr events \<Rightarrow> (case post_batches shop_count_batch_result post s (map JObj events) (sh_tenant_id sh) of
        (s', Inl e) \<Rightarrow> (s', Inl e)
      | (s', Inr (succeeded, failed)) \<Rightarrow>
          (let (s'', r) = load_files post data_dir fs shs s'
           in (s'', ebind r (\<lambda>ls. Inr ((sh_key sh, succeeded, failed) # ls))))))"

definition shop_run_load ::
  "('s \<Rightarrow> string \<Rightarrow> json \<Rightarrow> 's \<times> outcome) \<Rightarrow> string \<Rightarrow> files \<Rightarrow> string \<Rightarrow> 's \<Rightarrow>
   's \<times> (py_error + (string \<times> int \<times> int) list)" where
  "shop_run_load post data_dir fs n s = (case selected_shops n of
     None \<Rightarrow> (s, Inl (unknown_shop n)) | Some shs \<Rightarrow> load_files post data_dir fs shs s)"

section \<open>What is written is what is read\<close>

lemma event_dict_JObj [simp]: "event_dict (JObj d) = Inr d"
proof -
  have "emap text_key (map (\<lambda>(k, v). (JStr k, v)) d) = (Inr d :: py_error + (string \<times> json) list)"
    by (induction d) (auto simp: text_key_def)
  then show ?thesis by (simp add: event_dict_def py_dict_def)
qed

lemma parse_events_list [simp]: "parse_events path (JList (map JObj es)) = Inr es"
proof -
  have "emap event_dict (map JObj es) = Inr es" by (induction es) simp_all
  then show ?thesis by (simp add: parse_events_def)
qed

lemma map_of_write [simp]: "map_of (write_json p v fs) q = (if q = p then Some (JsonText v) else map_of fs q)"
  by (simp add: write_json_def update_conv')

lemma read_events_file:
  assumes "map_of fs path = Some (JsonText (JList (map JObj es)))"
  shows "seed_read_events fs path = Inr es" "shop_read_events fs path = Inr es"
  using assms by (simp_all add: seed_read_events_def shop_read_events_def read_json_def)

lemma output_path_inj: "output_path dir sh = output_path dir sh' \<longleftrightarrow> sh_key sh = sh_key sh'"
  by (simp add: output_path_def)

lemma selected_keys: "selected_shops n = Some shs \<Longrightarrow> distinct (map sh_key shs) \<and> distinct (map sh_tenant_id shs)"
  by (auto simp: selected_shops_def SHOPS_def SHOP_sap_def SHOP_salesforce_def SHOP_oracle_def split: if_splits)

definition shop_events :: "(shop \<Rightarrow> world) \<Rightarrow> shop \<Rightarrow> py_error + string \<times> (string \<times> json) list list" where
  "shop_events world_of sh =
     ebind (generate_shop_events sh DEFAULT_START DEFAULT_END (world_of sh)) (\<lambda>(events, w). Inr (sh_key sh, events))"

lemma run_generate_events: "run_generate world_of n = map_option (emap (shop_events world_of)) (selected_shops n)"
  by (simp add: run_generate_def shop_events_def[abs_def])

lemma generate_files_read_back:
  assumes "emap (shop_events world_of) shs = Inr kes" "distinct (map sh_key shs)"
  shows "\<exists>fs'. generate_files dir world_of shs fs = (fs', Inr (map (\<lambda>(k, es). (k, length es)) kes)) \<and>
    list_all2 (\<lambda>sh (k, es). map_of fs' (output_path dir sh) = Some (JsonText (JList (map JObj es)))) shs kes \<and>
    (\<forall>q. q \<notin> output_path dir ` set shs \<longrightarrow> map_of fs' q = map_of fs q)"
  using assms
proof (induction shs arbitrary: kes fs)
  case (Cons sh shs)
  obtain ke kes' where ke: "shop_events world_of sh = Inr ke"
    and k': "emap (shop_events world_of) shs = Inr kes'" "kes = ke # kes'"
    using Cons.prems(1) by (auto simp: res_simps)
  obtain es w where g: "generate_shop_events sh DEFAULT_START DEFAULT_END (world_of sh) = Inr (es, w)"
    "ke = (sh_key sh, es)"
    using ke by (auto simp: shop_events_def res_simps)
  note k = k'[unfolded g(2)]
  let ?fs = "write_json (output_path dir sh) (JList (map JObj es)) fs"
  obtain fs' where f: "generate_files dir world_of shs ?fs = (fs', Inr (map (\<lambda>(k, es). (k, length es)) kes'))"
    "list_all2 (\<lambda>sh (k, es). map_of fs' (output_path dir sh) = Some (JsonText (JList (map JObj es)))) shs kes'"
    "\<forall>q. q \<notin> output_path dir ` set shs \<longrightarrow> map_of fs' q = map_of ?fs q"
    using Cons.IH[OF k(1), of ?fs] Cons.prems(2) by auto
  have "output_path dir sh \<notin> output_path dir ` set shs" using Cons.prems(2) by (auto simp: output_path_inj)
  then have own: "map_of fs' (output_path dir sh) = Some (JsonText (JList (map JObj es)))" using f(3) by simp
  show ?case using f g own by (intro exI[of _ fs']) (simp add: k(2))
qed simp

section \<open>Loading\<close>

definition loadable_files :: "app_config \<Rightarrow> pydatetime \<Rightarrow> app \<Rightarrow> shop list \<Rightarrow> (string \<times> json) list list list \<Rightarrow> bool" where
  \<comment> \<open>the files hold new valid events of their shops' tenants, no id twice, and their batches fit
    into what is left of each tenant's minute\<close>
  "loadable_files C now a shs ess = (list_all2 (\<lambda>sh es. sh_tenant_id sh \<noteq> [] \<and>
       loadable (c_validator C) now (the_store a) (sh_tenant_id sh) (map JObj es) \<and>
       int (charged_so_far C now (sh_tenant_id sh) a + (length es + 99) div 100) \<le> events_limit (app_limits C)) shs ess \<and>
     distinct (map id_of_event (map JObj (concat ess))))"

lemma loadable_stable:
  assumes "loadable V now s tenant es" "engine s' = engine s" "stored_ids s' = stored_ids s \<union> ids"
    "id_of_event ` set es \<inter> ids = {}"
  shows "loadable V now s' tenant es"
proof -
  have "time_accepted s' e = time_accepted s e" for e using assms(2) by (simp add: time_accepted_def)
  then show ?thesis using assms(1,3,4) by (auto simp: loadable_def)
qed

lemma loadable_files_rest:
  assumes l: "loadable_files C now a (sh # shs) (es # ess)" and d: "distinct (map sh_tenant_id (sh # shs))"
    and a: "engine (the_store a') = engine (the_store a)"
      "stored_ids (the_store a') = stored_ids (the_store a) \<union> id_of_event ` set (map JObj es)"
      "\<forall>t. t \<noteq> sh_tenant_id sh \<longrightarrow> charged_so_far C now t a' = charged_so_far C now t a"
  shows "loadable_files C now a' shs ess"
proof -
  have dis: "id_of_event ` set (map JObj es) \<inter> id_of_event ` set (map JObj (concat ess)) = {}"
    and dr: "distinct (map id_of_event (map JObj (concat ess)))"
    using l by (auto simp: loadable_files_def)
  have "list_all2 (\<lambda>sh es. sh_tenant_id sh \<noteq> [] \<and>
       loadable (c_validator C) now (the_store a) (sh_tenant_id sh) (map JObj es) \<and>
       int (charged_so_far C now (sh_tenant_id sh) a + (length es + 99) div 100) \<le> events_limit (app_limits C)) shs ess"
    using l by (simp add: loadable_files_def)
  then have "list_all2 (\<lambda>sh es. sh_tenant_id sh \<noteq> [] \<and>
       loadable (c_validator C) now (the_store a') (sh_tenant_id sh) (map JObj es) \<and>
       int (charged_so_far C now (sh_tenant_id sh) a' + (length es + 99) div 100) \<le> events_limit (app_limits C)) shs ess"
  proof (rule list.rel_mono_strong)
    fix sh' es' assume m: "sh' \<in> set shs" "es' \<in> set ess"
      and p: "sh_tenant_id sh' \<noteq> [] \<and> loadable (c_validator C) now (the_store a) (sh_tenant_id sh') (map JObj es') \<and>
        int (charged_so_far C now (sh_tenant_id sh') a + (length es' + 99) div 100) \<le> events_limit (app_limits C)"
    have t: "sh_tenant_id sh' \<noteq> sh_tenant_id sh" using d m(1) by (auto simp: image_iff)
    have "id_of_event ` set (map JObj es') \<inter> id_of_event ` set (map JObj es) = {}" using dis m(2) by auto
    then have "loadable (c_validator C) now (the_store a') (sh_tenant_id sh') (map JObj es')"
      using loadable_stable[OF _ a(1,2)] p by blast
    then show "sh_tenant_id sh' \<noteq> [] \<and> loadable (c_validator C) now (the_store a') (sh_tenant_id sh') (map JObj es') \<and>
        int (charged_so_far C now (sh_tenant_id sh') a' + (length es' + 99) div 100) \<le> events_limit (app_limits C)"
      using p a(3) t by simp
  qed
  then show ?thesis using dr by (simp add: loadable_files_def)
qed

definition holds_files :: "string \<Rightarrow> files \<Rightarrow> shop list \<Rightarrow> (string \<times> json) list list list \<Rightarrow> bool" where
  "holds_files dir fs = list_all2 (\<lambda>sh es. map_of fs (output_path dir sh) = Some (JsonText (JList (map JObj es))))"

lemma load_files_stores:
  assumes "store_ok (the_store a)" "validator_ok (c_validator C)" "holds_files dir fs shs ess"
    "loadable_files C now a shs ess" "distinct (map sh_tenant_id shs)"
  shows "\<exists>a'. load_files (engine_post C now i BATCH_PATH) dir fs shs a =
      (a', Inr (map2 (\<lambda>sh es. (sh_key sh, int (length es), 0)) shs ess)) \<and>
    store_ok (the_store a') \<and>
    stored_ids (the_store a') = stored_ids (the_store a) \<union> id_of_event ` set (map JObj (concat ess))"
  using assms
proof (induction shs arbitrary: ess a)
  case Nil
  then show ?case by (simp add: holds_files_def)
next
  case (Cons sh shs)
  obtain es ess' where e: "ess = es # ess'" "map_of fs (output_path dir sh) = Some (JsonText (JList (map JObj es)))"
    "holds_files dir fs shs ess'"
    using Cons.prems(3) by (auto simp: holds_files_def list_all2_Cons1)
  have l: "sh_tenant_id sh \<noteq> []" "loadable (c_validator C) now (the_store a) (sh_tenant_id sh) (map JObj es)"
    "int (charged_so_far C now (sh_tenant_id sh) a + (length (map JObj es) + 99) div 100) \<le> events_limit (app_limits C)"
    using Cons.prems(4) by (simp_all add: e(1) loadable_files_def)
  obtain a1 where a1: "post_batches shop_count_batch_result (engine_post C now i BATCH_PATH) a (map JObj es) (sh_tenant_id sh) =
      (a1, Inr (int (length es), 0))" "store_ok (the_store a1)"
    "stored_ids (the_store a1) = stored_ids (the_store a) \<union> id_of_event ` set (map JObj es)"
    "engine (the_store a1) = engine (the_store a)"
    "\<forall>t. t \<noteq> sh_tenant_id sh \<longrightarrow> charged_so_far C now t a1 = charged_so_far C now t a"
    using post_batches_stores[OF Cons.prems(1,2) l, of i] by auto
  have r: "loadable_files C now a1 shs ess'"
    by (rule loadable_files_rest[OF _ Cons.prems(5) a1(4,3,5)]) (use Cons.prems(4) e(1) in simp)
  obtain a' where "load_files (engine_post C now i BATCH_PATH) dir fs shs a1 =
      (a', Inr (map2 (\<lambda>sh es. (sh_key sh, int (length es), 0)) shs ess'))" "store_ok (the_store a')"
    "stored_ids (the_store a') = stored_ids (the_store a1) \<union> id_of_event ` set (map JObj (concat ess'))"
    using Cons.IH[OF a1(2) Cons.prems(2) e(3) r] Cons.prems(5) by auto
  then show ?case using a1 read_events_file(2)[OF e(2)]
    by (intro exI[of _ a']) (auto simp: e(1) image_Un)
qed

lemma update_same: "map_of d k = Some v \<Longrightarrow> AList.update k v d = d"
  by (induction d) (auto split: if_splits)

lemma relabel_own:
  assumes "loadable V now s tenant (map JObj es)"
  shows "map (relabel tenant) es = es"
proof -
  have "relabel tenant e = e" if "e \<in> set es" for e
  proof -
    have "event_tenant (JObj e) = Some (JStr tenant)" using assms that by (auto simp: loadable_def)
    then have "map_of e ''tenantId'' = Some (JStr tenant)"
      by (auto simp: event_tenant_def split: if_splits option.splits)
    then show ?thesis by (simp add: relabel_def update_same)
  qed
  then show ?thesis by (simp add: map_idI)
qed

lemma seed_load_stores:
  assumes "store_ok (the_store a)" "validator_ok (c_validator C)" "tenant \<noteq> []"
    "map_of fs path = Some (JsonText (JList (map JObj es)))" "loadable (c_validator C) now (the_store a) tenant (map JObj es)"
    "int (charged_so_far C now tenant a + (length es + 99) div 100) \<le> events_limit (app_limits C)"
  shows "\<exists>a'. seed_run_load (engine_post C now i BATCH_PATH) fs path tenant a = (a', Inr (0, int (length es))) \<and>
    store_ok (the_store a') \<and> stored_ids (the_store a') = stored_ids (the_store a) \<union> id_of_event ` set (map JObj es)"
  using post_batches_stores[OF assms(1-3,5), of i] assms(6)
  by (auto simp: seed_run_load_def read_events_file(1)[OF assms(4)] seed_post_batches_def relabel_own[OF assms(5)])

lemma shop_events_total:
  assumes "selected_shops n = Some shs"
  shows "\<exists>kes. emap (shop_events world_of) shs = Inr kes"
proof -
  have "\<exists>y. shop_events world_of sh = Inr y \<and> True" if "sh \<in> set shs" for sh
  proof -
    note ok = shops_ok[OF selected_shops_in[OF assms that]]
    obtain es w' where "generate_shop_events sh DEFAULT_START DEFAULT_END (world_of sh) = Inr (es, w')"
      using alwaysD[OF generate_shop_events_ok[OF ok default_dates]] by blast
    then show ?thesis by (simp add: shop_events_def)
  qed
  from emap_all2[of shs "shop_events world_of" "\<lambda>x y. True", OF this] show ?thesis by blast
qed

lemma generated_files_hold:
  assumes "selected_shops n = Some shs"
  shows "\<exists>kes fs'. run_generate world_of n = Some (Inr kes) \<and>
    shop_run_generate dir world_of n fs = (fs', Inr (map (\<lambda>(k, es). (k, length es)) kes)) \<and>
    holds_files dir fs' shs (map snd kes)"
proof -
  obtain kes where k: "emap (shop_events world_of) shs = Inr kes" using shop_events_total[OF assms] by blast
  have "distinct (map sh_key shs)" using selected_keys[OF assms] by blast
  then obtain fs' where f: "generate_files dir world_of shs fs = (fs', Inr (map (\<lambda>(k, es). (k, length es)) kes))"
    "list_all2 (\<lambda>sh (k, es). map_of fs' (output_path dir sh) = Some (JsonText (JList (map JObj es)))) shs kes"
    using generate_files_read_back[OF k, of dir fs] by blast
  have "holds_files dir fs' shs (map snd kes)"
    using f(2) by (simp add: holds_files_def list.rel_map case_prod_unfold)
  then show ?thesis using k f(1) assms by (auto simp: run_generate_events shop_run_generate_def)
qed

section \<open>Properties\<close>

text \<open>
  C40: the load command of the shops, over files of new valid events of the selected shops with
  distinct ids and within the tenants' limits of the minute, stores every event of every file and
  reports each file as succeeded. The loader of the seed data, given any of these files, stores it
  too, but looks for a status that starts with a 2 where the engine says accepted, and reports all
  of it as failed. The files are those the generate command leaves: whatever is drawn, it writes
  for each selected shop the events it counts, and they are what the load command reads.
\<close>

theorem loaders_store_all:
  assumes "store_ok (the_store a)" "validator_ok (c_validator C)" "selected_shops n = Some shs"
    "holds_files dir fs shs ess" "loadable_files C now a shs ess"
  shows "(\<exists>a'. shop_run_load (engine_post C now i BATCH_PATH) dir fs n a =
        (a', Inr (map2 (\<lambda>sh es. (sh_key sh, int (length es), 0)) shs ess)) \<and> store_ok (the_store a') \<and>
      stored_ids (the_store a') = stored_ids (the_store a) \<union> id_of_event ` set (map JObj (concat ess))) \<and>
    list_all2 (\<lambda>sh es. \<exists>a'. seed_run_load (engine_post C now i BATCH_PATH) fs (output_path dir sh) (sh_tenant_id sh) a =
        (a', Inr (0, int (length es))) \<and> store_ok (the_store a') \<and>
      stored_ids (the_store a') = stored_ids (the_store a) \<union> id_of_event ` set (map JObj es)) shs ess \<and>
    (\<exists>kes fs'. run_generate world_of n = Some (Inr kes) \<and>
      shop_run_generate dir world_of n fs = (fs', Inr (map (\<lambda>(k, es). (k, length es)) kes)) \<and>
      holds_files dir fs' shs (map snd kes))"
proof -
  have t: "distinct (map sh_tenant_id shs)" using selected_keys[OF assms(3)] by blast
  have f: "list_all2 (\<lambda>sh es. map_of fs (output_path dir sh) = Some (JsonText (JList (map JObj es)))) shs ess"
    using assms(4) by (simp add: holds_files_def)
  have l: "list_all2 (\<lambda>sh es. sh_tenant_id sh \<noteq> [] \<and>
       loadable (c_validator C) now (the_store a) (sh_tenant_id sh) (map JObj es) \<and>
       int (charged_so_far C now (sh_tenant_id sh) a + (length es + 99) div 100) \<le> events_limit (app_limits C)) shs ess"
    using assms(5) by (simp add: loadable_files_def)
  have "list_all2 (\<lambda>sh es. \<exists>a'. seed_run_load (engine_post C now i BATCH_PATH) fs (output_path dir sh) (sh_tenant_id sh) a =
        (a', Inr (0, int (length es))) \<and> store_ok (the_store a') \<and>
      stored_ids (the_store a') = stored_ids (the_store a) \<union> id_of_event ` set (map JObj es)) shs ess"
    using f l seed_load_stores[OF assms(1,2)] unfolding list_all2_conv_all_nth by blast
  moreover have "\<exists>a'. shop_run_load (engine_post C now i BATCH_PATH) dir fs n a =
        (a', Inr (map2 (\<lambda>sh es. (sh_key sh, int (length es), 0)) shs ess)) \<and> store_ok (the_store a') \<and>
      stored_ids (the_store a') = stored_ids (the_store a) \<union> id_of_event ` set (map JObj (concat ess))"
    using load_files_stores[OF assms(1,2,4,5) t, of i] assms(3) by (simp add: shop_run_load_def)
  ultimately show ?thesis using generated_files_hold[OF assms(3)] by blast
qed

definition sample_sap_event :: "(string \<times> json) list" where
  "sample_sap_event = relabel ''globex-industries'' sample_event"

theorem loaders_store_all_witness:
  "\<exists>a'. shop_run_load (engine_post sample_config sample_now ''r1'' BATCH_PATH) ''data''
      [(output_path ''data'' SHOP_sap, JsonText (JList [JObj sample_sap_event]))] ''sap''
      (sample_app\<lparr>a_ingest := \<lparr>i_store = empty_store, i_count = 0\<rparr>\<rparr>) = (a', Inr [(''sap'', 1, 0)]) \<and>
    stored_ids (the_store a') = {''e1''}"
proof -
  let ?a = "sample_app\<lparr>a_ingest := \<lparr>i_store = empty_store, i_count = 0\<rparr>\<rparr>" and ?e = "JObj sample_sap_event"
  let ?fs = "[(output_path ''data'' SHOP_sap, JsonText (JList [?e]))]"
  have i: "id_of_event ?e = ''e1''" by code_simp
  have p: "event_params ?e = Inr (''globex-industries'', sample_params)" by code_simp
  have t: "time_accepted empty_store ?e" by (simp add: time_accepted_def p)
  have s: "valid event_schema ?e" by code_simp
  have raw: "map_of sample_sap_event ''eventTimestamp'' = Some (JStr ''2026-08-01T09:00:00Z'')" by code_simp
  have ts: "fromisoformat (zulu_offset ''2026-08-01T09:00:00Z'') = Some (utc 1785574800000000)" by code_simp
  have "validate sample_validator sample_now ?e = Inr ()"
    using validate_iff[OF sample_validator_ok raw ts] s
    by (simp add: sample_now_def sample_validator_def)
  then have v: "verdict sample_validator sample_now ?e = None" by (simp add: verdict_def)
  have e: "event_tenant ?e = Some (JStr ''globex-industries'')" by code_simp
  have n: "sh_tenant_id SHOP_sap = ''globex-industries''" "sh_key SHOP_sap = ''sap''" by (simp_all add: SHOP_sap_def)
  have sel: "selected_shops ''sap'' = Some [SHOP_sap]"
    by (simp add: selected_shops_def SHOPS_def n(2))
  have st: "the_store ?a = empty_store" by simp
  have l: "loadable_files sample_config sample_now ?a [SHOP_sap] [[sample_sap_event]]"
    using i t v e n(1) by (simp add: loadable_files_def loadable_def charged_so_far_def sample_app_def counter_get_def
        app_limits_def default_settings_def) (simp add: the_store_def)
  have h: "holds_files ''data'' ?fs [SHOP_sap] [[sample_sap_event]]" by (simp add: holds_files_def)
  show ?thesis
    using conjunct1[OF loaders_store_all[OF _ _ sel h l, of "''r1''" undefined]] i n(2) by auto
qed

end
