(* ===== verification/TaskTracker.thy ===== *)
theory TaskTracker
  imports SdkDelivery Clocked
begin

text \<open>
  \<open>samples/task-tracker/app.py\<close>: tasks in memory, and three handlers that mirror every action
  into the engine through the client of the SDK. The state is the tasks and whatever the client's
  connection leads to.
\<close>

section \<open>The tasks\<close>

record task =
  tk_task_id :: string
  tk_title :: string
  tk_status :: string
  tk_assignee_id :: "string option"

record task_store =
  ts_tasks :: "(string, task) pydict"
  ts_next_id :: nat

definition empty_task_store :: task_store where
  "empty_task_store = \<lparr>ts_tasks = [], ts_next_id = 1\<rparr>"

definition new_task :: "task_store \<Rightarrow> string \<Rightarrow> task_store \<times> task" where
  "new_task st title = (let i = ''TASK-'' @ show_nat (ts_next_id st);
       t = \<lparr>tk_task_id = i, tk_title = title, tk_status = ''open'', tk_assignee_id = None\<rparr>
     in (st\<lparr>ts_tasks := AList.update i t (ts_tasks st), ts_next_id := ts_next_id st + 1\<rparr>, t))"

definition get_task :: "task_store \<Rightarrow> string \<Rightarrow> py_error + task" where
  "get_task st task_id = (case map_of (ts_tasks st) task_id of
     None \<Rightarrow> Inl (HTTPException 404 ''task not found'') | Some t \<Rightarrow> Inr t)"

definition put_task :: "task \<Rightarrow> task_store \<Rightarrow> task_store" where
  \<comment> \<open>an assignment to an attribute of the task under its id\<close>
  "put_task t st = st\<lparr>ts_tasks := AList.update (tk_task_id t) t (ts_tasks st)\<rparr>"

section \<open>The mirror\<close>

definition TRACKER_ID :: string where
  "TRACKER_ID = ''task-tracker''"

definition TRACKER_INSTANCE_ID :: string where
  "TRACKER_INSTANCE_ID = ''task-tracker-local''"

definition TRACKER_CONNECTOR :: string where
  "TRACKER_CONNECTOR = ''native-sdk''"

definition TRACKER_CONNECTOR_VERSION :: string where
  "TRACKER_CONNECTOR_VERSION = ''0.1.0''"

definition task_event :: "string \<Rightarrow> string \<Rightarrow> string \<Rightarrow> string \<Rightarrow> task \<Rightarrow> (string \<times> json) list" where
  "task_event tenant actor_id action_type category t =
     [(''tenantId'', JStr tenant), (''applicationId'', JStr TRACKER_ID), (''applicationInstanceId'', JStr TRACKER_INSTANCE_ID),
      (''environment'', JStr ''production''),
      (''actor'', JObj [(''nativeUserId'', JStr actor_id), (''userIdType'', JStr ''email'')]),
      (''action'', JObj [(''type'', JStr action_type), (''category'', JStr category)]),
      (''object'', JObj [(''objectType'', JStr ''task''), (''objectId'', JStr (tk_task_id t)),
         (''objectDetails'', JObj [(''title'', JStr (tk_title t)), (''status'', JStr (tk_status t))])]),
      (''source'', JObj [(''connector'', JStr TRACKER_CONNECTOR), (''connectorVersion'', JStr TRACKER_CONNECTOR_VERSION)])]"

type_synonym 's connection = "'s \<Rightarrow> string \<Rightarrow> json \<Rightarrow> 's \<times> outcome"

definition emit_task_event ::
  "'s connection \<Rightarrow> string \<Rightarrow> string \<Rightarrow> pydatetime \<Rightarrow> 's \<Rightarrow> string \<Rightarrow> string \<Rightarrow> string \<Rightarrow> task \<Rightarrow> 's \<times> (py_error + unit)" where
  "emit_task_event post tenant fresh_id now s actor_id action_type category t =
     (let (s', pauses, r) = emit post DEFAULT_MAX_RETRIES fresh_id now s (task_event tenant actor_id action_type category t)
      in (s', ebind r (\<lambda>_. Inr ())))"

section \<open>The handlers\<close>

definition create_task ::
  "'s connection \<Rightarrow> string \<Rightarrow> string \<Rightarrow> pydatetime \<Rightarrow> task_store \<times> 's \<Rightarrow> string \<Rightarrow> string \<Rightarrow>
   (task_store \<times> 's) \<times> (py_error + json response)" where
  "create_task post tenant fresh_id now x title creator_id = (case x of (st, s) \<Rightarrow>
     let (st', t) = new_task st title; (s', r) = emit_task_event post tenant fresh_id now s creator_id ''create_task'' ''create'' t
     in ((st', s'), ebind r (\<lambda>_. Inr (json_response 201
          (JObj [(''taskId'', JStr (tk_task_id t)), (''status'', JStr (tk_status t))])))))"

definition update_task_status ::
  "'s connection \<Rightarrow> string \<Rightarrow> string \<Rightarrow> pydatetime \<Rightarrow> task_store \<times> 's \<Rightarrow> string \<Rightarrow> string \<Rightarrow> string \<Rightarrow>
   (task_store \<times> 's) \<times> (py_error + json response)" where
  "update_task_status post tenant fresh_id now x task_id status actor_id = (case x of (st, s) \<Rightarrow>
     (case get_task st task_id of
        Inl e \<Rightarrow> ((st, s), Inl e)
      | Inr t0 \<Rightarrow>
          let t = t0\<lparr>tk_status := status\<rparr>;
              (s', r) = emit_task_event post tenant fresh_id now s actor_id ''update_task_status'' ''update'' t
          in ((put_task t st, s'), ebind r (\<lambda>_. Inr (json_response 200
               (JObj [(''taskId'', JStr (tk_task_id t)), (''status'', JStr (tk_status t))]))))))"

definition assign_task ::
  "'s connection \<Rightarrow> string \<Rightarrow> string \<Rightarrow> pydatetime \<Rightarrow> task_store \<times> 's \<Rightarrow> string \<Rightarrow> string \<Rightarrow> string \<Rightarrow>
   (task_store \<times> 's) \<times> (py_error + json response)" where
  "assign_task post tenant fresh_id now x task_id assignee_id actor_id = (case x of (st, s) \<Rightarrow>
     (case get_task st task_id of
        Inl e \<Rightarrow> ((st, s), Inl e)
      | Inr t0 \<Rightarrow>
          let t = t0\<lparr>tk_assignee_id := Some assignee_id\<rparr>;
              (s', r) = emit_task_event post tenant fresh_id now s actor_id ''assign_task'' ''update'' t
          in ((put_task t st, s'), ebind r (\<lambda>_. Inr (json_response 200
               (JObj [(''taskId'', JStr (tk_task_id t)), (''assigneeId'', JStr assignee_id)]))))))"

section \<open>The invariant of the tasks\<close>

definition tasks_ok :: "task_store \<Rightarrow> bool" where
  \<comment> \<open>every task stands under its own id, and ids are those handed out\<close>
  "tasks_ok st = (distinct (map fst (ts_tasks st)) \<and>
     (\<forall>(i, t) \<in> set (ts_tasks st). tk_task_id t = i \<and> (\<exists>n < ts_next_id st. i = ''TASK-'' @ show_nat n)))"

lemma tasks_ok_empty [simp]: "tasks_ok empty_task_store"
  by (simp add: tasks_ok_def empty_task_store_def)

lemma in_update: "(k, v) \<in> set (AList.update i x d) \<Longrightarrow> (k, v) = (i, x) \<or> (k, v) \<in> set d"
  by (induction d) (auto split: if_splits)

lemma new_task_ok:
  assumes "tasks_ok st" "new_task st title = (st', t)"
  shows "tasks_ok st'" "map_of (ts_tasks st) (tk_task_id t) = None"
    "\<And>i. get_task st' i = (if i = tk_task_id t then Inr t else get_task st i)" "tk_title t = title" "tk_status t = ''open''"
proof -
  let ?i = "''TASK-'' @ show_nat (ts_next_id st)"
  have t: "t = \<lparr>tk_task_id = ?i, tk_title = title, tk_status = ''open'', tk_assignee_id = None\<rparr>"
    and st': "st' = st\<lparr>ts_tasks := AList.update ?i t (ts_tasks st), ts_next_id := ts_next_id st + 1\<rparr>"
    using assms(2) by (auto simp: new_task_def Let_def)
  have i: "?i \<notin> fst ` set (ts_tasks st)"
    using assms(1) by (force simp: tasks_ok_def dest: show_nat_inj[THEN iffD1])
  then show n: "map_of (ts_tasks st) (tk_task_id t) = None" by (simp add: t map_of_eq_None_iff)
  have "tk_task_id y = k \<and> (\<exists>n < ts_next_id st'. k = ''TASK-'' @ show_nat n)" if "(k, y) \<in> set (ts_tasks st')" for k y
  proof -
    consider "(k, y) = (?i, t)" | "(k, y) \<in> set (ts_tasks st)" using in_update[of k y ?i t "ts_tasks st"] \<open>(k, y) \<in> set (ts_tasks st')\<close> by (auto simp: st')
    then show ?thesis
    proof cases
      case 2
      then obtain n where "n < ts_next_id st" "k = ''TASK-'' @ show_nat n" "tk_task_id y = k"
        using assms(1) by (auto simp: tasks_ok_def)
      then show ?thesis by (auto simp: st' intro: less_SucI)
    qed (auto simp: st' t)
  qed
  moreover have "distinct (map fst (ts_tasks st'))" using assms(1) by (simp add: st' tasks_ok_def distinct_update)
  ultimately show "tasks_ok st'" by (auto simp: tasks_ok_def)
  show "get_task st' i = (if i = tk_task_id t then Inr t else get_task st i)" for i
    by (simp add: get_task_def st' t update_conv')
qed (use assms(2) in \<open>auto simp: new_task_def Let_def\<close>)

lemma put_task_ok:
  assumes "tasks_ok st" "get_task st i = Inr t0" "tk_task_id t = tk_task_id t0"
  shows "tasks_ok (put_task t st)" "\<And>k. get_task (put_task t st) k = (if k = i then Inr t else get_task st k)"
proof -
  have m: "(i, t0) \<in> set (ts_tasks st)" using assms(2) by (auto simp: get_task_def split: option.splits dest: map_of_SomeD)
  then have i: "tk_task_id t = i" and n: "\<exists>n < ts_next_id st. i = ''TASK-'' @ show_nat n"
    using assms(1,3) by (auto simp: tasks_ok_def)
  have "tk_task_id y = k \<and> (\<exists>n < ts_next_id st. k = ''TASK-'' @ show_nat n)"
    if "(k, y) \<in> set (AList.update i t (ts_tasks st))" for k y
    using in_update[OF that] i n assms(1) by (auto simp: tasks_ok_def)
  then show "tasks_ok (put_task t st)" using assms(1) i by (auto simp: tasks_ok_def put_task_def distinct_update)
  show "get_task (put_task t st) k = (if k = i then Inr t else get_task st k)" for k
    by (simp add: get_task_def put_task_def i update_conv')
qed

text \<open>Every handler keeps the invariant, whatever the connection does.\<close>

lemma handlers_keep_tasks:
  assumes "tasks_ok st"
  shows "tasks_ok (fst (fst (create_task post tenant i now (st, s) title creator)))"
    "tasks_ok (fst (fst (update_task_status post tenant i now (st, s) task_id status actor)))"
    "tasks_ok (fst (fst (assign_task post tenant i now (st, s) task_id assignee actor)))"
  using assms new_task_ok(1)[OF assms] put_task_ok(1)[OF assms]
  by (auto simp: create_task_def update_task_status_def assign_task_def Let_def split: prod.split sum.split)

section \<open>What is mirrored\<close>

lemma valid_sdk_fields:
  assumes "contract_tenant tenant" "app \<noteq> []" "inst \<noteq> []" "env \<in> set environments" "valid actor_schema actor"
    "valid action_schema action" "valid object_ref_schema obj" "valid source_schema source"
  shows "valid event_schema (JObj
    [(''tenantId'', JStr tenant), (''applicationId'', JStr app), (''applicationInstanceId'', JStr inst),
     (''environment'', JStr env), (''actor'', actor), (''action'', action), (''object'', obj), (''source'', source),
     (''schemaVersion'', JStr ''1.0.0''), (''eventId'', JStr i), (''eventTimestamp'', JStr ts)])"
  unfolding event_schema_def valid_object_schema event_required_def
  using assms by auto

lemma task_event_valid:
  assumes "contract_tenant tenant" "actor \<noteq> []" "action \<noteq> []" "category \<in> set action_categories" "tk_task_id t \<noteq> []"
  shows "valid event_schema (JObj (prepare_event i now (task_event tenant actor action category t)))"
proof -
  have p: "prepare_event i now (task_event tenant actor action category t) = task_event tenant actor action category t @
      [(''schemaVersion'', JStr ''1.0.0''), (''eventId'', JStr i), (''eventTimestamp'', JStr (isoformat_utc now))]"
    by (simp add: prepare_event_def task_event_def dict_setdefault_def)
  have e: "''email'' \<in> set user_id_types" "''production'' \<in> set environments" by code_simp+
  have n: "TRACKER_ID \<noteq> []" "TRACKER_INSTANCE_ID \<noteq> []" "TRACKER_CONNECTOR \<noteq> []" "TRACKER_CONNECTOR_VERSION \<noteq> []" "''task'' \<noteq> []"
    by (simp_all add: TRACKER_ID_def TRACKER_INSTANCE_ID_def TRACKER_CONNECTOR_def TRACKER_CONNECTOR_VERSION_def)
  show ?thesis
    unfolding p unfolding task_event_def append_Cons append_Nil
    by (rule valid_sdk_fields[OF assms(1) n(1,2) e(2) valid_actor_plain[OF assms(2) e(1)] valid_action_plain[OF assms(3,4)]
      valid_object_details[OF n(5) assms(5)] valid_source_plain[OF n(3,4)]])
qed

section \<open>What the engine makes of the mirrored event\<close>

lemma task_event_lookup:
  "map_of (prepare_event i sent (task_event tenant actor action category t)) ''eventTimestamp'' = Some (JStr (isoformat_utc sent))"
  "map_of (prepare_event i sent (task_event tenant actor action category t)) ''eventId'' = Some (JStr i)"
  by (simp_all add: prepare_event_lookup) (simp_all add: task_event_def)

lemma task_event_time_accepted:
  assumes "cypher_datetime (engine s) (isoformat_utc sent) \<noteq> None"
  shows "time_accepted s (JObj (prepare_event i sent (task_event tenant actor action category t)))"
  unfolding time_accepted_def
proof (intro allI impI)
  fix tn p assume "event_params (JObj (prepare_event i sent (task_event tenant actor action category t))) = Inr (tn, p)"
  then have "req_str ''eventTimestamp'' (JObj (prepare_event i sent (task_event tenant actor action category t)))
      = Inr (p_eventTimestamp p)" by (rule event_params_time)
  then have "p_eventTimestamp p = isoformat_utc sent"
    using req_str_get task_event_lookup(1)[of i sent tenant actor action category t] by (fastforce simp: py_get_def dget_def)
  then show "cypher_datetime (engine s) (p_eventTimestamp p) \<noteq> None" using assms by simp
qed

text \<open>
  One action of a task, mirrored over a connection that loses at most three requests or replies:
  its event is stored exactly once, under the id the client drew.
\<close>

definition mirror_ready :: "store ingest \<Rightarrow> validator \<Rightarrow> pydatetime \<Rightarrow> string \<Rightarrow> string \<Rightarrow> pydatetime \<Rightarrow> bool" where
  \<comment> \<open>the engine is up, its clock and the tracker's agree within the skew, and the id is fresh\<close>
  "mirror_ready st V now tenant i sent = (store_ok (i_store st) \<and> validator_ok V \<and> contract_tenant tenant \<and>
     in_calendar (dt_instant sent) \<and> dt_instant sent - dt_instant now \<le> max_future_seconds V * 1000000 \<and>
     cypher_datetime (engine (i_store st)) (isoformat_utc sent) \<noteq> None \<and> i \<notin> stored_ids (i_store st))"

definition gets_through :: "nat \<Rightarrow> fate list \<Rightarrow> bool" where
  \<comment> \<open>the first k attempts are lost and the next one is not\<close>
  "gets_through k fs = (k \<le> 3 \<and> k \<le> length fs \<and> Delivered \<notin> set (take k fs) \<and> (k < length fs \<longrightarrow> fs ! k = Delivered))"

lemma emit_task_event_mirrors:
  assumes r: "mirror_ready st V now tenant i sent" and k: "gets_through k fs"
    and e: "actor \<noteq> []" "action \<noteq> []" "category \<in> set action_categories" "tk_task_id t \<noteq> []"
  shows "\<exists>st'. emit_task_event (lossy_ingest V now rid) tenant i sent (fs, st) actor action category t =
      ((drop (Suc k) fs, st'), Inr ()) \<and>
    store_ok (i_store st') \<and> stored_ids (i_store st') = insert i (stored_ids (i_store st)) \<and> i_count st' = i_count st + 1"
proof -
  let ?e = "prepare_event i sent (task_event tenant actor action category t)"
  note r' = r[unfolded mirror_ready_def]
  have b: "int k \<le> 3" "(3::int) \<le> 3" using k by (simp_all add: gets_through_def)
  have v: "validate V now (JObj ?e) = Inr ()"
    using r' e by (intro validate_stamped[OF _ _ task_event_lookup(1)] task_event_valid) simp_all
  have ta: "time_accepted (i_store st) (JObj ?e)" using r' by (intro task_event_time_accepted) simp
  have id: "id_of_event (JObj ?e) = i" using task_event_lookup(2) by (simp add: id_of_event_def dget_def)
  obtain st' x where "emit (lossy_ingest V now rid) 3 i sent (fs, st) (task_event tenant actor action category t) =
      ((drop (Suc k) fs, st'), take k BACKOFF_SECONDS, Inr x)" "store_ok (i_store st')"
    "stored_ids (i_store st') = insert i (stored_ids (i_store st))" "i_count st' = i_count st + 1"
    using emit_delivered_once[where fs = fs and rid = rid, OF _ _ v ta _ _ _ _ b] k r' unfolding id gets_through_def by blast
  then show ?thesis by (simp add: emit_task_event_def DEFAULT_MAX_RETRIES_def)
qed

section \<open>Requests\<close>

datatype task_request =
    NewTask string string
  | SetStatus string string string
  | AssignTo string string string

fun handle_task ::
  "'s connection \<Rightarrow> string \<Rightarrow> string \<Rightarrow> pydatetime \<Rightarrow> task_request \<Rightarrow> task_store \<times> 's \<Rightarrow>
   (task_store \<times> 's) \<times> (py_error + json response)" where
  \<comment> \<open>the routes of the application\<close>
  "handle_task post tenant i now (NewTask title creator) x = create_task post tenant i now x title creator"
| "handle_task post tenant i now (SetStatus task_id status actor) x = update_task_status post tenant i now x task_id status actor"
| "handle_task post tenant i now (AssignTo task_id assignee actor) x = assign_task post tenant i now x task_id assignee actor"

fun acting_user :: "task_request \<Rightarrow> string" where
  "acting_user (NewTask title creator) = creator"
| "acting_user (SetStatus task_id status actor) = actor"
| "acting_user (AssignTo task_id assignee actor) = actor"

fun task_after :: "task_request \<Rightarrow> task_store \<Rightarrow> task option" where
  \<comment> \<open>the task of the request as it leaves it; none when no such task exists\<close>
  "task_after (NewTask title creator) st = Some \<lparr>tk_task_id = ''TASK-'' @ show_nat (ts_next_id st), tk_title = title,
     tk_status = ''open'', tk_assignee_id = None\<rparr>"
| "task_after (SetStatus task_id status actor) st = map_option (\<lambda>t. t\<lparr>tk_status := status\<rparr>) (map_of (ts_tasks st) task_id)"
| "task_after (AssignTo task_id assignee actor) st =
     map_option (\<lambda>t. t\<lparr>tk_assignee_id := Some assignee\<rparr>) (map_of (ts_tasks st) task_id)"

fun task_answer :: "task_request \<Rightarrow> task \<Rightarrow> json response" where
  "task_answer (NewTask title creator) t =
     json_response 201 (JObj [(''taskId'', JStr (tk_task_id t)), (''status'', JStr ''open'')])"
| "task_answer (SetStatus task_id status actor) t =
     json_response 200 (JObj [(''taskId'', JStr task_id), (''status'', JStr status)])"
| "task_answer (AssignTo task_id assignee actor) t =
     json_response 200 (JObj [(''taskId'', JStr task_id), (''assigneeId'', JStr assignee)])"

lemma new_task_is_after: "new_task st title = (st', t) \<Longrightarrow> task_after (NewTask title creator) st = Some t"
  by (auto simp: new_task_def Let_def)

lemma get_task_Inr: "get_task st i = Inr t \<longleftrightarrow> map_of (ts_tasks st) i = Some t"
  by (simp add: get_task_def split: option.split)

lemma task_id_nonempty:
  assumes "tasks_ok st" "get_task st i = Inr t"
  shows "tk_task_id t = i" "tk_task_id t \<noteq> []"
proof -
  have "(i, t) \<in> set (ts_tasks st)" using assms(2) by (simp add: get_task_Inr map_of_SomeD)
  then show "tk_task_id t = i" "tk_task_id t \<noteq> []" using assms(1) by (auto simp: tasks_ok_def)
qed

lemma handle_task_unknown:
  "task_after rq st = None \<Longrightarrow> handle_task post tenant i now rq (st, s) = ((st, s), Inl (HTTPException 404 ''task not found''))"
  by (cases rq) (simp_all add: update_task_status_def assign_task_def get_task_def)

lemma handle_task_mirrors:
  assumes ok: "tasks_ok tasks" and r: "mirror_ready st V now tenant i sent" and k: "gets_through k fs"
    and u: "acting_user rq \<noteq> []" and t: "task_after rq tasks = Some t"
  shows "\<exists>tasks' st'. handle_task (lossy_ingest V now rid) tenant i sent rq (tasks, fs, st) =
      ((tasks', drop (Suc k) fs, st'), Inr (task_answer rq t)) \<and> tasks_ok tasks' \<and>
    (\<forall>j. get_task tasks' j = (if j = tk_task_id t then Inr t else get_task tasks j)) \<and>
    store_ok (i_store st') \<and> stored_ids (i_store st') = insert i (stored_ids (i_store st)) \<and> i_count st' = i_count st + 1"
proof (cases rq)
  case (NewTask title creator)
  obtain tasks' t' where n: "new_task tasks title = (tasks', t')" by (cases "new_task tasks title")
  have t': "t' = t" using new_task_is_after[OF n, of creator] t unfolding NewTask by simp
  note f = new_task_ok[OF ok n, unfolded t']
  have "tk_task_id t \<noteq> []" using t NewTask by auto
  from emit_task_event_mirrors[OF r k _ _ _ this, of creator "''create_task''" "''create''" rid] u
  show ?thesis using f(1,3,5) n t' by (auto simp: NewTask create_task_def action_categories_def)
next
  case (SetStatus task_id status actor)
  obtain t0 where g: "get_task tasks task_id = Inr t0" "t = t0\<lparr>tk_status := status\<rparr>"
    using t by (auto simp: SetStatus get_task_Inr)
  have i: "tk_task_id t = tk_task_id t0" "tk_task_id t \<noteq> []" "tk_task_id t = task_id"
    using task_id_nonempty[OF ok g(1)] by (simp_all add: g(2))
  from emit_task_event_mirrors[OF r k _ _ _ i(2), of actor "''update_task_status''" "''update''" rid] u
  show ?thesis using put_task_ok[OF ok g(1) i(1)] g i(3)
    by (auto simp: SetStatus update_task_status_def action_categories_def)
next
  case (AssignTo task_id assignee actor)
  obtain t0 where g: "get_task tasks task_id = Inr t0" "t = t0\<lparr>tk_assignee_id := Some assignee\<rparr>"
    using t by (auto simp: AssignTo get_task_Inr)
  have i: "tk_task_id t = tk_task_id t0" "tk_task_id t \<noteq> []" "tk_task_id t = task_id"
    using task_id_nonempty[OF ok g(1)] by (simp_all add: g(2))
  from emit_task_event_mirrors[OF r k _ _ _ i(2), of actor "''assign_task''" "''update''" rid] u
  show ?thesis using put_task_ok[OF ok g(1) i(1)] g i(3)
    by (auto simp: AssignTo assign_task_def action_categories_def)
qed

lemma handle_task_keeps: "tasks_ok tasks \<Longrightarrow> tasks_ok (fst (fst (handle_task post tenant i now rq (tasks, s))))"
  by (cases rq) (simp_all add: handlers_keep_tasks)

lemma new_task_is_fresh:
  "tasks_ok tasks \<Longrightarrow> task_after (NewTask title creator) tasks = Some t \<Longrightarrow>
    get_task tasks (tk_task_id t) = Inl (HTTPException 404 ''task not found'')"
  using new_task_ok(2)[of tasks title] by (auto simp: new_task_def Let_def get_task_def)

end
