(* ===== verification/EventModel.thy ===== *)
theory EventModel
  imports Contract
begin

text \<open>
  The event model of \<open>core/models.py\<close>: its enumerations and records, the JSON they are dumped to
  under their aliases, and how far it mirrors the JSON Schema of the contract.
\<close>

section \<open>Enumerations\<close>

datatype user_id_type = EMAIL | SSO_SUBJECT | APP_NATIVE_ID | EMPLOYEE_ID

datatype action_category = CREATE | READ | UPDATE | DELETE | APPROVE | REJECT | NAVIGATE | SEARCH

datatype environment = PRODUCTION | SANDBOX | STAGING | TEST

datatype device = DESKTOP | MOBILE | TABLET

fun user_id_type_value :: "user_id_type \<Rightarrow> string" where
  "user_id_type_value EMAIL = ''email''"
| "user_id_type_value SSO_SUBJECT = ''sso_subject''"
| "user_id_type_value APP_NATIVE_ID = ''app_native_id''"
| "user_id_type_value EMPLOYEE_ID = ''employee_id''"

fun action_category_value :: "action_category \<Rightarrow> string" where
  "action_category_value CREATE = ''create''"
| "action_category_value READ = ''read''"
| "action_category_value UPDATE = ''update''"
| "action_category_value DELETE = ''delete''"
| "action_category_value APPROVE = ''approve''"
| "action_category_value REJECT = ''reject''"
| "action_category_value NAVIGATE = ''navigate''"
| "action_category_value SEARCH = ''search''"

fun environment_value :: "environment \<Rightarrow> string" where
  "environment_value PRODUCTION = ''production''"
| "environment_value SANDBOX = ''sandbox''"
| "environment_value STAGING = ''staging''"
| "environment_value TEST = ''test''"

fun device_value :: "device \<Rightarrow> string" where
  "device_value DESKTOP = ''desktop''"
| "device_value MOBILE = ''mobile''"
| "device_value TABLET = ''tablet''"

text \<open>The members of an enumeration, in the order of the class.\<close>

instantiation user_id_type :: enum
begin

definition enum_user_id_type :: "user_id_type list" where
  "enum_user_id_type = [EMAIL, SSO_SUBJECT, APP_NATIVE_ID, EMPLOYEE_ID]"

definition enum_all_user_id_type :: "(user_id_type \<Rightarrow> bool) \<Rightarrow> bool" where
  "enum_all_user_id_type P = list_all P [EMAIL, SSO_SUBJECT, APP_NATIVE_ID, EMPLOYEE_ID]"

definition enum_ex_user_id_type :: "(user_id_type \<Rightarrow> bool) \<Rightarrow> bool" where
  "enum_ex_user_id_type P = list_ex P [EMAIL, SSO_SUBJECT, APP_NATIVE_ID, EMPLOYEE_ID]"

instance
proof
  show "(UNIV :: user_id_type set) = set Enum.enum" by (auto simp: enum_user_id_type_def intro: user_id_type.exhaust)
qed (auto simp: enum_user_id_type_def enum_all_user_id_type_def enum_ex_user_id_type_def, (metis user_id_type.exhaust)+)

end

instantiation action_category :: enum
begin

definition enum_action_category :: "action_category list" where
  "enum_action_category = [CREATE, READ, UPDATE, DELETE, APPROVE, REJECT, NAVIGATE, SEARCH]"

definition enum_all_action_category :: "(action_category \<Rightarrow> bool) \<Rightarrow> bool" where
  "enum_all_action_category P = list_all P [CREATE, READ, UPDATE, DELETE, APPROVE, REJECT, NAVIGATE, SEARCH]"

definition enum_ex_action_category :: "(action_category \<Rightarrow> bool) \<Rightarrow> bool" where
  "enum_ex_action_category P = list_ex P [CREATE, READ, UPDATE, DELETE, APPROVE, REJECT, NAVIGATE, SEARCH]"

instance
proof
  show "(UNIV :: action_category set) = set Enum.enum" by (auto simp: enum_action_category_def intro: action_category.exhaust)
qed (auto simp: enum_action_category_def enum_all_action_category_def enum_ex_action_category_def, (metis action_category.exhaust)+)

end

lemma enumerations_of_the_contract:
  "map user_id_type_value Enum.enum = user_id_types" "map action_category_value Enum.enum = action_categories"
  by (simp_all add: enum_user_id_type_def user_id_types_def enum_action_category_def action_categories_def)

lemma values_in_contract [simp]:
  "user_id_type_value u \<in> set user_id_types" "action_category_value c \<in> set action_categories"
  "environment_value e \<in> set environments" "device_value d \<in> set devices"
  subgoal by (cases u) (simp_all add: user_id_types_def)
  subgoal by (cases c) (simp_all add: action_categories_def)
  subgoal by (cases e) (simp_all add: environments_def)
  subgoal by (cases d) (simp_all add: devices_def)
  done

section \<open>The records\<close>

record actor_model =
  am_native_user_id :: string
  am_user_id_type :: user_id_type
  am_canonical_user_id :: "string option"
  am_roles :: "string list option"

record on_behalf_of_model =
  bm_native_user_id :: string
  bm_user_id_type :: user_id_type

record action_model =
  xm_type :: string
  xm_category :: action_category
  xm_metadata :: "(string \<times> json) list option"

record object_model =
  om_object_type :: string
  om_object_id :: string
  om_object_details :: "(string \<times> json) list option"

record source_model =
  sm_connector :: string
  sm_connector_version :: string

record geo_model =
  gm_country :: "string option"
  gm_region :: "string option"

record context_model =
  cm_session_id :: "string option"
  cm_correlation_id :: "string option"
  cm_device :: "device option"
  cm_geo :: "geo_model option"

record event_model =
  em_schema_version :: string
  em_event_id :: string
  em_tenant_id :: string
  em_application_id :: string
  em_application_instance_id :: string
  em_environment :: environment
  em_event_timestamp :: pydatetime
  em_ingestion_timestamp :: "pydatetime option"
  em_actor :: actor_model
  em_on_behalf_of :: "on_behalf_of_model option"
  em_action :: action_model
  em_object :: object_model
  em_source :: source_model
  em_context :: "context_model option"

section \<open>Dumping\<close>

text \<open>
  \<open>model_dump(mode="json", by_alias=True, exclude_none=...)\<close>; how an instant is printed is a
  parameter.
\<close>

definition opt_entry :: "bool \<Rightarrow> string \<Rightarrow> ('a \<Rightarrow> json) \<Rightarrow> 'a option \<Rightarrow> (string \<times> json) list" where
  "opt_entry exclude_none k f x = (case x of None \<Rightarrow> if exclude_none then [] else [(k, JNull)] | Some v \<Rightarrow> [(k, f v)])"

definition dump_actor :: "bool \<Rightarrow> actor_model \<Rightarrow> json" where
  "dump_actor xn a = JObj ([(''nativeUserId'', JStr (am_native_user_id a)),
     (''userIdType'', JStr (user_id_type_value (am_user_id_type a)))] @
     opt_entry xn ''canonicalUserId'' JStr (am_canonical_user_id a) @
     opt_entry xn ''roles'' (\<lambda>rs. JList (map JStr rs)) (am_roles a))"

definition dump_on_behalf_of :: "on_behalf_of_model \<Rightarrow> json" where
  "dump_on_behalf_of b = JObj [(''nativeUserId'', JStr (bm_native_user_id b)),
     (''userIdType'', JStr (user_id_type_value (bm_user_id_type b)))]"

definition dump_action :: "bool \<Rightarrow> action_model \<Rightarrow> json" where
  "dump_action xn a = JObj ([(''type'', JStr (xm_type a)), (''category'', JStr (action_category_value (xm_category a)))] @
     opt_entry xn ''metadata'' JObj (xm_metadata a))"

definition dump_object :: "bool \<Rightarrow> object_model \<Rightarrow> json" where
  "dump_object xn ob = JObj ([(''objectType'', JStr (om_object_type ob)), (''objectId'', JStr (om_object_id ob))] @
     opt_entry xn ''objectDetails'' JObj (om_object_details ob))"

definition dump_source :: "source_model \<Rightarrow> json" where
  "dump_source s = JObj [(''connector'', JStr (sm_connector s)), (''connectorVersion'', JStr (sm_connector_version s))]"

definition dump_geo :: "bool \<Rightarrow> geo_model \<Rightarrow> json" where
  "dump_geo xn g = JObj (opt_entry xn ''country'' JStr (gm_country g) @ opt_entry xn ''region'' JStr (gm_region g))"

definition dump_context :: "bool \<Rightarrow> context_model \<Rightarrow> json" where
  "dump_context xn c = JObj (opt_entry xn ''sessionId'' JStr (cm_session_id c) @
     opt_entry xn ''correlationId'' JStr (cm_correlation_id c) @
     opt_entry xn ''device'' (\<lambda>d. JStr (device_value d)) (cm_device c) @ opt_entry xn ''geo'' (dump_geo xn) (cm_geo c))"

definition dump_event :: "bool \<Rightarrow> (pydatetime \<Rightarrow> string) \<Rightarrow> event_model \<Rightarrow> (string \<times> json) list" where
  "dump_event xn render e =
     [(''schemaVersion'', JStr (em_schema_version e)), (''eventId'', JStr (em_event_id e)),
      (''tenantId'', JStr (em_tenant_id e)), (''applicationId'', JStr (em_application_id e)),
      (''applicationInstanceId'', JStr (em_application_instance_id e)),
      (''environment'', JStr (environment_value (em_environment e))),
      (''eventTimestamp'', JStr (render (em_event_timestamp e)))] @
     opt_entry xn ''ingestionTimestamp'' (\<lambda>t. JStr (render t)) (em_ingestion_timestamp e) @
     [(''actor'', dump_actor xn (em_actor e))] @
     opt_entry xn ''onBehalfOf'' dump_on_behalf_of (em_on_behalf_of e) @
     [(''action'', dump_action xn (em_action e)), (''object'', dump_object xn (em_object e)),
      (''source'', dump_source (em_source e))] @
     opt_entry xn ''context'' (dump_context xn) (em_context e)"

section \<open>The mirror\<close>

lemma opt_entry_simps [simp]:
  "opt_entry True k f None = []" "opt_entry False k f None = [(k, JNull)]" "opt_entry b k f (Some v) = [(k, f v)]"
  by (simp_all add: opt_entry_def)

lemma valid_dump_actor: "valid actor_schema (dump_actor True a) \<longleftrightarrow> am_native_user_id a \<noteq> []"
  by (cases "am_canonical_user_id a"; cases "am_roles a")
     (auto simp: dump_actor_def actor_schema_def valid_object_schema)

lemma valid_dump_on_behalf_of: "valid on_behalf_schema (dump_on_behalf_of b) \<longleftrightarrow> bm_native_user_id b \<noteq> []"
  by (auto simp: dump_on_behalf_of_def on_behalf_schema_def valid_object_schema)

lemma valid_dump_action: "valid action_schema (dump_action True a) \<longleftrightarrow> xm_type a \<noteq> []"
  by (cases "xm_metadata a") (auto simp: dump_action_def action_schema_def valid_object_schema)

lemma valid_dump_object: "valid object_ref_schema (dump_object True ob) \<longleftrightarrow> om_object_type ob \<noteq> [] \<and> om_object_id ob \<noteq> []"
  by (cases "om_object_details ob") (auto simp: dump_object_def object_ref_schema_def valid_object_schema)

lemma valid_dump_source: "valid source_schema (dump_source s) \<longleftrightarrow> sm_connector s \<noteq> [] \<and> sm_connector_version s \<noteq> []"
  by (auto simp: dump_source_def source_schema_def valid_object_schema)

lemma valid_dump_geo:
  "valid (object_schema [(''country'', str_schema), (''region'', str_schema)] []) (dump_geo True g)"
  by (cases "gm_country g"; cases "gm_region g") (auto simp: dump_geo_def valid_object_schema)

lemma valid_dump_context: "valid context_schema (dump_context True c)"
  by (cases "cm_session_id c"; cases "cm_correlation_id c"; cases "cm_device c"; cases "cm_geo c")
     (auto simp: dump_context_def context_schema_def valid_object_schema[of "[_, _, _, _]"] valid_dump_geo)


lemma valid_fields_iff:
  "valid event_schema (JObj ([(''schemaVersion'', JStr v), (''eventId'', JStr i), (''tenantId'', JStr t),
      (''applicationId'', JStr a), (''applicationInstanceId'', JStr n), (''environment'', JStr env),
      (''eventTimestamp'', JStr ts)] @ opt_entry True ''ingestionTimestamp'' JStr ing @ [(''actor'', actor)] @
      opt_entry True ''onBehalfOf'' (\<lambda>x. x) onb @ [(''action'', act), (''object'', ob), (''source'', src)] @
      opt_entry True ''context'' (\<lambda>x. x) ctx)) \<longleftrightarrow>
    v = ''1.0.0'' \<and> contract_tenant t \<and> a \<noteq> [] \<and> n \<noteq> [] \<and> env \<in> set environments \<and> valid actor_schema actor \<and>
    (\<forall>x. onb = Some x \<longrightarrow> valid on_behalf_schema x) \<and> valid action_schema act \<and> valid object_ref_schema ob \<and>
    valid source_schema src \<and> (\<forall>x. ctx = Some x \<longrightarrow> valid context_schema x)"
  unfolding event_schema_def valid_object_schema event_required_def
  by (cases ing; cases onb; cases ctx; simp; blast)

text \<open>
  Dumped without its absent fields, an event of the model is one the contract admits exactly when
  its version is the contract's, its tenant has the contract's form and its names are not empty:
  nothing else of the model can break the contract.
\<close>

lemma dump_event_valid_iff:
  "valid event_schema (JObj (dump_event True render e)) \<longleftrightarrow>
     em_schema_version e = ''1.0.0'' \<and> contract_tenant (em_tenant_id e) \<and> em_application_id e \<noteq> [] \<and>
     em_application_instance_id e \<noteq> [] \<and> am_native_user_id (em_actor e) \<noteq> [] \<and>
     (\<forall>b. em_on_behalf_of e = Some b \<longrightarrow> bm_native_user_id b \<noteq> []) \<and> xm_type (em_action e) \<noteq> [] \<and>
     om_object_type (em_object e) \<noteq> [] \<and> om_object_id (em_object e) \<noteq> [] \<and>
     sm_connector (em_source e) \<noteq> [] \<and> sm_connector_version (em_source e) \<noteq> []"
proof -
  have m: "opt_entry True k f x = opt_entry True k (\<lambda>x. x) (map_option f x)" for k x and f :: "'a \<Rightarrow> json"
    by (cases x) simp_all
  have t: "opt_entry True k (\<lambda>t. JStr (render t)) x = opt_entry True k JStr (map_option render x)" for k x
    by (cases x) simp_all
  have d: "dump_event True render e =
     [(''schemaVersion'', JStr (em_schema_version e)), (''eventId'', JStr (em_event_id e)),
      (''tenantId'', JStr (em_tenant_id e)), (''applicationId'', JStr (em_application_id e)),
      (''applicationInstanceId'', JStr (em_application_instance_id e)),
      (''environment'', JStr (environment_value (em_environment e))),
      (''eventTimestamp'', JStr (render (em_event_timestamp e)))] @
     opt_entry True ''ingestionTimestamp'' JStr (map_option render (em_ingestion_timestamp e)) @
     [(''actor'', dump_actor True (em_actor e))] @
     opt_entry True ''onBehalfOf'' (\<lambda>x. x) (map_option dump_on_behalf_of (em_on_behalf_of e)) @
     [(''action'', dump_action True (em_action e)), (''object'', dump_object True (em_object e)),
      (''source'', dump_source (em_source e))] @
     opt_entry True ''context'' (\<lambda>x. x) (map_option (dump_context True) (em_context e))"
    unfolding dump_event_def t
    by (cases "em_on_behalf_of e"; cases "em_context e") simp_all
  show ?thesis
    unfolding d valid_fields_iff valid_dump_actor valid_dump_action valid_dump_object valid_dump_source
    using valid_dump_on_behalf_of valid_dump_context by (auto simp: map_option_case split: option.splits)
qed

text \<open>
  Dumped with its absent fields as nulls, an event with an absent field other than the canonical
  user is not one the contract admits.
\<close>

lemma dump_event_nulls:
  assumes "em_ingestion_timestamp e = None \<or> em_on_behalf_of e = None \<or> em_context e = None"
  shows "\<not> valid event_schema (JObj (dump_event False render e))"
proof -
  let ?d = "dump_event False render e"
  have n: "map_of ?d ''ingestionTimestamp'' = Some JNull \<or> map_of ?d ''onBehalfOf'' = Some JNull \<or>
      map_of ?d ''context'' = Some JNull"
    using assms by (cases "em_ingestion_timestamp e"; cases "em_on_behalf_of e") (auto simp: dump_event_def)
  have b: "\<not> valid str_schema JNull" "\<not> valid on_behalf_schema JNull" "\<not> valid context_schema JNull"
    using valid_is_object[of _ _ JNull] by (auto simp: on_behalf_schema_def context_schema_def)
  show ?thesis
  proof
    assume v: "valid event_schema (JObj ?d)"
    note o = valid_optional[OF v[unfolded event_schema_def]]
    show False
      using n o[of "''ingestionTimestamp''" str_schema JNull] o[of "''onBehalfOf''" on_behalf_schema JNull]
        o[of "''context''" context_schema JNull] b by auto
  qed
qed

section \<open>What the store takes from a dump\<close>

definition model_params :: "(pydatetime \<Rightarrow> string) \<Rightarrow> event_model \<Rightarrow> write_params" where
  \<comment> \<open>the parameters of the write, read off the model\<close>
  "model_params render e = \<lparr>p_applicationId = em_application_id e,
     p_applicationInstanceId = em_application_instance_id e,
     p_nativeUserId = am_native_user_id (em_actor e),
     p_userIdType = user_id_type_value (am_user_id_type (em_actor e)),
     p_canonicalUserId = am_canonical_user_id (em_actor e),
     p_roles = (case am_roles (em_actor e) of None \<Rightarrow> [] | Some rs \<Rightarrow> rs),
     p_objectType = om_object_type (em_object e), p_objectId = om_object_id (em_object e),
     p_eventId = em_event_id e, p_actionType = xm_type (em_action e),
     p_actionCategory = action_category_value (xm_category (em_action e)),
     p_eventTimestamp = render (em_event_timestamp e),
     p_metadata = (case xm_metadata (em_action e) of None \<Rightarrow> None
       | Some m \<Rightarrow> if m = [] then None else Some (JObj m)),
     p_environment = environment_value (em_environment e),
     p_sessionId = Option.bind (em_context e) cm_session_id,
     p_correlationId = Option.bind (em_context e) cm_correlation_id,
     p_device = map_option device_value (Option.bind (em_context e) cm_device)\<rparr>"

lemma map_of_opt_other: "k \<noteq> k' \<Longrightarrow> map_of (opt_entry xn k f x @ d) k' = map_of d k'"
  by (simp add: opt_entry_def split: option.split)

lemma map_of_opt_last: "k \<noteq> k' \<Longrightarrow> map_of (opt_entry xn k f x) k' = None"
  by (simp add: opt_entry_def split: option.split)

lemma dget_opt: "map_of d k = None \<Longrightarrow>
    dget k (opt_entry xn k f x @ d) = (case x of None \<Rightarrow> JNull | Some v \<Rightarrow> f v)"
  by (simp add: dget_def opt_entry_def split: option.split)

lemma dget_opt_last: "dget k (opt_entry xn k f x) = (case x of None \<Rightarrow> JNull | Some v \<Rightarrow> f v)"
  using dget_opt[of "[]" k xn f x] by simp

lemma dget_opt_other: "k \<noteq> k' \<Longrightarrow> dget k' (opt_entry xn k f x @ d) = dget k' d"
  unfolding dget_def by (subst map_of_opt_other) auto

lemma dget_Cons: "dget k ((k', v) # d) = (if k = k' then v else dget k d)"
  by (simp add: dget_def)

lemma opt_str_opt: "dget k d = (case x of None \<Rightarrow> JNull | Some v \<Rightarrow> JStr v) \<Longrightarrow> opt_str k (JObj d) = Inr x"
  by (simp add: opt_str_def split: option.splits)

lemma dump_event_lookup:
  "map_of (dump_event xn render e) ''actor'' = Some (dump_actor xn (em_actor e))"
  "map_of (dump_event xn render e) ''action'' = Some (dump_action xn (em_action e))"
  "map_of (dump_event xn render e) ''object'' = Some (dump_object xn (em_object e))"
  "dget ''context'' (dump_event xn render e) = (case em_context e of None \<Rightarrow> JNull | Some c \<Rightarrow> dump_context xn c)"
  "req_str ''tenantId'' (JObj (dump_event xn render e)) = Inr (em_tenant_id e)"
  "req_str ''applicationId'' (JObj (dump_event xn render e)) = Inr (em_application_id e)"
  "req_str ''applicationInstanceId'' (JObj (dump_event xn render e)) = Inr (em_application_instance_id e)"
  "req_str ''eventId'' (JObj (dump_event xn render e)) = Inr (em_event_id e)"
  "req_str ''eventTimestamp'' (JObj (dump_event xn render e)) = Inr (render (em_event_timestamp e))"
  "req_str ''environment'' (JObj (dump_event xn render e)) = Inr (environment_value (em_environment e))"
  by (simp_all add: dump_event_def req_str_def map_add_def map_of_opt_last dget_Cons dget_opt_other dget_opt_last)

lemma dump_actor_lookup:
  "req_str ''nativeUserId'' (dump_actor xn a) = Inr (am_native_user_id a)"
  "req_str ''userIdType'' (dump_actor xn a) = Inr (user_id_type_value (am_user_id_type a))"
  "opt_str ''canonicalUserId'' (dump_actor xn a) = Inr (am_canonical_user_id a)"
  "str_list_or_empty ''roles'' (dump_actor xn a) = Inr (case am_roles a of None \<Rightarrow> [] | Some rs \<Rightarrow> rs)"
proof -
  show "opt_str ''canonicalUserId'' (dump_actor xn a) = Inr (am_canonical_user_id a)"
    unfolding dump_actor_def
    by (rule opt_str_opt, simp add: dget_Cons, rule dget_opt) (simp add: map_of_opt_last)
  show "str_list_or_empty ''roles'' (dump_actor xn a) = Inr (case am_roles a of None \<Rightarrow> [] | Some rs \<Rightarrow> rs)"
    by (cases "am_roles a")
       (auto simp: dump_actor_def str_list_or_empty_def dget_Cons dget_opt_other dget_opt_last py_or_def)
qed (simp_all add: dump_actor_def req_str_def)

lemma dump_action_lookup:
  "req_str ''type'' (dump_action xn a) = Inr (xm_type a)"
  "req_str ''category'' (dump_action xn a) = Inr (action_category_value (xm_category a))"
  "dumped_metadata (dump_action xn a) = Inr (case xm_metadata a of None \<Rightarrow> None
     | Some m \<Rightarrow> if m = [] then None else Some (JObj m))"
  by (simp_all add: dump_action_def req_str_def dumped_metadata_def dget_Cons dget_opt_last split: option.split)

lemma dump_object_lookup:
  "req_str ''objectType'' (dump_object xn ob) = Inr (om_object_type ob)"
  "req_str ''objectId'' (dump_object xn ob) = Inr (om_object_id ob)"
  by (simp_all add: dump_object_def req_str_def)

lemma dump_context_lookup:
  "opt_str ''sessionId'' (dump_context xn c) = Inr (cm_session_id c)"
  "opt_str ''correlationId'' (dump_context xn c) = Inr (cm_correlation_id c)"
  "opt_str ''device'' (dump_context xn c) = Inr (map_option device_value (cm_device c))"
proof -
  show "opt_str ''sessionId'' (dump_context xn c) = Inr (cm_session_id c)"
    unfolding dump_context_def by (rule opt_str_opt, rule dget_opt) (simp add: map_of_opt_other map_of_opt_last)
  show "opt_str ''correlationId'' (dump_context xn c) = Inr (cm_correlation_id c)"
    unfolding dump_context_def
    by (rule opt_str_opt, simp add: dget_opt_other, rule dget_opt) (simp add: map_of_opt_other map_of_opt_last)
  show "opt_str ''device'' (dump_context xn c) = Inr (map_option device_value (cm_device c))"
    unfolding dump_context_def
    by (rule opt_str_opt, simp add: dget_opt_other, subst dget_opt)
       (simp_all add: map_of_opt_last split: option.split)
qed

lemma context_or_empty:
  "py_or (case ctx of None \<Rightarrow> JNull | Some c \<Rightarrow> dump_context xn c) (JObj []) =
     (case ctx of None \<Rightarrow> JObj [] | Some c \<Rightarrow> dump_context xn c)"
  by (auto simp: py_or_def dump_context_def split: option.split)

lemma opt_str_empty: "opt_str k (JObj []) = Inr None"
  by (simp add: opt_str_def dget_def)

lemma dump_event_params:
  "event_params (JObj (dump_event xn render e)) = Inr (em_tenant_id e, model_params render e)"
  unfolding event_params_def py_item_JObj py_get_JObj dump_event_lookup option.case ebind_Inr context_or_empty Let_def
    dump_actor_lookup dump_action_lookup dump_object_lookup model_params_def
  by (cases "em_context e") (simp_all add: opt_str_empty dump_context_lookup)

section \<open>Properties\<close>

text \<open>
  C35: an event of the model survives its JSON: however its absent fields are dumped, the store
  takes from it the tenant and the parameters the model holds; and dumped without them it is one
  the contract admits exactly when its version is the contract's, its tenant has the contract's
  form and its names are not empty.
\<close>

theorem model_event_round_trip:
  "event_params (JObj (dump_event xn render e)) = Inr (em_tenant_id e, model_params render e) \<and>
   (valid event_schema (JObj (dump_event True render e)) \<longleftrightarrow>
     em_schema_version e = ''1.0.0'' \<and> contract_tenant (em_tenant_id e) \<and> em_application_id e \<noteq> [] \<and>
     em_application_instance_id e \<noteq> [] \<and> am_native_user_id (em_actor e) \<noteq> [] \<and>
     pred_option (\<lambda>b. bm_native_user_id b \<noteq> []) (em_on_behalf_of e) \<and> xm_type (em_action e) \<noteq> [] \<and>
     om_object_type (em_object e) \<noteq> [] \<and> om_object_id (em_object e) \<noteq> [] \<and>
     sm_connector (em_source e) \<noteq> [] \<and> sm_connector_version (em_source e) \<noteq> [])"
  using dump_event_params dump_event_valid_iff by (cases "em_on_behalf_of e") auto

end
