(* ===== verification/EventLog.thy ===== *)
theory EventLog
  imports StoreSpec
begin

text \<open>
  What the graph store promises, said without a graph: an append-only log of accepted events,
  a canonical identifier per application account and a profile per user. The graph of nodes and
  relationships that \<open>core/graph.py\<close> keeps through its Cypher queries is a
  representation of that log; this theory has the abstraction function, one commuting lemma per
  writing method and per reading method, and the simulation of whole runs, with outages and the
  passing of time between the calls.
\<close>

section \<open>Simulations\<close>

fun run :: "('c \<Rightarrow> 's \<Rightarrow> 's \<times> 'a) \<Rightarrow> 'c list \<Rightarrow> 's \<Rightarrow> 's \<times> 'a list" where
  "run f [] s = (s, [])"
| "run f (c # cs) s = (let (s', a) = f c s; (s'', as) = run f cs s' in (s'', a # as))"

locale simulation =
  fixes inv :: "'s \<Rightarrow> bool" and abs :: "'s \<Rightarrow> 't"
    and impl :: "'c \<Rightarrow> 's \<Rightarrow> 's \<times> 'a" and spec :: "'c \<Rightarrow> 't \<Rightarrow> 't \<times> 'a"
  assumes keeps: "inv s \<Longrightarrow> inv (fst (impl c s))"
    and commutes: "inv s \<Longrightarrow> spec c (abs s) = map_prod abs id (impl c s)"
begin

lemma run_keeps: "inv s \<Longrightarrow> inv (fst (run impl cs s))"
  by (induction cs arbitrary: s) (auto simp: Let_def case_prod_beta keeps)

lemma run_commutes: "inv s \<Longrightarrow> run spec cs (abs s) = map_prod abs id (run impl cs s)"
proof (induction cs arbitrary: s)
  case (Cons c cs)
  have "spec c (abs s) = (abs (fst (impl c s)), snd (impl c s))"
    using commutes[OF Cons.prems, of c] by (simp add: map_prod_def case_prod_beta)
  then show ?case using Cons.IH[OF keeps[OF Cons.prems, of c]] by (simp add: Let_def case_prod_beta)
qed simp

end

section \<open>The abstract log\<close>

record log_state =
  l_entries :: "(user_ref \<times> history_row) list"  \<comment> \<open>accepted events, in the order of acceptance\<close>
  l_canonical :: "user_ref \<Rightarrow> string option"
  l_profile :: "string \<times> string \<Rightarrow> stored_profile option"
  l_now :: pydatetime
  l_up :: bool

definition log_ids :: "log_state \<Rightarrow> string set" where
  "log_ids L = (\<lambda>(k, h). h_eventId h) ` set (l_entries L)"

definition has_account :: "log_state \<Rightarrow> user_ref \<Rightarrow> bool" where
  \<comment> \<open>an account exists as soon as it has acted\<close>
  "has_account L k = (k \<in> fst ` set (l_entries L))"

definition is_account_of :: "string \<Rightarrow> string \<Rightarrow> user_ref \<Rightarrow> bool" where
  "is_account_of tenant user k = (fst k = tenant \<and> snd (snd k) = user)"

definition logged_row :: "write_params \<Rightarrow> pydatetime \<Rightarrow> history_row" where
  "logged_row p t = \<lparr>h_eventId = p_eventId p, h_actionType = p_actionType p,
     h_actionCategory = p_actionCategory p, h_eventTimestamp = t, h_metadata = p_metadata p,
     h_environment = p_environment p, h_sessionId = p_sessionId p,
     h_correlationId = p_correlationId p, h_device = p_device p,
     h_applicationId = p_applicationId p, h_objectType = p_objectType p, h_objectId = p_objectId p\<rparr>"

subsection \<open>Commands\<close>

datatype command =
    WriteEvent json
  | LinkIdentities string string string string string string real
  | StoreProfile string string string int
  | ClockAt pydatetime  \<comment> \<open>time passes\<close>
  | ServerUp bool       \<comment> \<open>the database goes away or comes back\<close>

definition log_append :: "string \<Rightarrow> write_params \<Rightarrow> pydatetime \<Rightarrow> log_state \<Rightarrow> log_state" where
  "log_append tenant p t L = L\<lparr>l_entries := l_entries L @ [(p_user_key tenant p, logged_row p t)],
     l_canonical := (if p_canonicalUserId p = None then l_canonical L
       else (l_canonical L)(p_user_key tenant p := p_canonicalUserId p))\<rparr>"

definition log_link :: "string \<Rightarrow> string \<Rightarrow> string \<Rightarrow> string \<Rightarrow> string \<Rightarrow> log_state \<Rightarrow> log_state" where
  \<comment> \<open>both accounts get the first identifier there is, the first account's own name in the end\<close>
  "log_link tenant user_a app_a user_b app_b L =
     (let ka = (tenant, app_a, user_a); kb = (tenant, app_b, user_b);
          c = coalesce (l_canonical L ka) (coalesce (l_canonical L kb) (Some user_a))
      in if has_account L ka \<and> has_account L kb then L\<lparr>l_canonical := (l_canonical L)(ka := c, kb := c)\<rparr> else L)"

definition log_set_profile :: "string \<Rightarrow> string \<Rightarrow> string \<Rightarrow> int \<Rightarrow> log_state \<Rightarrow> log_state" where
  "log_set_profile tenant user ptext version L =
     (if \<exists>k \<in> fst ` set (l_entries L). is_account_of tenant user k
      then L\<lparr>l_profile := (l_profile L)((tenant, user) \<mapsto>
        \<lparr>nlqProfile = ptext, profileGeneratedAt = Some (l_now L), profileVersion = Some version\<rparr>)\<rparr>
      else L)"

definition log_write :: "(string \<Rightarrow> pydatetime option) \<Rightarrow> json \<Rightarrow> log_state \<Rightarrow> py_error + log_state" where
  "log_write parse event L = ebind (event_params event) (\<lambda>(tenant, p).
     if \<not> l_up L then Inl ServiceUnavailable
     else case parse (p_eventTimestamp p) of
       None \<Rightarrow> Inl DatabaseError
     | Some t \<Rightarrow> if p_eventId p \<in> log_ids L then Inl (DuplicateEventError (p_eventId p))
         else Inr (log_append tenant p t L))"

definition settle :: "'s \<Rightarrow> py_error + 's \<Rightarrow> 's \<times> py_error option" where
  \<comment> \<open>a failed transaction leaves the state as it was and its error is the answer\<close>
  "settle s r = (case r of Inl e \<Rightarrow> (s, Some e) | Inr s' \<Rightarrow> (s', None))"

definition while_up :: "bool \<Rightarrow> 's \<Rightarrow> py_error + 's" where
  "while_up up s = (if up then Inr s else Inl ServiceUnavailable)"

fun log_exec :: "(string \<Rightarrow> pydatetime option) \<Rightarrow> command \<Rightarrow> log_state \<Rightarrow> log_state \<times> py_error option" where
  "log_exec parse (WriteEvent event) L = settle L (log_write parse event L)"
| "log_exec parse (LinkIdentities tenant user_a app_a user_b app_b meth conf) L =
     settle L (while_up (l_up L) (log_link tenant user_a app_a user_b app_b L))"
| "log_exec parse (StoreProfile tenant user ptext version) L =
     settle L (while_up (l_up L) (log_set_profile tenant user ptext version L))"
| "log_exec parse (ClockAt t) L = (L\<lparr>l_now := t\<rparr>, None)"
| "log_exec parse (ServerUp b) L = (L\<lparr>l_up := b\<rparr>, None)"

fun store_exec :: "command \<Rightarrow> store \<Rightarrow> store \<times> py_error option" where
  "store_exec (WriteEvent event) s = settle s (write_event s event)"
| "store_exec (LinkIdentities tenant user_a app_a user_b app_b meth conf) s =
     settle s (link_identities s tenant user_a app_a user_b app_b meth conf)"
| "store_exec (StoreProfile tenant user ptext version) s =
     settle s (update_user_profile s tenant user ptext version)"
| "store_exec (ClockAt t) s = (s\<lparr>clock := t\<rparr>, None)"
| "store_exec (ServerUp b) s = (s\<lparr>online := b\<rparr>, None)"

subsection \<open>Reads\<close>

definition log_history :: "(user_ref \<Rightarrow> bool) \<Rightarrow> int \<Rightarrow> log_state \<Rightarrow> history_row list" where
  "log_history P days L = map snd (filter (\<lambda>(k, h). P k \<and> since (l_now L) days (h_eventTimestamp h)) (l_entries L))"

definition log_count :: "string \<Rightarrow> string \<Rightarrow> log_state \<Rightarrow> nat" where
  "log_count tenant user L = length (filter (is_account_of tenant user \<circ> fst) (l_entries L))"

definition log_actions :: "string \<Rightarrow> string \<Rightarrow> string \<Rightarrow> log_state \<Rightarrow> history_row list" where
  "log_actions tenant user act L =
     map snd (filter (\<lambda>(k, h). is_account_of tenant user k \<and> h_actionType h = act) (l_entries L))"

definition log_active :: "string \<Rightarrow> int \<Rightarrow> log_state \<Rightarrow> string set" where
  "log_active tenant days L = (\<lambda>(k, h). snd (snd k)) ` set (filter (\<lambda>(k, h). fst k = tenant \<and>
     since (l_now L) days (h_eventTimestamp h)) (l_entries L))"

definition log_canonicals :: "string \<Rightarrow> string \<Rightarrow> log_state \<Rightarrow> string set" where
  "log_canonicals tenant user L = Option.these (l_canonical L ` set (filter (is_account_of tenant user)
     (map fst (l_entries L))))"

definition newest_first_of :: "history_row list \<Rightarrow> history_row list \<Rightarrow> bool" where
  \<comment> \<open>a newest-first arrangement of the rows\<close>
  "newest_first_of hs rows = (mset hs = mset rows \<and> newest_first hs)"


section \<open>The abstraction\<close>

definition entry_of :: "performed_edge \<Rightarrow> user_ref \<times> history_row" where
  "entry_of r = (r_user r, \<lparr>h_eventId = r_eventId r, h_actionType = r_actionType r,
     h_actionCategory = r_actionCategory r, h_eventTimestamp = r_eventTimestamp r,
     h_metadata = r_metadata r, h_environment = r_environment r, h_sessionId = r_sessionId r,
     h_correlationId = r_correlationId r, h_device = r_device r,
     h_applicationId = fst (snd (r_user r)), h_objectType = fst (snd (snd (r_object r))),
     h_objectId = snd (snd (snd (r_object r)))\<rparr>)"

definition canonical_of :: "user_node list \<Rightarrow> user_ref \<Rightarrow> string option" where
  "canonical_of us k = (case find (\<lambda>u. user_key u = k) us of None \<Rightarrow> None | Some u \<Rightarrow> u_canonicalUserId u)"

definition profile_in :: "user_node list \<Rightarrow> string \<times> string \<Rightarrow> stored_profile option" where
  "profile_in us = (\<lambda>(tenant, user).
     case find (\<lambda>u. is_native tenant user u \<and> u_nlqProfile u \<noteq> None) us of None \<Rightarrow> None | Some u \<Rightarrow> profile_of u)"

definition abs_log :: "store \<Rightarrow> log_state" where
  "abs_log s = \<lparr>l_entries = map entry_of (performed (graph s)), l_canonical = canonical_of (users (graph s)),
     l_profile = profile_in (users (graph s)), l_now = clock s, l_up = online s\<rparr>"

lemma abs_log_sel [simp]:
  "l_entries (abs_log s) = map entry_of (performed (graph s))"
  "l_canonical (abs_log s) = canonical_of (users (graph s))"
  "l_profile (abs_log s) = profile_in (users (graph s))"
  "l_now (abs_log s) = clock s" "l_up (abs_log s) = online s"
  by (simp_all add: abs_log_def)

lemma entry_of_sel [simp]:
  "fst (entry_of r) = r_user r" "h_eventId (snd (entry_of r)) = r_eventId r"
  "h_eventTimestamp (snd (entry_of r)) = r_eventTimestamp r"
  by (simp_all add: entry_of_def)

definition seen_ok :: "graph \<Rightarrow> bool" where
  \<comment> \<open>an account was last seen at one of its events\<close>
  "seen_ok g = (\<forall>u \<in> set (users g). \<exists>r \<in> set (performed g).
     r_user r = user_key u \<and> dt_instant (r_eventTimestamp r) = dt_instant (u_lastSeen u))"

definition log_ok :: "(string \<Rightarrow> pydatetime option) \<Rightarrow> store \<Rightarrow> bool" where
  "log_ok parse s = (engine_ok (engine s) \<and> cypher_datetime (engine s) = parse \<and>
     wf_graph (graph s) \<and> seen_ok (graph s))"

lemma log_okD:
  assumes "log_ok parse s"
  shows "engine_ok (engine s)" "cypher_datetime (engine s) = parse" "wf_graph (graph s)" "seen_ok (graph s)"
  using assms by (simp_all add: log_ok_def)

lemma log_ok_store: "log_ok parse s \<Longrightarrow> online s \<Longrightarrow> store_ok s"
  by (simp add: log_ok_def store_ok_def)

lemma log_ids_abs [simp]: "log_ids (abs_log s) = set (event_ids (graph s))"
proof -
  have "(\<lambda>(k, h). h_eventId h) (entry_of r) = r_eventId r" for r by (simp add: case_prod_beta)
  then show ?thesis by (simp add: log_ids_def event_ids_def image_image)
qed

lemma accounts_are_nodes:
  assumes wf: "wf_graph g" and seen: "seen_ok g"
  shows "r_user ` set (performed g) = user_key ` set (users g)"
proof
  show "r_user ` set (performed g) \<subseteq> user_key ` set (users g)"
    using wf_graphD(6)[OF wf] by (auto simp: edge_ok_def)
  show "user_key ` set (users g) \<subseteq> r_user ` set (performed g)"
    using seen by (force simp: seen_ok_def image_iff)
qed

lemma has_account_abs:
  "log_ok parse s \<Longrightarrow> has_account (abs_log s) k \<longleftrightarrow> k \<in> user_key ` set (users (graph s))"
  using accounts_are_nodes[OF log_okD(3,4)] by (simp add: has_account_def image_image)

section \<open>The invariant\<close>

lemma seen_ok_write: "seen_ok g \<Longrightarrow> seen_ok (write_result tenant p t g)"
  unfolding seen_ok_def
proof (intro ballI)
  fix u assume s: "\<forall>u \<in> set (users g). \<exists>r \<in> set (performed g).
      r_user r = user_key u \<and> dt_instant (r_eventTimestamp r) = dt_instant (u_lastSeen u)"
    and u: "u \<in> set (users (write_result tenant p t g))"
  let ?new = "create_performed tenant p t"
  have P: "set (performed (write_result tenant p t g)) = insert ?new (set (performed g))"
    by (simp add: write_result_def)
  from u consider "u \<in> set (users g)"
    | m where "m \<in> set (users g)" "user_key m = p_user_key tenant p" "u = match_user p t m"
    | "u = create_user tenant p t"
    unfolding write_result_def by (auto simp: mu.in_merge)
  then show "\<exists>r \<in> set (performed (write_result tenant p t g)).
      r_user r = user_key u \<and> dt_instant (r_eventTimestamp r) = dt_instant (u_lastSeen u)"
  proof cases
    case 1
    then show ?thesis using s P by blast
  next
    case 2
    have "u_lastSeen u = t \<or> u_lastSeen u = u_lastSeen m" by (simp add: 2(3) match_user_def later_def)
    then show ?thesis
    proof
      assume "u_lastSeen u = t"
      then show ?thesis using 2 by (intro bexI[of _ ?new]) (simp_all add: P)
    next
      assume l: "u_lastSeen u = u_lastSeen m"
      obtain r where "r \<in> set (performed g)" "r_user r = user_key m"
        "dt_instant (r_eventTimestamp r) = dt_instant (u_lastSeen m)" using s 2(1) by blast
      then show ?thesis using l 2(3) by (intro bexI[of _ r]) (simp_all add: P)
    qed
  next
    case 3
    then show ?thesis by (intro bexI[of _ ?new]) (simp_all add: P)
  qed
qed

context user_update
begin

lemma seen_ok_update:
  "seen_ok g \<Longrightarrow> seen_ok (g\<lparr>users := map upd (users g), same_person := sp\<rparr>)"
  by (simp add: seen_ok_def)

end

lemma seen_ok_link:
  "seen_ok g \<Longrightarrow> seen_ok (LINK_IDENTITIES now tenant userA appA userB appB meth confidence g)"
  by (cases rule: LINK_IDENTITIES_cases[of now tenant userA appA userB appB meth confidence g])
     (simp_all add: uc.seen_ok_update)

lemma seen_ok_profile: "seen_ok g \<Longrightarrow> seen_ok (UPDATE_USER_PROFILE now tenant user ptext version g)"
  unfolding UPDATE_USER_PROFILE_eq by (rule up.seen_ok_update)

section \<open>What an update does to the canonical identifiers and the profiles\<close>

lemma find_map_frame: "(\<And>x. P (f x) = P x) \<Longrightarrow> find P (map f xs) = map_option f (find P xs)"
  by (induction xs) auto

lemma find_snoc: "find P (xs @ [x]) = (case find P xs of None \<Rightarrow> if P x then Some x else None | Some y \<Rightarrow> Some y)"
  by (induction xs) auto

lemma canonical_of_node:
  "distinct (map user_key us) \<Longrightarrow> u \<in> set us \<Longrightarrow> canonical_of us (user_key u) = u_canonicalUserId u"
  by (simp add: canonical_of_def find_by_key)

lemma canonical_of_map:
  assumes "\<And>u. user_key (f u) = user_key u"
  shows "canonical_of (map f us) k =
    (case find (\<lambda>u. user_key u = k) us of None \<Rightarrow> None | Some u \<Rightarrow> u_canonicalUserId (f u))"
  using find_map_frame[of "\<lambda>u. user_key u = k" f us] assms
  by (simp add: canonical_of_def split: option.split)

lemma canonical_of_match:
  "u_canonicalUserId (match_user p t u) = coalesce (p_canonicalUserId p) (u_canonicalUserId u)"
  by (simp add: match_user_def coalesce_def)

lemma canonical_of_create: "u_canonicalUserId (create_user tenant p t) = p_canonicalUserId p"
  by (simp add: create_user_def)

lemma canonical_of_merge:
  "canonical_of (merge_node user_key (p_user_key tenant p) (match_user p t) (create_user tenant p t) us) =
     (canonical_of us)(p_user_key tenant p := coalesce (p_canonicalUserId p) (canonical_of us (p_user_key tenant p)))"
  (is "?l = ?r")
proof (rule ext)
  fix k
  let ?k = "p_user_key tenant p" and ?f = "\<lambda>u. if user_key u = p_user_key tenant p then match_user p t u else u"
  show "?l k = ?r k"
  proof (cases "?k \<in> user_key ` set us")
    case True
    then have "?l k = canonical_of (map ?f us) k" by (simp add: merge_node_def)
    also have "\<dots> = (case find (\<lambda>u. user_key u = k) us of None \<Rightarrow> None | Some u \<Rightarrow> u_canonicalUserId (?f u))"
      by (rule canonical_of_map) simp
    also have "\<dots> = ?r k"
    proof (cases "find (\<lambda>u. user_key u = k) us")
      case None
      then have "k \<noteq> ?k" using True by (auto simp: find_key_None)
      with None show ?thesis by (simp add: canonical_of_def)
    next
      case (Some u)
      with find_key_Some[OF Some] show ?thesis by (auto simp: canonical_of_def canonical_of_match)
    qed
    finally show ?thesis .
  next
    case False
    then have "find (\<lambda>u. user_key u = ?k) us = None" by (simp add: find_key_None)
    with False show ?thesis
      by (auto simp: merge_node_def canonical_of_def find_snoc canonical_of_create coalesce_def split: option.splits)
  qed
qed

lemma profile_in_map:
  assumes "\<And>u. user_key (f u) = user_key u" "\<And>u. profile_of (f u) = profile_of u"
  shows "profile_in (map f us) = profile_in us"
proof (rule ext, clarify)
  fix tenant user
  have n: "u_nlqProfile (f u) = None \<longleftrightarrow> u_nlqProfile u = None" for u
    using assms(2)[of u] by (auto simp: profile_of_def)
  have k: "is_native tenant user (f u) = is_native tenant user u" for u
    using assms(1)[of u] by (simp add: is_native_def user_key_def)
  show "profile_in (map f us) (tenant, user) = profile_in us (tenant, user)"
    using find_map_frame[of "\<lambda>u. is_native tenant user u \<and> u_nlqProfile u \<noteq> None" f us] n k assms(2)
    by (simp add: profile_in_def split: option.split)
qed

lemma profile_in_merge:
  "profile_in (merge_node user_key (p_user_key tenant p) (match_user p t) (create_user tenant p t) us) = profile_in us"
proof (cases "p_user_key tenant p \<in> user_key ` set us")
  case True
  then show ?thesis by (simp add: merge_node_def profile_in_map)
next
  case False
  then show ?thesis by (auto simp: merge_node_def profile_in_def find_snoc fun_eq_iff split: option.split)
qed

lemma canonical_of_link:
  assumes "distinct (map user_key us)" "ka \<in> user_key ` set us" "kb \<in> user_key ` set us"
  shows "canonical_of (map (set_canonical [ka, kb] c) us) = (canonical_of us)(ka := c, kb := c)"
proof (rule ext)
  fix k
  have "canonical_of (map (set_canonical [ka, kb] c) us) k =
      (case find (\<lambda>u. user_key u = k) us of None \<Rightarrow> None | Some u \<Rightarrow> u_canonicalUserId (set_canonical [ka, kb] c u))"
    by (rule canonical_of_map) simp
  also have "\<dots> = ((canonical_of us)(ka := c, kb := c)) k"
  proof (cases "find (\<lambda>u. user_key u = k) us")
    case None
    then have "k \<noteq> ka" "k \<noteq> kb" using assms(2,3) by (auto simp: find_key_None)
    with None show ?thesis by (simp add: canonical_of_def)
  next
    case (Some u)
    with find_key_Some[OF Some] show ?thesis by (auto simp: canonical_of_def set_canonical_def)
  qed
  finally show "canonical_of (map (set_canonical [ka, kb] c) us) k = ((canonical_of us)(ka := c, kb := c)) k" .
qed

lemma profile_in_update:
  assumes "\<exists>u \<in> set us. is_native tenant user u"
  shows "profile_in (map (profile_update ptext now tenant user version) us) = (profile_in us)((tenant, user) \<mapsto>
    \<lparr>nlqProfile = ptext, profileGeneratedAt = Some now, profileVersion = Some version\<rparr>)"
proof (rule ext, clarify)
  fix tenant' user'
  let ?f = "profile_update ptext now tenant user version"
  let ?p = "\<lparr>nlqProfile = ptext, profileGeneratedAt = Some now, profileVersion = Some version\<rparr>"
  have same: "find (\<lambda>u. is_native tenant user u \<and> u_nlqProfile u \<noteq> None) (map ?f us)
      = map_option ?f (find (is_native tenant user) us)"
    by (induction us) (auto simp: profile_update_def set_profile_def is_native_def)
  have other: "find (\<lambda>u. is_native tenant' user' u \<and> u_nlqProfile u \<noteq> None) (map ?f us)
      = find (\<lambda>u. is_native tenant' user' u \<and> u_nlqProfile u \<noteq> None) us" if "(tenant', user') \<noteq> (tenant, user)"
    using that by (induction us) (auto simp: profile_update_def set_profile_def is_native_def)
  show "profile_in (map ?f us) (tenant', user') = ((profile_in us)((tenant, user) \<mapsto> ?p)) (tenant', user')"
  proof (cases "(tenant', user') = (tenant, user)")
    case True
    obtain u where u: "find (is_native tenant user) us = Some u"
      using assms by (cases "find (is_native tenant user) us") (auto simp: find_None_iff)
    then have "is_native tenant user u" by (auto simp: find_Some_iff)
    then show ?thesis using True u same by (simp add: profile_in_def profile_update_def)
  next
    case False
    then show ?thesis using other by (auto simp: profile_in_def)
  qed
qed

lemma profile_update_none:
  "\<not> (\<exists>u \<in> set us. is_native tenant user u) \<Longrightarrow> map (profile_update ptext now tenant user version) us = us"
  by (simp add: profile_update_def map_idI)

section \<open>The methods are the commands of the log\<close>

lemma abs_write_result:
  "abs_log (s\<lparr>graph := write_result tenant p t (graph s)\<rparr>) = log_append tenant p t (abs_log s)"
proof -
  have e: "entry_of (create_performed tenant p t) = (p_user_key tenant p, logged_row p t)"
    by (simp add: entry_of_def create_performed_def logged_row_def p_user_key_def p_object_key_def)
  have c: "canonical_of (users (write_result tenant p t (graph s))) =
      (canonical_of (users (graph s)))(p_user_key tenant p :=
        coalesce (p_canonicalUserId p) (canonical_of (users (graph s)) (p_user_key tenant p)))"
    by (simp add: write_result_def canonical_of_merge)
  have "profile_in (users (write_result tenant p t (graph s))) = profile_in (users (graph s))"
    by (simp add: write_result_def profile_in_merge)
  then show ?thesis unfolding abs_log_def log_append_def
    by (simp add: c) (auto simp: write_result_def e coalesce_def split: option.split)
qed

lemma write_event_is_log_write:
  assumes ok: "log_ok parse s"
  shows "log_write parse event (abs_log s) = map_sum id abs_log (write_event s event)"
proof (cases "event_params event")
  case (Inl e)
  then show ?thesis by (simp add: log_write_def write_event_def)
next
  case (Inr q)
  obtain tenant p where q: "q = (tenant, p)" by (cases q)
  show ?thesis
  proof (cases "online s")
    case True
    show ?thesis using write_params_event_eq[OF log_ok_store[OF ok True], of tenant p] True log_okD(2)[OF ok]
      by (simp add: log_write_def write_event_def Inr q abs_write_result split: option.split)
  next
    case False
    then show ?thesis by (simp add: log_write_def write_event_def write_params_event_def Inr q)
  qed
qed

lemma log_ok_write: "log_ok parse s \<Longrightarrow> write_event s event = Inr s' \<Longrightarrow> log_ok parse s'"
proof -
  assume ok: "log_ok parse s" and w: "write_event s event = Inr s'"
  obtain tenant p where q: "event_params event = Inr (tenant, p)" "write_params_event s tenant p = Inr s'"
    using w by (auto simp: write_event_def res_simps)
  then have on: "online s" by (auto simp: write_params_event_def session_def split: if_splits)
  note s = log_ok_store[OF ok on]
  obtain t where t: "cypher_datetime (engine s) (p_eventTimestamp p) = Some t" "p_eventId p \<notin> set (event_ids (graph s))"
    "s' = s\<lparr>graph := write_result tenant p t (graph s)\<rparr>"
    using q(2) by (auto simp: write_params_event_eq[OF s] split: option.splits if_splits)
  show ?thesis using store_ok_write[OF s t(1,2)] seen_ok_write[OF log_okD(4)[OF ok]] ok
    by (simp add: t(3) log_ok_def store_ok_def)
qed

lemma abs_link:
  assumes ok: "log_ok parse s"
  shows "abs_log (s\<lparr>graph := LINK_IDENTITIES now tenant user_a app_a user_b app_b meth conf (graph s)\<rparr>)
    = log_link tenant user_a app_a user_b app_b (abs_log s)"
proof -
  let ?ka = "(tenant, app_a, user_a)" and ?kb = "(tenant, app_b, user_b)" and ?us = "users (graph s)"
  note d = wf_graphD(1)[OF log_okD(3)[OF ok]]
  show ?thesis
  proof (cases "?ka \<in> user_key ` set ?us \<and> ?kb \<in> user_key ` set ?us")
    case True
    then obtain a b where a: "a \<in> set ?us" "user_key a = ?ka" and b: "b \<in> set ?us" "user_key b = ?kb" by auto
    have f: "find (\<lambda>u. user_key u = ?ka) ?us = Some a" "find (\<lambda>u. user_key u = ?kb) ?us = Some b"
      using find_by_key[OF d a(1)] find_by_key[OF d b(1)] a(2) b(2) by simp_all
    have n: "u_nativeUserId a = user_a" using a(2) by (simp add: user_key_def)
    have p: "profile_in (map (set_canonical [?ka, ?kb] c) ?us) = profile_in ?us" for c
      by (rule profile_in_map) simp_all
    have c: "canonical_of ?us ?ka = u_canonicalUserId a" "canonical_of ?us ?kb = u_canonicalUserId b"
      by (simp_all add: canonical_of_def f)
    show ?thesis using True canonical_of_link[OF d, of ?ka ?kb] p has_account_abs[OF ok]
      by (simp add: LINK_IDENTITIES_def f log_link_def abs_log_def Let_def n c)
  next
    case False
    then have "find (\<lambda>u. user_key u = ?ka) ?us = None \<or> find (\<lambda>u. user_key u = ?kb) ?us = None"
      by (simp add: find_key_None)
    then have "LINK_IDENTITIES now tenant user_a app_a user_b app_b meth conf (graph s) = graph s"
      unfolding LINK_IDENTITIES_def Let_def by (elim disjE) (simp_all split: option.split)
    then show ?thesis using False has_account_abs[OF ok] by (auto simp: log_link_def Let_def)
  qed
qed

lemma native_accounts:
  assumes ok: "log_ok parse s"
  shows "(\<exists>k \<in> fst ` set (l_entries (abs_log s)). is_account_of tenant user k) \<longleftrightarrow>
    (\<exists>u \<in> set (users (graph s)). is_native tenant user u)"
proof -
  have "fst ` set (l_entries (abs_log s)) = user_key ` set (users (graph s))"
    using accounts_are_nodes[OF log_okD(3,4)[OF ok]] by (simp add: image_image)
  then show ?thesis by (simp add: is_account_of_def is_native_def user_key_def)
qed

lemma abs_profile:
  assumes ok: "log_ok parse s"
  shows "abs_log (s\<lparr>graph := UPDATE_USER_PROFILE (clock s) tenant user ptext version (graph s)\<rparr>)
    = log_set_profile tenant user ptext version (abs_log s)"
proof -
  let ?us = "users (graph s)"
  have c: "canonical_of (map (profile_update ptext (clock s) tenant user version) ?us) = canonical_of ?us"
    by (rule ext, subst canonical_of_map) (simp_all add: canonical_of_def split: option.split)
  show ?thesis
  proof (cases "\<exists>u \<in> set ?us. is_native tenant user u")
    case True
    then show ?thesis using native_accounts[OF ok] profile_in_update[OF True]
      by (simp add: log_set_profile_def UPDATE_USER_PROFILE_eq abs_log_def c)
  next
    case False
    then show ?thesis using native_accounts[OF ok] profile_update_none[OF False]
      by (simp add: log_set_profile_def UPDATE_USER_PROFILE_eq)
  qed
qed

interpretation store_log: simulation "log_ok parse" abs_log store_exec "log_exec parse" for parse
proof
  fix s c
  assume ok: "log_ok parse s"
  show "log_ok parse (fst (store_exec c s))"
  proof (cases c)
    case (WriteEvent event)
    then show ?thesis using ok log_ok_write[OF ok] by (auto simp: settle_def split: sum.split)
  next
    case LinkIdentities
    then show ?thesis using ok
      by (auto simp: settle_def link_identities_def session_def log_ok_def wf_link seen_ok_link)
  next
    case StoreProfile
    then show ?thesis using ok
      by (auto simp: settle_def update_user_profile_def session_def log_ok_def wf_update_profile seen_ok_profile)
  qed (use ok in \<open>simp_all add: log_ok_def\<close>)
  show "log_exec parse c (abs_log s) = map_prod abs_log id (store_exec c s)"
  proof (cases c)
    case (WriteEvent event)
    then show ?thesis using write_event_is_log_write[OF ok, of event]
      by (auto simp: settle_def split: sum.splits)
  next
    case LinkIdentities
    then show ?thesis using abs_link[OF ok] by (simp add: settle_def link_identities_def session_def while_up_def)
  next
    case StoreProfile
    then show ?thesis using abs_profile[OF ok]
      by (simp add: settle_def update_user_profile_def session_def while_up_def)
  qed (simp_all add: abs_log_def)
qed

section \<open>The reads are the reads of the log\<close>

lemma history_row_is_entry:
  assumes "(u, r, ob) \<in> set (edges_of g P)"
  shows "history_row_of u r ob = snd (entry_of r)"
proof -
  have "r_user r = user_key u" "r_object r = object_key ob" using assms by (auto simp: in_edges_of)
  then show ?thesis by (simp add: history_row_of_def entry_of_def user_key_def object_key_def)
qed

lemma edges_by_key:
  assumes ok: "log_ok parse s" and P: "\<And>u. u \<in> set (users (graph s)) \<Longrightarrow> P u = Q (user_key u)"
  shows "mset (map (\<lambda>(u, r, ob). r) (edges_of (graph s) P)) = mset (filter (\<lambda>r. Q (r_user r)) (performed (graph s)))"
proof -
  have "r_user r \<in> user_key ` set (filter P (users (graph s))) \<longleftrightarrow> Q (r_user r)"
    if r: "r \<in> set (performed (graph s))" for r
  proof -
    have "r_user r \<in> user_key ` set (users (graph s))"
      using wf_graphD(6)[OF log_okD(3)[OF ok] r] by (simp add: edge_ok_def)
    then show ?thesis using P by (auto simp: image_iff)
  qed
  then have "filter (\<lambda>r. r_user r \<in> user_key ` set (filter P (users (graph s)))) (performed (graph s))
      = filter (\<lambda>r. Q (r_user r)) (performed (graph s))" by (rule filter_cong[OF refl])
  then show ?thesis by (simp only: mset_edges_of[OF log_okD(3)[OF ok]])
qed

lemma rows_of_log:
  assumes ok: "log_ok parse s" and P: "\<And>u. u \<in> set (users (graph s)) \<Longrightarrow> P u = Q (user_key u)"
  shows "mset (history_rows (graph s) (clock s) days P) = mset (log_history Q days (abs_log s))"
proof -
  let ?in = "\<lambda>r. since (clock s) days (r_eventTimestamp r)" and ?row = "\<lambda>r. snd (entry_of r)"
  let ?es = "edges_of (graph s) P"
  have "history_rows (graph s) (clock s) days P
      = map (\<lambda>(u, r, ob). ?row r) (filter (\<lambda>(u, r, ob). ?in r) ?es)"
    unfolding history_rows_def by (rule map_cong) (auto simp: history_row_is_entry)
  also have "\<dots> = map ?row (filter ?in (map (\<lambda>(u, r, ob). r) ?es))"
    by (induction ?es rule: list.induct) (auto simp: filter_map comp_def case_prod_beta)
  finally have "mset (history_rows (graph s) (clock s) days P)
      = mset (map ?row (filter ?in (map (\<lambda>(u, r, ob). r) ?es)))" by simp
  also have "\<dots> = mset (map ?row (filter ?in (filter (\<lambda>r. Q (r_user r)) (performed (graph s)))))"
    using arg_cong[OF edges_by_key[where P = P and Q = Q, OF ok P], of "\<lambda>M. image_mset ?row (filter_mset ?in M)"]
    by (simp only: mset_map mset_filter)
  also have "map ?row (filter ?in (filter (\<lambda>r. Q (r_user r)) (performed (graph s)))) = log_history Q days (abs_log s)"
    by (simp add: log_history_def filter_map comp_def case_prod_beta conj_commute)
  finally show ?thesis .
qed

lemma native_account: "is_native tenant user u = is_account_of tenant user (user_key u)"
  by (auto simp: is_native_def is_account_of_def user_key_def)

lemma user_history_of_log:
  assumes ok: "log_ok parse s" and up: "online s"
  shows "\<exists>hs. get_user_history s tenant user days None = Inr hs \<and>
    newest_first_of hs (log_history (is_account_of tenant user) days (abs_log s))"
  using rows_of_log[where P = "is_native tenant user" and Q = "is_account_of tenant user" and days = days, OF ok native_account]
     USER_HISTORY_ok[OF log_ok_store[OF ok up], of "clock s" tenant user days]
    log_okD(1)[OF ok]
  by (simp add: get_user_history_eq[OF log_ok_store[OF ok up]] newest_first_of_def history_ok_def USER_HISTORY_def)

lemma cross_app_history_of_log:
  assumes ok: "log_ok parse s" and up: "online s"
  shows "\<exists>hs. get_cross_app_history s tenant c days = Inr hs \<and>
    newest_first_of hs (log_history (\<lambda>k. fst k = tenant \<and> l_canonical (abs_log s) k = Some c) days (abs_log s))"
proof -
  have P: "(u_tenantId u = tenant \<and> u_canonicalUserId u = Some c)
      = (fst (user_key u) = tenant \<and> canonical_of (users (graph s)) (user_key u) = Some c)"
    if "u \<in> set (users (graph s))" for u
    using canonical_of_node[OF wf_graphD(1)[OF log_okD(3)[OF ok]] that] by (simp add: user_key_def)
  show ?thesis
    using rows_of_log[where days = days, where P = "\<lambda>u. u_tenantId u = tenant \<and> u_canonicalUserId u = Some c"
        and Q = "\<lambda>k. fst k = tenant \<and> canonical_of (users (graph s)) k = Some c", OF ok P]
      CROSS_APP_HISTORY_ok[OF log_ok_store[OF ok up], of "clock s" tenant c days]
      log_okD(1)[OF ok] up
    by (simp add: get_cross_app_history_def newest_first_of_def history_ok_def CROSS_APP_HISTORY_def)
qed

lemma count_of_log:
  assumes ok: "log_ok parse s" and up: "online s"
  shows "get_user_event_count s tenant user = Inr (log_count tenant user (abs_log s))"
proof -
  have "USER_EVENT_COUNT tenant user (graph s) = length (filter (\<lambda>r. is_account_of tenant user (r_user r)) (performed (graph s)))"
    using mset_eq_length[OF edges_by_key[where P = "is_native tenant user" and Q = "is_account_of tenant user", OF ok native_account]]
    unfolding USER_EVENT_COUNT_def by simp
  then show ?thesis using up by (simp add: get_user_event_count_def log_count_def filter_map comp_def)
qed

lemma seen_since:
  assumes ok: "log_ok parse s" and u: "u \<in> set (users (graph s))"
  shows "since now days (u_lastSeen u) \<longleftrightarrow>
    (\<exists>r \<in> set (performed (graph s)). r_user r = user_key u \<and> since now days (r_eventTimestamp r))"
proof
  assume "since now days (u_lastSeen u)"
  moreover obtain r where "r \<in> set (performed (graph s))" "r_user r = user_key u"
    "dt_instant (r_eventTimestamp r) = dt_instant (u_lastSeen u)"
    using log_okD(4)[OF ok] u by (auto simp: seen_ok_def)
  ultimately show "\<exists>r \<in> set (performed (graph s)). r_user r = user_key u \<and> since now days (r_eventTimestamp r)"
    by (auto simp: since_def)
next
  assume "\<exists>r \<in> set (performed (graph s)). r_user r = user_key u \<and> since now days (r_eventTimestamp r)"
  then obtain r where r: "r \<in> set (performed (graph s))" "r_user r = user_key u" "since now days (r_eventTimestamp r)"
    by blast
  have "dt_instant (r_eventTimestamp r) \<le> dt_instant (u_lastSeen u)"
    using wf_graphD(6)[OF log_okD(3)[OF ok] r(1)] r(2) u by (auto simp: edge_ok_def)
  then show "since now days (u_lastSeen u)" using r(3) by (simp add: since_def)
qed

lemma active_users_of_log:
  assumes ok: "log_ok parse s" and up: "online s"
  shows "\<exists>us. get_active_users s tenant days = Inr us \<and> set us = log_active tenant days (abs_log s) \<and> sorted us \<and> distinct us"
proof -
  let ?us = "ACTIVE_USERS (clock s) tenant days (graph s)"
  have "set ?us = {snd (snd (r_user r)) |r. r \<in> set (performed (graph s)) \<and> fst (r_user r) = tenant \<and>
      since (clock s) days (r_eventTimestamp r)}" (is "_ = ?R")
  proof (intro set_eqI iffI)
    fix x assume "x \<in> set ?us"
    then obtain u where u: "u \<in> set (users (graph s))" "u_tenantId u = tenant" "x = u_nativeUserId u"
      "since (clock s) days (u_lastSeen u)" by (auto simp: ACTIVE_USERS_def)
    then obtain r where "r \<in> set (performed (graph s))" "r_user r = user_key u" "since (clock s) days (r_eventTimestamp r)"
      using seen_since[OF ok u(1)] by blast
    then show "x \<in> ?R" using u by (auto simp: user_key_def intro!: exI[of _ r])
  next
    fix x assume "x \<in> ?R"
    then obtain r where r: "r \<in> set (performed (graph s))" "fst (r_user r) = tenant" "x = snd (snd (r_user r))"
      "since (clock s) days (r_eventTimestamp r)" by blast
    obtain u where u: "u \<in> set (users (graph s))" "user_key u = r_user r"
      using wf_graphD(6)[OF log_okD(3)[OF ok] r(1)] by (force simp: edge_ok_def)
    then have "since (clock s) days (u_lastSeen u)" using seen_since[OF ok u(1)] r by metis
    moreover have "u_tenantId u = tenant" "u_nativeUserId u = x"
      using r(2,3) unfolding u(2)[symmetric] by (simp_all add: user_key_def)
    ultimately show "x \<in> set ?us" using u(1) by (force simp: ACTIVE_USERS_def)
  qed
  moreover have "?R = log_active tenant days (abs_log s)"
    by (auto simp: log_active_def filter_map case_prod_beta image_image comp_def)
  moreover have "sorted ?us" "distinct ?us" by (simp_all add: ACTIVE_USERS_def)
  ultimately show ?thesis using up by (simp add: get_active_users_def)
qed

lemma canonical_of_log:
  assumes ok: "log_ok parse s" and up: "online s"
  shows "\<exists>r. get_canonical_user_id s tenant user = Inr r \<and>
    (case r of None \<Rightarrow> log_canonicals tenant user (abs_log s) = {} | Some c \<Rightarrow> c \<in> log_canonicals tenant user (abs_log s))"
proof -
  let ?us = "users (graph s)"
  let ?hits = "filter (\<lambda>u. is_native tenant user u \<and> u_canonicalUserId u \<noteq> None) ?us"
  have L: "log_canonicals tenant user (abs_log s) = {c. \<exists>u \<in> set ?us. is_native tenant user u \<and> u_canonicalUserId u = Some c}"
  proof -
    have "set (map fst (l_entries (abs_log s))) = user_key ` set ?us"
      using accounts_are_nodes[OF log_okD(3,4)[OF ok]] by (simp add: image_image)
    then have "set (filter (is_account_of tenant user) (map fst (l_entries (abs_log s))))
        = user_key ` set (filter (is_native tenant user) ?us)"
      unfolding set_filter by (auto simp: native_account)
    then have "log_canonicals tenant user (abs_log s)
        = Option.these ((\<lambda>u. canonical_of ?us (user_key u)) ` set (filter (is_native tenant user) ?us))"
      unfolding log_canonicals_def by (simp only: image_image abs_log_sel)
    also have "(\<lambda>u. canonical_of ?us (user_key u)) ` set (filter (is_native tenant user) ?us)
        = u_canonicalUserId ` set (filter (is_native tenant user) ?us)"
      by (intro image_cong refl) (simp add: canonical_of_node[OF wf_graphD(1)[OF log_okD(3)[OF ok]]])
    finally show ?thesis by (force simp: in_these_eq)
  qed
  show ?thesis
  proof (cases "scan_users (engine s) ?hits")
    case Nil
    then have "?hits = []" using scan_Nil[OF log_okD(1)[OF ok], of ?hits] by blast
    then have "log_canonicals tenant user (abs_log s) = {}" unfolding L by (auto simp: filter_empty_conv)
    then show ?thesis using Nil up by (simp add: get_canonical_user_id_def CANONICAL_USER_ID_def)
  next
    case (Cons u rest)
    then have "u \<in> set ?hits" by (rule scan_head[OF log_okD(1)[OF ok]])
    then obtain c where "u \<in> set ?us" "is_native tenant user u" "u_canonicalUserId u = Some c" by auto
    then show ?thesis using Cons up unfolding L
      by (auto simp: get_canonical_user_id_def CANONICAL_USER_ID_def)
  qed
qed

lemma profile_of_log:
  assumes ok: "log_ok parse s" and up: "online s"
  shows "get_user_profile s tenant user = Inr (l_profile (abs_log s) (tenant, user))"
proof -
  let ?us = "users (graph s)" and ?P = "\<lambda>u. is_native tenant user u \<and> u_nlqProfile u \<noteq> None"
  have "GET_USER_PROFILE (engine s) tenant user (graph s) = profile_in ?us (tenant, user)"
  proof (cases "find ?P ?us")
    case None
    then have "\<forall>u \<in> set ?us. is_native tenant user u \<longrightarrow> u_nlqProfile u = None" by (auto simp: find_None_iff)
    then have "GET_USER_PROFILE (engine s) tenant user (graph s) = None"
      using GET_USER_PROFILE_None[OF log_okD(1)[OF ok]] by blast
    moreover have "profile_in ?us (tenant, user) = None" unfolding profile_in_def prod.case None by simp
    ultimately show ?thesis by simp
  next
    case (Some u)
    then have "u \<in> set ?us" "is_native tenant user u" "u_nlqProfile u \<noteq> None" by (auto simp: find_Some_iff)
    with Some show ?thesis
      using GET_USER_PROFILE_any[OF log_okD(1)[OF ok] wf_graphD(12)[OF log_okD(3)[OF ok]]] by (simp add: profile_in_def)
  qed
  then show ?thesis using up by (simp add: get_user_profile_def)
qed

lemma action_pattern_of_log:
  assumes ok: "log_ok parse s" and up: "online s"
  shows "\<exists>t. find_user_patterns s tenant user act =
      Inr \<lparr>actionType = act, occurrenceCount = length (log_actions tenant user act (abs_log s)), lastOccurred = t\<rparr> \<and>
    (case t of None \<Rightarrow> log_actions tenant user act (abs_log s) = []
     | Some x \<Rightarrow> x \<in> h_eventTimestamp ` set (log_actions tenant user act (abs_log s)) \<and>
         (\<forall>h \<in> set (log_actions tenant user act (abs_log s)). dt_instant (h_eventTimestamp h) \<le> dt_instant x))"
proof -
  let ?es = "filter (\<lambda>(u, r, ob). r_actionType r = act) (edges_of (graph s) (is_native tenant user))"
  let ?ts = "map (\<lambda>(u, r, ob). r_eventTimestamp r) ?es" and ?hs = "log_actions tenant user act (abs_log s)"
  have "mset (filter (\<lambda>r. r_actionType r = act) (map (\<lambda>(u, r, ob). r) (edges_of (graph s) (is_native tenant user))))
      = mset (filter (\<lambda>r. r_actionType r = act) (filter (\<lambda>r. is_account_of tenant user (r_user r)) (performed (graph s))))"
    using edges_by_key[where P = "is_native tenant user" and Q = "is_account_of tenant user", OF ok native_account]
    by (simp only: mset_filter)
  then have "mset (map r_eventTimestamp (filter (\<lambda>r. r_actionType r = act)
        (map (\<lambda>(u, r, ob). r) (edges_of (graph s) (is_native tenant user)))))
      = mset (map r_eventTimestamp (filter (\<lambda>r. r_actionType r = act)
        (filter (\<lambda>r. is_account_of tenant user (r_user r)) (performed (graph s)))))"
    by (simp only: mset_map)
  moreover have "map r_eventTimestamp (filter (\<lambda>r. r_actionType r = act)
        (map (\<lambda>(u, r, ob). r) (edges_of (graph s) (is_native tenant user)))) = ?ts"
    by (simp add: filter_map comp_def case_prod_unfold)
  moreover have "map r_eventTimestamp (filter (\<lambda>r. r_actionType r = act)
        (filter (\<lambda>r. is_account_of tenant user (r_user r)) (performed (graph s)))) = map h_eventTimestamp ?hs"
    by (simp add: log_actions_def filter_map comp_def case_prod_beta entry_of_def conj_commute)
  ultimately have m: "mset ?ts = mset (map h_eventTimestamp ?hs)" by (simp only:)
  have n: "length ?es = length ?hs" using mset_eq_length[OF m] by simp
  have st: "set ?ts = h_eventTimestamp ` set ?hs" using mset_eq_setD[OF m] by simp
  have "case latest ?ts of None \<Rightarrow> ?hs = [] | Some x \<Rightarrow> x \<in> set ?ts \<and> (\<forall>y \<in> set ?ts. dt_instant y \<le> dt_instant x)"
  proof (cases ?ts)
    case Nil
    then show ?thesis using n by (simp add: latest_def)
  next
    case (Cons y ys)
    then show ?thesis using max_by_in[of dt_instant y ys] max_by_ge[of _ y ys dt_instant] by (simp add: latest_def)
  qed
  then show ?thesis unfolding st using up n
    by (simp add: find_user_patterns_def USER_ACTION_PATTERN_def Let_def split: option.splits)
qed

section \<open>Runs\<close>

definition reads_as :: "store \<Rightarrow> log_state \<Rightarrow> bool" where
  \<comment> \<open>every reading method of the store answers from the log\<close>
  "reads_as s L = (\<forall>tenant user days c act.
     (\<exists>hs. get_user_history s tenant user days None = Inr hs \<and>
        newest_first_of hs (log_history (is_account_of tenant user) days L)) \<and>
     (\<exists>hs. get_cross_app_history s tenant c days = Inr hs \<and>
        newest_first_of hs (log_history (\<lambda>k. fst k = tenant \<and> l_canonical L k = Some c) days L)) \<and>
     get_user_event_count s tenant user = Inr (log_count tenant user L) \<and>
     (\<exists>us. get_active_users s tenant days = Inr us \<and> set us = log_active tenant days L \<and> sorted us \<and> distinct us) \<and>
     (\<exists>r. get_canonical_user_id s tenant user = Inr r \<and>
        (case r of None \<Rightarrow> log_canonicals tenant user L = {} | Some x \<Rightarrow> x \<in> log_canonicals tenant user L)) \<and>
     get_user_profile s tenant user = Inr (l_profile L (tenant, user)) \<and>
     (\<exists>t. find_user_patterns s tenant user act = Inr \<lparr>actionType = act,
        occurrenceCount = length (log_actions tenant user act L), lastOccurred = t\<rparr> \<and>
        (case t of None \<Rightarrow> log_actions tenant user act L = []
         | Some x \<Rightarrow> x \<in> h_eventTimestamp ` set (log_actions tenant user act L) \<and>
             (\<forall>h \<in> set (log_actions tenant user act L). dt_instant (h_eventTimestamp h) \<le> dt_instant x))))"

lemma reads_of_log:
  assumes ok: "log_ok parse s" and up: "online s"
  shows "reads_as s (abs_log s)"
  unfolding reads_as_def
  by (intro allI conjI user_history_of_log[OF ok up] cross_app_history_of_log[OF ok up] count_of_log[OF ok up]
      active_users_of_log[OF ok up] canonical_of_log[OF ok up] profile_of_log[OF ok up] action_pattern_of_log[OF ok up])

lemma graph_step_seen:
  assumes st: "graph_step E tenant g g'" and wf: "wf_graph g" and seen: "seen_ok g"
  shows "seen_ok g'"
  using st
proof (cases rule: graph_step.cases)
  case (event_written p)
  then show ?thesis using seen by (auto simp: WRITE_EVENT_Inr seen_ok_write)
next
  case schema_run
  then show ?thesis using run_all_ddl_frame[OF schema_run] seen by (auto simp: seen_ok_def)
qed (simp_all add: seen seen_ok_link seen_ok_profile)

lemma reachable_seen: "reachable E g \<Longrightarrow> engine_ok E \<Longrightarrow> seen_ok g"
proof (induction rule: reachable.induct)
  case (started g)
  then show ?case unfolding init_empty_graph by (auto simp: seen_ok_def empty_graph_def)
next
  case (step g tenant g')
  then show ?case using graph_step_seen reachable_wf by blast
qed

lemma reachable_log_ok:
  "engine_ok (engine s) \<Longrightarrow> reachable (engine s) (graph s) \<Longrightarrow> log_ok (cypher_datetime (engine s)) s"
  by (simp add: log_ok_def reachable_wf reachable_seen)

end
