(* ===== verification/Metrics.thy ===== *)
theory Metrics
  imports AppSpec
begin

text \<open>
  \<open>api/metrics.py\<close>: the counters the handlers increment, as readings of the application state, and
  that the counter of ingested events counts what the database has gained.
\<close>

section \<open>The counters\<close>

definition events_ingested_total :: "app \<Rightarrow> nat" where
  "events_ingested_total a = i_count (a_ingest a)"

definition resolve_intent_total :: "app \<Rightarrow> nat" where
  "resolve_intent_total a = a_resolved a"

definition stored_events :: "store \<Rightarrow> nat" where
  "stored_events s = length (performed (graph s))"

section \<open>What ingestion keeps of store and counter together\<close>

definition stamped_step :: "('s \<Rightarrow> json \<Rightarrow> py_error + 's) \<Rightarrow> ('s ingest \<Rightarrow> bool) \<Rightarrow> bool" where
  "stamped_step wr Q = (\<forall>now st e st'. write_stamped wr now st e = Inr st' \<longrightarrow> Q st \<longrightarrow> Q st')"

lemma stamped_stepD: "stamped_step wr Q \<Longrightarrow> write_stamped wr now st e = Inr st' \<Longrightarrow> Q st \<Longrightarrow> Q st'"
  unfolding stamped_step_def by blast

lemma ingest_event_step:
  assumes "stamped_step wr Q" "Q st"
  shows "Q (fst (ingest_event wr V now rid st e))"
proof (cases "ingest_one wr V now st e")
  case (Inl x)
  then show ?thesis using assms(2) by (cases x) (simp_all add: ingest_event_def)
next
  case (Inr st')
  then have "write_stamped wr now st e = Inr st'" by (auto simp: ingest_one_def res_simps)
  then show ?thesis using stamped_stepD[OF assms(1) _ assms(2)] by (simp add: ingest_event_def Inr)
qed

lemma persist_batch_event_step:
  assumes "stamped_step wr Q" "Q st"
  shows "Q (fst (persist_batch_event wr now st e))"
proof (cases "write_stamped wr now st e")
  case (Inl x)
  then show ?thesis using assms(2) by (cases x) (simp_all add: persist_batch_event_def)
next
  case (Inr st')
  then show ?thesis using stamped_stepD[OF assms(1) Inr assms(2)] by (simp add: persist_batch_event_def)
qed

lemma persist_batch_step:
  assumes "stamped_step wr Q"
  shows "Q st \<Longrightarrow> Q (fst (persist_batch wr now st vs))"
proof (induction vs arbitrary: st)
  case (Cons v vs)
  obtain e err where v: "v = (e, err)" by (cases v)
  obtain st1 r where s: "(case err of Some m \<Rightarrow> (st, batch_result e ''rejected'' (Some m))
      | None \<Rightarrow> persist_batch_event wr now st e) = (st1, r)" by fastforce
  have "Q st1" using s Cons.prems persist_batch_event_step[OF assms Cons.prems, of now e] by (cases err) auto
  then show ?case using s Cons.IH by (cases r) (simp_all add: v split_beta)
qed simp

lemma ingest_events_batch_step:
  assumes "stamped_step wr Q" "Q st"
  shows "Q (fst (ingest_events_batch wr V now rid st body))"
  using assms(2) persist_batch_step[OF assms]
  by (simp add: ingest_events_batch_def Let_def split_beta split: sum.split)

section \<open>The counter of ingested events\<close>

definition counts_from :: "nat \<Rightarrow> store ingest \<Rightarrow> bool" where
  "counts_from n st = (stored_events (i_store st) = n + i_count st)"

lemma write_event_adds_one: "write_event s e = Inr s' \<Longrightarrow> stored_events s' = stored_events s + 1"
  by (auto simp: write_event_def write_params_event_def session_def set_graph_def stored_events_def WRITE_EVENT_def
      res_simps split: if_splits sum.splits py_error.splits option.splits)

lemma counts_from_step: "stamped_step write_event (counts_from n)"
  by (auto simp: stamped_step_def counts_from_def write_stamped_def res_simps dest: write_event_adds_one)

lemma counter_frame [simp]:
  "a_ingest (fst (post_intent C now req a)) = a_ingest a"
  by (simp add: post_intent_def split: option.split)

lemma route_counts:
  assumes "counts_from n (a_ingest a)"
  shows "counts_from n (a_ingest (fst (route C now req a)))"
proof -
  have e: "counts_from n (a_ingest (fst (post_event C now req a)))"
    using assms ingest_event_step[OF counts_from_step assms] by (simp add: post_event_def split_beta split: sum.split)
  have b: "counts_from n (a_ingest (fst (post_batch C now req a)))"
    using assms ingest_events_batch_step[OF counts_from_step assms] by (simp add: post_batch_def split_beta split: sum.split)
  show ?thesis using e b assms unfolding route_def Let_def by (simp split: option.split)
qed

lemma serve_counts:
  assumes "counts_from n (a_ingest a)"
  shows "counts_from n (a_ingest (fst (serve C now req a)))"
proof -
  have "counts_from n (a_ingest (fst (route C now req (a\<lparr>a_counts := c\<rparr>))))" for c
    by (rule route_counts) (simp add: assms)
  then show ?thesis using assms by (simp add: serve_def split: sum.split option.split prod.split)
qed

lemma app_reachable_counts:
  "app_reachable C s a \<Longrightarrow> counts_from (stored_events s) (a_ingest a)"
proof (induction rule: app_reachable.induct)
  case (started V parse unrouted a)
  then obtain s' where i: "initialize s = Inr s'" "a_ingest a = \<lparr>i_store = s', i_count = 0\<rparr>"
    by (auto simp: startup_def res_simps)
  then have "performed (graph s') = performed (graph s)"
    using run_all_ddl_frame by (fastforce simp: initialize_Inr)
  then show ?case by (simp add: counts_from_def stored_events_def i(2))
qed (rule serve_counts)

lemma ingested_counter:
  "app_reachable C s a \<Longrightarrow> stored_events (the_store a) = stored_events s + events_ingested_total a"
  using app_reachable_counts by (simp add: counts_from_def events_ingested_total_def the_store_def)

end
