(* ===== verification/Spec2Isabelle.thy ===== *)
theory Spec2Isabelle
  imports Samples Mcp JiraWebhook SdkDelivery AuditLog Recurrence LoaderRuns TaskTracker EventModel EventLog Metrics
begin

text \<open>
  The Context Engine (\<open>src/src/context_engine\<close>) collects what the users of business
  applications do as events of one contract, keeps them in a graph database, and answers from
  them: which action a user is about to take, and a profile of habits. Connectors, a client
  library and an MCP server stand around it. This development models the Python code of the
  engine and of its clients, and states what makes it correct.

  \<^bold>\<open>Parts and theories.\<close>
  Foundations: \<open>Prelude\<close> (results with errors, ordered dictionaries, stable sorting, rounding),
  \<open>Strings\<close>, \<open>PyValues\<close> (decoded JSON with Python's truth, access and conversion, and the
  exceptions of the code as one datatype \<open>py_error\<close>), \<open>Timestamps\<close>, \<open>IsoFormat\<close> and
  \<open>Calendar\<close> (aware datetimes in microseconds, \<open>isoformat\<close> and \<open>fromisoformat\<close>).

  The store: \<open>GraphModel\<close> (nodes, relationships and the schema statements of
  \<open>core/graph_queries.py\<close>), \<open>GraphQueries\<close> (each Cypher query as a function on a graph),
  \<open>GraphStore\<close> (the operations of \<open>core/graph.py\<close> on a store: engine, clock, connection and graph),
  \<open>GraphInvariant\<close> (well-formed graphs and that every write keeps them so), \<open>GraphReads\<close> and
  \<open>Tenancy\<close> (what the reads see, and that they see one tenant's part), \<open>Interfaces\<close> (the
  protocols of \<open>core/interfaces.py\<close> as locales with the laws their clients need) and \<open>StoreSpec\<close>
  (their interpretations on the store, and \<open>store_ok\<close>). \<open>EventLog\<close> specifies the store as a log of
  commands: its reads are filters and counts over the events written, and a locale of simulations
  carries the step-by-step agreement to runs. \<open>Identity\<close> is \<open>core/identity.py\<close>.

  Deciding: \<open>Schema\<close> is the event contract and \<open>core/schema_validator.py\<close>, \<open>Keywords\<close> and
  \<open>Scorer\<close> are \<open>prediction/\<close>, \<open>Temporal\<close>, \<open>Patterns\<close>, \<open>Template\<close> and \<open>Scheduler\<close> are
  \<open>profiler/\<close>.

  Serving: \<open>Http\<close> (requests and responses), \<open>RateLimit\<close> and \<open>TenantGuard\<close> are the
  middleware, \<open>EventsApi\<close> and \<open>Routes\<close> are \<open>api/routes/\<close>, \<open>App\<close> is \<open>api/app.py\<close>: one
  function \<open>serve\<close> from a request and an application state to a response and the next state.
  \<open>AppSpec\<close> and \<open>ReadSpec\<close> hold the lemmas about it, \<open>Metrics\<close> is \<open>api/metrics.py\<close>: the counters
  as readings of that state. The accessors of \<open>api/dependencies.py\<close> are in \<open>App\<close>; the handlers
  reach settings, store, validator and generator through them.

  Clients: \<open>Mcp\<close> is \<open>mcp/server.py\<close>, \<open>Contract\<close> says when the events that producers write
  are valid, \<open>Jira\<close> and \<open>JiraWebhook\<close> are \<open>connectors/jira/\<close>, \<open>HttpClient\<close> is what they use of
  their HTTP library, \<open>EngineClient\<close> its use against the engine, \<open>Clocked\<close> what the engine makes of
  an event stamped by a producer's clock, \<open>Sdk\<close> and \<open>SdkDelivery\<close> are \<open>sdk/python\<close>, \<open>EventModel\<close> is the event model of \<open>core/models.py\<close> and how far it mirrors the
  contract. \<open>Samples\<close> has the concrete inputs of the witnesses.

  Sample programs (\<open>src/samples\<close>): \<open>RandomSource\<close> is a program that draws numbers and fresh
  identifiers from two streams, \<open>Months\<close> and \<open>TextOrder\<close> the arithmetic of months and the order of
  timestamps as text. \<open>AuditLog\<close> is \<open>log-simulator/\<close>, \<open>Recurrence\<close> is \<open>data/recurrence.py\<close>,
  \<open>SeedData\<close> is \<open>data/catalog.py\<close>, \<open>data/event_builder.py\<close>, \<open>data/patterns.py\<close> and the generator
  of \<open>data/seed_events.py\<close>. \<open>ShopFramework\<close> is \<open>shops/framework.py\<close>, \<open>ShopSpec\<close> what makes the
  definitions of a shop well formed and what follows for its events, \<open>ShopSap\<close>, \<open>ShopOracle\<close> and
  \<open>ShopSalesforce\<close> the three shops with that check for each, \<open>Shops\<close> the shops of
  \<open>shops/generate.py\<close>, \<open>Loader\<close> the posting of events in batches, \<open>LoaderRuns\<close> the subcommands of
  \<open>shops/generate.py\<close> and \<open>data/seed_events.py\<close> over a set of files, \<open>TaskTracker\<close> is
  \<open>task-tracker/app.py\<close>.

  \<^bold>\<open>How the code is rendered.\<close>
  A raise is \<open>Inl\<close> of a result, an early return a branch. Coroutines are functions: the code awaits
  each query before the next, so an operation is one step on the store. A dictionary is an
  association list in insertion order, an object that the code mutates is passed and returned.
  Confidences, scores and pauses are exact reals where the code has floats. Datetimes are integers of
  microseconds with an offset. Loops over lists are recursions over them; the retry loop of the
  client runs on the number of attempts left, the loops over dates and months on the distance to
  their end, so every function here is total and no fuel is needed. A probability or a bound
  written in the samples as a decimal is that rational number. A generator of dates is consumed
  whole by its callers, so it is a list.

  \<^bold>\<open>Parameters.\<close>
  What is not the repository's code is an argument: the database's scan order, clock and
  timestamp parser (\<open>engine\<close>, with \<open>engine_ok\<close> for a scan that permutes and a parser that gives
  aware values), the JSON Schema library (\<open>iter_errors\<close>, with \<open>validator_ok\<close> for one that reports
  no error exactly on the contract's events), the language model of the second profile
  backend, the framework's parsing of an intent request and its answer to a path it has
  no route for, the other end of an HTTP connection, fresh identifiers, random choices and the
  wall clock.

  \<^bold>\<open>What the lemmas show.\<close>
  C1 to C9: tenants stay apart, every reachable graph is well formed and the counter of ingested
  events counts it, ingestion stores exactly the valid new events and nothing when it refuses (a
  batch stops at an event whose result cannot be reported, C3), an event is read back by its own
  user and nobody else. C10 to C22: predictions, profiles, patterns,
  budgets, guards and identities. C24 to C27 and C29: profile text, endpoints, failure
  and validation; C26 says of every request whether it needs the database, C27 that the formats
  of the schema are not asserted, against what the documentation says. C28: the graph store refines the log of events, over runs of any length in which the
  database may come and go. C30 to C35: the MCP server, the Jira connector and the client library
  against the engine they call, and the event model against the store's parameters. C23 and C36
  to C40: the sample programs. A request to the task tracker is mirrored exactly once over a
  connection that gets through; generated events are valid for every seed, fall on the dates of
  their schedules, show the patterns the engine detects, and are stored as the loaders post them.

  \<^bold>\<open>Not modelled.\<close>
  Logging, the histogram of latencies and the CORS layer; the internals of FastAPI, pydantic, the
  Neo4j driver and the MCP library; the settings' reading of the environment; the parsing of
  command lines and the polling of a file, which are the argument parser's and the operating
  system's; the interleaving of two requests inside one await; the Node client and the browser
  viewer, which are in other languages.
\<close>

section \<open>Tenants\<close>

text \<open>
  C1: whatever a request asks for, it leaves alone the part of the graph that belongs to a tenant
  other than the one of its header.
\<close>

theorem requests_stay_in_tenant:
  assumes "validator_ok (c_validator C)" "rq_tenant req = Some h" "h \<noteq> other"
  shows "tenant_view other (graph (the_store (fst (serve C now req a)))) = tenant_view other (graph (the_store a))"
  by (rule serve_view[OF assms])

theorem requests_stay_in_tenant_witness:
  "tenant_view ''rival'' (graph (the_store (fst (serve sample_config sample_now
     (sample_request ''POST'' ''/v1/events'' (Body (JObj sample_event))) sample_app))))
   = tenant_view ''rival'' (graph sample_store)"
  using requests_stay_in_tenant[of sample_config "sample_request ''POST'' ''/v1/events'' (Body (JObj sample_event))" "''acme''" "''rival''" sample_now sample_app]
  by simp

text \<open>
  C2: from an empty or a consistent database, every series of requests, whatever they contain and
  whatever they are answered, leads to a consistent one, and the counter of ingested events is the
  number of events it has gained since the start.
\<close>

theorem requests_keep_store_consistent:
  assumes "engine_ok (engine s)" "graph s = empty_graph \<or> store_ok s" "app_reachable C s a"
  shows "store_ok (the_store a) \<and> stored_events (the_store a) = stored_events s + events_ingested_total a"
  using app_reachable_store_ok[OF assms(3,1,2)] ingested_counter[OF assms(3)] by blast

theorem requests_keep_store_consistent_witness:
  "let a = fst (serve \<lparr>c_settings = default_settings, c_validator = sample_validator,
       c_generator = TemplateGenerator, c_parse_intent = \<lambda>b. None, c_unrouted = sample_unrouted\<rparr> sample_now
     (sample_request ''POST'' ''/v1/events'' (Body (JObj sample_event)))
     \<lparr>a_ingest = \<lparr>i_store = empty_store, i_count = 0\<rparr>, a_counts = [], a_resolved = 0\<rparr>)
   in store_ok (the_store a) \<and> stored_events (the_store a) = stored_events empty_store + events_ingested_total a"
  unfolding Let_def
proof (rule requests_keep_store_consistent[of empty_store])
  let ?C = "\<lparr>c_settings = default_settings, c_validator = sample_validator,
     c_generator = TemplateGenerator, c_parse_intent = \<lambda>b. None, c_unrouted = sample_unrouted\<rparr>"
  have i: "initialize empty_store = Inr empty_store"
    by (simp add: initialize_def run_all_ddl_done empty_store_def)
  have "startup default_settings sample_validator (\<lambda>b. None) sample_unrouted empty_store = Inr (?C,
      \<lparr>a_ingest = \<lparr>i_store = empty_store, i_count = 0\<rparr>, a_counts = [], a_resolved = 0\<rparr>)"
    by (simp add: startup_def i build_profile_generator_def default_settings_def sample_validator_def)
  then show "app_reachable ?C empty_store (fst (serve ?C sample_now
      (sample_request ''POST'' ''/v1/events'' (Body (JObj sample_event)))
      \<lparr>a_ingest = \<lparr>i_store = empty_store, i_count = 0\<rparr>, a_counts = [], a_resolved = 0\<rparr>))"
    by (intro app_reachable.served app_reachable.started) simp
qed simp_all

text \<open>
  C7: two databases that agree on a tenant's part answer every read of that tenant alike: its
  histories, patterns, counts, canonical ids, active users and profiles depend on nothing else.
\<close>

theorem reads_depend_on_tenant_only:
  assumes "store_ok s" "store_ok s'" "engine s' = engine s" "clock s' = clock s"
    "tenant_view tenant (graph s') = tenant_view tenant (graph s)"
  shows "get_user_history s' tenant user days limit = get_user_history s tenant user days limit \<and>
    get_cross_app_history s' tenant c days = get_cross_app_history s tenant c days \<and>
    find_user_patterns s' tenant user act = find_user_patterns s tenant user act \<and>
    get_user_event_count s' tenant user = get_user_event_count s tenant user \<and>
    get_canonical_user_id s' tenant user = get_canonical_user_id s tenant user \<and>
    get_active_users s' tenant days = get_active_users s tenant days \<and>
    get_user_profile s' tenant user = get_user_profile s tenant user"
proof -
  let ?v = "tenant_view tenant (graph s)"
  have g: "USER_HISTORY E now tenant user days (graph r) = USER_HISTORY E now tenant user days ?v"
    "CROSS_APP_HISTORY E now tenant c days (graph r) = CROSS_APP_HISTORY E now tenant c days ?v"
    "USER_ACTION_PATTERN tenant user act (graph r) = USER_ACTION_PATTERN tenant user act ?v"
    "USER_EVENT_COUNT tenant user (graph r) = USER_EVENT_COUNT tenant user ?v"
    "CANONICAL_USER_ID E tenant user (graph r) = CANONICAL_USER_ID E tenant user ?v"
    "GET_USER_PROFILE E tenant user (graph r) = GET_USER_PROFILE E tenant user ?v"
    "ACTIVE_USERS now tenant days (graph r) = ACTIVE_USERS now tenant days ?v"
    if "r = s \<or> r = s'" for E now r
    using that reads_view[OF store_okD(2)[OF assms(1)]] reads_view[OF store_okD(2)[OF assms(2)]] node_reads_view assms(5)
    by metis+
  show ?thesis using assms(3,4) store_ok_online[OF assms(1)] store_ok_online[OF assms(2)]
    by (cases limit) (simp_all add: get_user_history_def USER_HISTORY_LIMITED_def get_cross_app_history_def find_user_patterns_def
        get_user_event_count_def get_canonical_user_id_def get_active_users_def get_user_profile_def g)
qed

theorem reads_depend_on_tenant_only_witness:
  "get_user_history sample_store ''rival'' ''ann'' 7 None = get_user_history empty_store ''rival'' ''ann'' 7 None"
proof -
  have "tenant_view ''rival'' (graph sample_store) = tenant_view ''rival'' (graph empty_store)"
    unfolding sample_store_def by (simp add: view_write_result del: empty_store_sel(4))
  then show ?thesis
    using reads_depend_on_tenant_only[of empty_store sample_store "''rival''" "''ann''" 7 None] by simp
qed

section \<open>Ingestion\<close>

text \<open>
  C3: a batch of at most a hundred objects of which at most a tenth fail validation is taken event
  by event: the events accepted are exactly the valid ones whose id is new when their turn comes,
  their ids and no others enter the store, and the counter grows by their number. The answer
  lists them all, unless an event that failed validation has an id that is neither a text nor
  null: its result cannot be built, the handler raises, and the client gets an internal error
  although the events before it are stored.
\<close>

theorem batch_accepts_valid_and_new:
  assumes "store_ok (i_store st)" "validator_ok V" "batch_events body es"
    "length es \<le> 100" "10 * failures V now es \<le> length es"
    "\<forall>e \<in> set es. verdict V now e = None \<longrightarrow> time_accepted (i_store st) e"
  shows "\<exists>st' rs. ingest_events_batch write_event V now rid st body =
      (st', if \<forall>e \<in> set es. reportable e then Inr (batch_response rs) else Inl ModelValidationError) \<and>
    handled_error rid ModelValidationError = None \<and>
    store_ok (i_store st') \<and> length rs = length (takeWhile reportable es) \<and>
    map (\<lambda>r. br_status r = ''accepted'') rs =
      accepted_flags (stored_ids (i_store st)) (map (\<lambda>e. (e, verdict V now e)) (takeWhile reportable es)) \<and>
    stored_ids (i_store st') = stored_ids (i_store st) \<union>
      {id_of_event e |e. e \<in> set (takeWhile reportable es) \<and> verdict V now e = None} \<and>
    i_count st' = i_count st + accepted_count rs"
  using batch_outcome[OF assms, of rid] by (simp only: handled_error_def py_error.case simp_thms)

definition unreportable_event :: json where
  "unreportable_event = JObj [(''eventId'', JInt 5)]"

theorem batch_accepts_valid_and_new_witness:
  "(\<exists>st' rs. ingest_events_batch write_event sample_validator sample_now ''r1''
       \<lparr>i_store = empty_store, i_count = 0\<rparr> [(''events'', JList [JObj sample_event, JObj sample_event])]
     = (st', Inr (batch_response rs)) \<and> map (\<lambda>r. br_status r = ''accepted'') rs = [True, False]) \<and>
   (\<exists>st'. ingest_events_batch write_event sample_validator sample_now ''r1''
       \<lparr>i_store = empty_store, i_count = 0\<rparr> [(''events'', JList (replicate 9 (JObj sample_event) @ [unreportable_event]))]
     = (st', Inl ModelValidationError) \<and> stored_ids (i_store st') = {''e1''})"
proof -
  let ?st = "\<lparr>i_store = empty_store, i_count = 0\<rparr>" and ?e = "JObj sample_event"
  let ?two = "[?e, ?e]" and ?ten = "replicate 9 ?e @ [unreportable_event]"
  have v: "verdict sample_validator sample_now ?e = None"
    by (simp add: verdict_def sample_event_accepted)
  have t: "time_accepted empty_store ?e"
    by (simp add: time_accepted_def sample_params_eq)
  have r: "reportable ?e" by (simp add: reportable_def sample_event_def dget_def)
  have i: "id_of_event ?e = ''e1''" by (simp add: id_of_event_def sample_event_def dget_def)
  have n: "\<not> valid event_schema unreportable_event" by code_simp
  have u: "verdict sample_validator sample_now unreportable_event \<noteq> None" "\<not> reportable unreportable_event"
    using n validate_valid[OF sample_validator_ok, of sample_now unreportable_event]
      validate_verdict[of sample_validator sample_now "[(''eventId'', JInt 5)]"]
    by (auto simp: unreportable_event_def reportable_def dget_def)
  have k: "takeWhile reportable ?two = ?two" "takeWhile reportable ?ten = replicate 9 ?e"
    using r u(2) by (simp_all add: takeWhile_append)
  have "failures sample_validator sample_now ?two = 0" "failures sample_validator sample_now ?ten = 1"
    using v u(1) by (simp_all add: failures_def)
  then have f: "length ?two \<le> 100" "10 * failures sample_validator sample_now ?two \<le> length ?two"
    "length ?ten \<le> 100" "10 * failures sample_validator sample_now ?ten \<le> length ?ten" by simp_all
  have b: "batch_events [(''events'', JList ?two)] ?two" "batch_events [(''events'', JList ?ten)] ?ten"
    by (simp_all add: batch_events_def unreportable_event_def)
  have ta: "\<forall>e \<in> set ?two. verdict sample_validator sample_now e = None \<longrightarrow> time_accepted (i_store ?st) e"
    "\<forall>e \<in> set ?ten. verdict sample_validator sample_now e = None \<longrightarrow> time_accepted (i_store ?st) e"
    using t u(1) by auto
  have s: "store_ok (i_store ?st)" by simp
  obtain st1 rs where one: "ingest_events_batch write_event sample_validator sample_now ''r1'' ?st [(''events'', JList ?two)] =
      (st1, Inr (batch_response rs))" "map (\<lambda>r. br_status r = ''accepted'') rs =
      accepted_flags {} (map (\<lambda>e. (e, verdict sample_validator sample_now e)) ?two)"
    using batch_accepts_valid_and_new[OF s sample_validator_ok b(1) f(1,2) ta(1), of "''r1''"] r unfolding k by auto
  obtain st2 where two: "ingest_events_batch write_event sample_validator sample_now ''r1'' ?st [(''events'', JList ?ten)] =
      (st2, Inl ModelValidationError)" "stored_ids (i_store st2) =
      {id_of_event e |e. e \<in> set (replicate 9 ?e) \<and> verdict sample_validator sample_now e = None}"
    using batch_accepts_valid_and_new[OF s sample_validator_ok b(2) f(3,4) ta(2), of "''r1''"] u(2) unfolding k by auto
  have flags: "accepted_flags {} (map (\<lambda>e. (e, verdict sample_validator sample_now e)) ?two) = [True, False]"
    using v by simp
  have ids: "{id_of_event e |e. e \<in> set (replicate 9 ?e) \<and> verdict sample_validator sample_now e = None} = {''e1''}"
    using v i by auto
  show ?thesis
  proof (intro conjI exI)
    show "map (\<lambda>r. br_status r = ''accepted'') rs = [True, False]" using one(2) unfolding flags .
    show "stored_ids (i_store st2) = {''e1''}" using two(2) unfolding ids .
  qed (rule one(1) two(1))+
qed

text \<open>
  C4: a batch of more than a hundred events is refused with 400 and one of which more than a
  tenth fail validation with 422; neither changes anything.
\<close>

theorem batch_refused_unchanged:
  assumes "batch_events body es" "100 < length es \<or> length es < 10 * failures V now es"
  shows "\<exists>body'. ingest_events_batch write_event V now rid st body = (st, Inr (json_response
    (if 100 < length es then 400 else 422) body'))"
  by (rule batch_refused[OF assms])

theorem batch_refused_unchanged_witness:
  "\<exists>body'. ingest_events_batch write_event sample_validator sample_now ''r1''
       \<lparr>i_store = empty_store, i_count = 0\<rparr> [(''events'', JList [JObj sample_event, JObj []])]
     = (\<lparr>i_store = empty_store, i_count = 0\<rparr>, Inr (json_response 422 body'))"
proof -
  have n: "\<not> valid event_schema (JObj [])" by code_simp
  have v: "verdict sample_validator sample_now (JObj []) \<noteq> None"
    using n validate_valid[OF sample_validator_ok, of sample_now "JObj []"] validate_verdict[of sample_validator sample_now "[]"] by blast
  show ?thesis
    using batch_refused_unchanged[of "[(''events'', JList [JObj sample_event, JObj []])]" "[JObj sample_event, JObj []]"
        sample_validator sample_now "''r1''" "\<lparr>i_store = empty_store, i_count = 0\<rparr>"] v
    by (simp add: batch_events_def failures_def)
qed

text \<open>
  C5: a valid event with a new id is answered 201 and is there for the next read: the user's
  history holds it as soon as its time is inside the window, the user's count goes up by one,
  nobody else's does, and its id joins the ids of the store.
\<close>

theorem ingested_event_is_read_back:
  assumes "store_ok (i_store st)" "validator_ok V" "validate V now e = Inr ()"
    "time_accepted (i_store st) e" "id_of_event e \<notin> stored_ids (i_store st)"
  shows "\<exists>st' tenant p ts. event_params e = Inr (tenant, p) \<and>
    ingest_event write_event V now rid st e = (st', Inr (json_response 201
      (JObj [(''eventId'', JStr (id_of_event e)), (''status'', JStr ''accepted'')]))) \<and>
    store_ok (i_store st') \<and> i_count st' = i_count st + 1 \<and>
    stored_ids (i_store st') = insert (id_of_event e) (stored_ids (i_store st)) \<and>
    cypher_datetime (engine (i_store st)) (p_eventTimestamp p) = Some ts \<and>
    (\<forall>days. since (clock (i_store st)) days ts \<longrightarrow>
       (\<exists>hs. get_user_history (i_store st') tenant (p_nativeUserId p) days None = Inr hs \<and>
          id_of_event e \<in> h_eventId ` set hs)) \<and>
    (\<forall>t u. \<exists>n. get_user_event_count (i_store st) t u = Inr n \<and> get_user_event_count (i_store st') t u =
       Inr (n + (if t = tenant \<and> u = p_nativeUserId p then 1 else 0)))"
proof -
  obtain tenant p ts where p: "event_params e = Inr (tenant, p)"
    "cypher_datetime (engine (i_store st)) (p_eventTimestamp p) = Some ts"
    and i: "ingest_event write_event V now rid st e =
      (\<lparr>i_store = (i_store st)\<lparr>graph := write_result tenant p ts (graph (i_store st))\<rparr>, i_count = i_count st + 1\<rparr>,
       Inr (json_response 201 (JObj [(''eventId'', JStr (id_of_event e)), (''status'', JStr ''accepted'')])))"
    using ingest_new[OF assms] by blast
  let ?s = "(i_store st)\<lparr>graph := write_result tenant p ts (graph (i_store st))\<rparr>"
  have e: "p_eventId p = id_of_event e"
    using valid_event_parts[OF validate_valid[OF assms(2,3)]] p(1) by force
  have s: "store_ok ?s" using store_ok_write[OF assms(1) p(2)] assms(5) e by (simp add: stored_ids_def)
  have wf: "wf_graph (write_result tenant p ts (graph (i_store st)))" using store_okD(2)[OF s] by simp
  have h: "\<forall>days. since (clock (i_store st)) days ts \<longrightarrow>
      (\<exists>hs. get_user_history ?s tenant (p_nativeUserId p) days None = Inr hs \<and> id_of_event e \<in> h_eventId ` set hs)"
    using history_after_write[OF assms(1) s refl] e by metis
  have c: "\<forall>t u. \<exists>n. get_user_event_count (i_store st) t u = Inr n \<and> get_user_event_count ?s t u =
      Inr (n + (if t = tenant \<and> u = p_nativeUserId p then 1 else 0))"
    using count_after_write[OF store_okD(2)[OF assms(1)] wf] store_ok_online[OF assms(1)]
    by (simp add: get_user_event_count_def)
  have ids: "stored_ids ?s = insert (id_of_event e) (stored_ids (i_store st))" using e by (simp add: stored_ids_def)
  show ?thesis
    using p i s h c ids
    by (intro exI[of _ "\<lparr>i_store = ?s, i_count = i_count st + 1\<rparr>"] exI[of _ tenant] exI[of _ p] exI[of _ ts] conjI)
       (simp_all only: ingest.select_convs simp_thms)
qed

theorem ingested_event_is_read_back_witness:
  "\<exists>st' hs. ingest_event write_event sample_validator sample_now ''r1'' \<lparr>i_store = empty_store, i_count = 0\<rparr>
       (JObj sample_event) = (st', Inr (json_response 201
         (JObj [(''eventId'', JStr ''e1''), (''status'', JStr ''accepted'')]))) \<and>
     get_user_history (i_store st') ''acme'' ''ann'' 7 None = Inr hs \<and> ''e1'' \<in> h_eventId ` set hs"
proof -
  have i: "id_of_event (JObj sample_event) = ''e1''" by (simp add: id_of_event_def sample_event_def dget_def)
  have t: "time_accepted empty_store (JObj sample_event)" by (simp add: time_accepted_def sample_params_eq)
  have w: "since sample_now 7 sample_time"
    by (simp add: since_def sample_now_def sample_time_def utc_def dt_instant_def us_per_day_def)
  let ?st = "\<lparr>i_store = empty_store, i_count = 0\<rparr>"
  obtain st' tenant p ts where p: "event_params (JObj sample_event) = Inr (tenant, p)"
    "cypher_datetime (engine empty_store) (p_eventTimestamp p) = Some ts"
    and r: "ingest_event write_event sample_validator sample_now ''r1'' ?st (JObj sample_event) = (st', Inr (json_response 201
      (JObj [(''eventId'', JStr (id_of_event (JObj sample_event))), (''status'', JStr ''accepted'')])))"
    and h: "\<forall>days. since (clock empty_store) days ts \<longrightarrow>
       (\<exists>hs. get_user_history (i_store st') tenant (p_nativeUserId p) days None = Inr hs \<and>
          id_of_event (JObj sample_event) \<in> h_eventId ` set hs)"
    using ingested_event_is_read_back[of ?st sample_validator sample_now "JObj sample_event" "''r1''", OF _ sample_validator_ok sample_event_accepted]
    unfolding ingest.select_convs by (metis empty_store_ids empty_store_ok empty_iff t)
  have "tenant = ''acme''" "p = sample_params" "ts = sample_time" using p by (simp_all add: sample_params_eq)
  then show ?thesis using r h w i by auto
qed

text \<open>
  C6: an event whose id the store already holds, from whatever tenant, is answered 409 with the
  id, and changes nothing.
\<close>

theorem duplicate_event_is_refused:
  assumes "store_ok (i_store st)" "validator_ok V" "validate V now e = Inr ()"
    "time_accepted (i_store st) e" "id_of_event e \<in> stored_ids (i_store st)"
  shows "ingest_event write_event V now rid st e = (st, Inr (json_response 409
    (error_body ''duplicate_event'' (error_message (DuplicateEventError (id_of_event e))) rid)))"
  by (rule ingest_duplicate[OF assms])

theorem duplicate_event_is_refused_witness:
  "rs_status (projr (snd (ingest_event write_event sample_validator sample_now ''r1''
     \<lparr>i_store = sample_store, i_count = 1\<rparr> (JObj sample_event)))) = 409"
proof -
  have i: "id_of_event (JObj sample_event) = ''e1''" by (simp add: id_of_event_def sample_event_def dget_def)
  have t: "time_accepted sample_store (JObj sample_event)" by (simp add: time_accepted_def sample_params_eq)
  show ?thesis
    using duplicate_event_is_refused[of "\<lparr>i_store = sample_store, i_count = 1\<rparr>" sample_validator sample_now
        "JObj sample_event" "''r1''"] i t
    by (simp add: sample_event_accepted)
qed

section \<open>Predictions and profiles\<close>

text \<open>
  C10: on a consistent database the scorer always answers, with a well-made ranking of the user's
  own and linked history: no more predictions than asked for, one an action type, best first,
  each repeating the application and object type of the newest row of its action, confidences
  between 0.06 and 1, and nothing left out that there was room for or that scored higher.
\<close>

theorem score_is_well_ranked:
  assumes "store_ok s" "0 \<le> n"
  shows "\<exists>hs ps. collect_history (\<lambda>t u d. get_user_history s t u d None) (get_canonical_user_id s)
      (get_cross_app_history s) tenant user days = Inr hs \<and>
    score (\<lambda>t u d. get_user_history s t u d None) (get_canonical_user_id s) (get_cross_app_history s)
      mappings now tenant user trigger n days = Inr ps \<and>
    well_ranked hs (match_keywords mappings trigger) now days (nat n) ps"
  by (rule score_well_ranked[OF assms])

theorem score_is_well_ranked_witness:
  "\<exists>ps. score (\<lambda>t u d. get_user_history sample_store t u d None) (get_canonical_user_id sample_store)
      (get_cross_app_history sample_store) DEFAULT_MAPPINGS sample_now ''acme'' ''ann'' None 1 14 = Inr ps \<and> length ps \<le> 1"
  using score_is_well_ranked[of sample_store 1 "''acme''" "''ann''" 14 DEFAULT_MAPPINGS sample_now None]
  by (auto simp: well_ranked_def)

text \<open>
  C11: a profiling pass over a consistent database never fails: it visits the active users of the
  tenant, stores for each with enough events the text of its patterns one version later, counts
  them, and leaves every other profile, of the tenant or not, as it was.
\<close>

theorem run_once_profiles_due_users:
  assumes "store_ok s"
  shows "\<exists>us s'. get_active_users s tenant ACTIVE_WINDOW_DAYS = Inr us \<and>
    run_once store_profiling (\<lambda>p. Inr (gen p)) m now s tenant =
      (s', Inr (length (filter (due store_profiling s m tenant) us))) \<and> store_ok s' \<and>
    (\<forall>u \<in> set us. due store_profiling s m tenant u \<longrightarrow> profiled store_profiling s s' gen now tenant u) \<and>
    (\<forall>t' u'. \<not> (t' = tenant \<and> u' \<in> set us \<and> due store_profiling s m tenant u') \<longrightarrow>
       get_user_profile s' t' u' = get_user_profile s t' u')"
  unfolding store_profiling_def by (rule graphs.run_once_spec[OF assms])

theorem run_once_profiles_due_users_witness:
  "\<exists>s' n. run_once store_profiling (\<lambda>p. Inr (template_generate p)) 1 (\<lambda>u. sample_now) sample_store ''acme''
     = (s', Inr n) \<and> store_ok s'"
  using run_once_profiles_due_users[of sample_store "''acme''" template_generate 1 "\<lambda>u. sample_now"] by auto

text \<open>
  C14: linking two identities whose strong identifiers agree, both with a node, gives them a
  canonical id under which the cross-application history returns the events of both.
\<close>

theorem linked_histories_are_shared:
  assumes "store_ok s" "match_method a b = Some m"
    "identity_key tenant a \<in> user_key ` set (users (graph s))" "identity_key tenant b \<in> user_key ` set (users (graph s))"
  shows "\<exists>s' c. attempt_link s tenant a b = Inr (s', True) \<and> store_ok s' \<and>
    (\<forall>days. \<exists>hs. get_cross_app_history s' tenant c days = Inr hs \<and>
      (\<forall>r \<in> set (performed (graph s)). r_user r \<in> {identity_key tenant a, identity_key tenant b} \<longrightarrow>
         since (clock s) days (r_eventTimestamp r) \<longrightarrow> r_eventId r \<in> h_eventId ` set hs))"
  by (rule attempt_link_history[OF assms])

theorem linked_histories_are_shared_witness:
  "\<exists>s'. attempt_link sample_store ''acme'' \<lparr>native_user_id = ''ann'', application_id = ''jira'', user_id_type = ''email''\<rparr>
     \<lparr>native_user_id = ''ann'', application_id = ''jira'', user_id_type = ''email''\<rparr> = Inr (s', True)"
proof -
  let ?a = "\<lparr>native_user_id = ''ann'', application_id = ''jira'', user_id_type = ''email''\<rparr>"
  have "match_method ?a ?a \<noteq> None" by code_simp
  then obtain m where "match_method ?a ?a = Some m" by blast
  then show ?thesis using linked_histories_are_shared[of sample_store ?a ?a m "''acme''"] by (auto simp: identity_key_def)
qed

text \<open>
  C16: a profile stored for a user the graph knows is the one read back, with its version, and
  no other user's profile, history or count changes.
\<close>

theorem profile_round_trip:
  assumes "store_ok s"
  shows "\<exists>s'. update_user_profile s tenant user txt v = Inr s' \<and> store_ok s' \<and>
    (known_user s tenant user \<longrightarrow> (\<exists>t. get_user_profile s' tenant user =
       Inr (Some \<lparr>nlqProfile = txt, profileGeneratedAt = t, profileVersion = Some v\<rparr>))) \<and>
    (\<forall>t' u'. (t', u') \<noteq> (tenant, user) \<longrightarrow> get_user_profile s' t' u' = get_user_profile s t' u') \<and>
    (\<forall>t' u' days. get_user_history s' t' u' days None = get_user_history s t' u' days None \<and>
       get_user_event_count s' t' u' = get_user_event_count s t' u')"
proof -
  obtain s' where s: "update_user_profile s tenant user txt v = Inr s'" "store_ok s'"
    using profiles.update_total[OF assms] by blast
  show ?thesis
    using s profiles.get_updated[OF assms _ s(1)] profiles.get_other[OF assms s(1)]
      graphs.history_stable[OF s(1)] graphs.count_stable[OF s(1)]
    by (intro exI[of _ s'] conjI allI impI) simp_all
qed

theorem profile_round_trip_witness:
  "\<exists>s' t. update_user_profile sample_store ''acme'' ''ann'' ''busy'' 4 = Inr s' \<and> get_user_profile s' ''acme'' ''ann'' =
     Inr (Some \<lparr>nlqProfile = ''busy'', profileGeneratedAt = t, profileVersion = Some 4\<rparr>)"
proof -
  have "known_user sample_store ''acme'' ''ann''"
    using sample_user_known unfolding known_user_def is_native_def user_key_def by auto
  then show ?thesis using profile_round_trip[of sample_store "''acme''" "''ann''" "''busy''" 4] by auto
qed

text \<open>
  C25: the profile endpoint answers from the user's own counts and history: an error naming the
  count when it is below the minimum, else the stored text when there is one and a freshly
  generated text, with no date and no version, when there is none.
\<close>

theorem profile_endpoint_answer:
  assumes "store_ok (the_store a)" "c_generator C = TemplateGenerator" "rq_tenant req = Some tenant"
  shows "\<exists>p. up_total_events p = USER_EVENT_COUNT tenant user (graph (the_store a)) \<and>
    up_by_application p = detect_action_patterns (USER_HISTORY (engine (the_store a)) (clock (the_store a))
      tenant user PROFILING_WINDOW_DAYS (graph (the_store a))) \<and>
    get_profile_handler C now req user a = ebind (profile_answer (the_store a) template_generate (c_settings C) user tenant p)
      (\<lambda>r. Inr (ok_payload (ProfilePayload r)))"
  by (rule get_profile_handler_answer[OF assms])

theorem profile_endpoint_answer_witness:
  "get_profile_handler sample_config sample_now (sample_request ''GET'' ''/v1/users/bob/profile'' EmptyBody) ''bob'' sample_app
   = Inl (InsufficientDataError ''bob'' 0 10)"
proof -
  have "USER_EVENT_COUNT ''acme'' ''bob'' (graph sample_store) = 0"
    unfolding event_count_edges[OF store_okD(2)[OF sample_store_ok]]
    by (simp add: sample_store_def write_result_def create_performed_def native_edge_def p_user_key_def empty_graph_def)
  then show ?thesis
    using profile_endpoint_answer[of sample_app sample_config "sample_request ''GET'' ''/v1/users/bob/profile'' EmptyBody"
        "''acme''" "''bob''" sample_now]
    by (auto simp: profile_answer_def default_settings_def)
qed

section \<open>Failures, start and administration\<close>

text \<open>
  C26: while the database cannot be reached, a request that passes the rate limiter and the tenant
  guard and reaches a query (a valid event, alone or in an admitted batch, an intent, or one of the
  three reads with its tenant and legal parameters) is answered 503 with a Retry-After header and its
  request id; the readiness probe is answered 503 without one; the graph is as it was. Every other
  request owes nothing to the database: it is answered as with any other store behind the application.
\<close>

theorem offline_is_503:
  assumes "\<not> online (the_store a)" "validator_ok (c_validator C)"
    "rate_limit (app_limits C) (dt_instant now) req (a_counts a) = Inr (c, None)" "tenant_check req = Inr None"
  shows "if needs_store C now req then \<exists>a'. serve C now req a = (a', unavailable (rq_id req)) \<and> the_store a' = the_store a
    else if readiness_probe req then \<exists>a'. serve C now req a = (a', not_ready (rq_id req)) \<and> the_store a' = the_store a
    else \<forall>b. a_counts b = a_counts a \<longrightarrow> snd (serve C now req b) = snd (serve C now req a)"
proof (cases "needs_store C now req")
  case True
  show ?thesis unfolding if_P[OF True] by (rule serve_offline(1)[OF assms True])
next
  case needs: False
  show ?thesis
  proof (cases "readiness_probe req")
    case True
    show ?thesis unfolding if_not_P[OF needs] if_P[OF True] by (rule serve_offline(2)[OF assms True])
  next
    case False
    show ?thesis unfolding if_not_P[OF needs] if_not_P[OF False]
      by (intro allI impI) (rule serve_offline(3)[OF assms needs False])
  qed
qed

theorem offline_is_503_witness:
  "\<exists>a'. serve sample_config sample_now (sample_request ''GET'' ''/v1/admin/users/ann/events'' EmptyBody)
     (sample_app\<lparr>a_ingest := \<lparr>i_store = sample_store\<lparr>online := False\<rparr>, i_count = 1\<rparr>\<rparr>) = (a', unavailable ''r1'')"
proof -
  let ?r = "sample_request ''GET'' ''/v1/admin/users/ann/events'' EmptyBody"
  let ?a = "sample_app\<lparr>a_ingest := \<lparr>i_store = sample_store\<lparr>online := False\<rparr>, i_count = 1\<rparr>\<rparr>"
  have r: "rate_limit (app_limits sample_config) (dt_instant sample_now) ?r (a_counts ?a) = Inr (a_counts ?a, None)"
    by (simp add: rate_limit_def bucket_for_def EVENTS_PATHS_def INTENT_PATHS_def)
  have t: "tenant_check ?r = Inr None" by (simp add: tenant_check_def TENANT_SCOPED_PATHS_def)
  have u: "user_route ''/v1/admin/users'' ''events'' ''/v1/admin/users/ann/events'' = Some ''ann''" by code_simp
  have n: "needs_store sample_config sample_now ?r" using u by (simp add: needs_store_def in_bounds_def)
  show ?thesis using offline_is_503[of ?a sample_config sample_now ?r, OF _ _ r t] n by auto
qed

text \<open>
  Initialising the database again changes nothing: the first run leaves every index and the
  uniqueness constraint in place and touches no node or relationship, and a second run is a
  no-op that succeeds.
\<close>

theorem initialize_is_idempotent:
  assumes "initialize s = Inr s'"
  shows "initialize s' = Inr s' \<and> fst ` set INIT_STATEMENTS \<subseteq> set (ddl (graph s')) \<and>
    users (graph s') = users (graph s) \<and> performed (graph s') = performed (graph s)"
proof -
  obtain g where g: "online s" "run_all_ddl INIT_STATEMENTS (graph s) = Inr g" "s' = s\<lparr>graph := g\<rparr>"
    using assms by (auto simp: initialize_Inr)
  have d: "fst ` set INIT_STATEMENTS \<subseteq> set (ddl g)" using run_all_ddl_adds[OF g(2)] by blast
  obtain ns where "g = (graph s)\<lparr>ddl := ddl (graph s) @ ns\<rparr>" using run_all_ddl_frame[OF g(2)] by blast
  then show ?thesis using g d run_all_ddl_done[OF d] by (simp add: initialize_Inr)
qed

theorem initialize_is_idempotent_witness: "initialize empty_store = Inr empty_store"
proof -
  obtain s' where s: "initialize (empty_store\<lparr>graph := empty_graph\<rparr>) = Inr s'"
    using init_empty_graph by (auto simp: initialize_Inr)
  moreover have "s' = empty_store" using s init_empty_graph by (auto simp: initialize_Inr empty_store_def)
  ultimately show ?thesis using initialize_is_idempotent[OF s] by simp
qed

text \<open>
  C28: the graph store refines an append-only log of accepted events with a canonical identifier
  per application account and a profile per user. From any reachable database, whatever sequence
  of writes, links, stored profiles, outages and readings of the clock follows, every answer and
  every error is the one the log gives, the database goes on representing the log, and while it is
  up each reading method answers from the log alone: a history is a newest-first arrangement of
  the account's entries in the window, a cross-application history of those whose account carries
  the canonical identifier, a count their number, the active users the sorted names with an entry
  in the window, the canonical identifier one of those of the user's accounts, the profile the one
  last stored for a user that has acted, and an action summary the number of its entries and the
  time of a latest one.
\<close>

theorem store_refines_event_log:
  assumes "engine_ok (engine s)" "reachable (engine s) (graph s)" "run store_exec cs s = (s', answers)"
  shows "run (log_exec (cypher_datetime (engine s))) cs (abs_log s) = (abs_log s', answers) \<and>
    (online s' \<longrightarrow> reads_as s' (abs_log s'))"
proof -
  note ok = reachable_log_ok[OF assms(1,2)]
  show ?thesis using store_log.run_commutes[OF ok, of cs] store_log.run_keeps[OF ok, of cs] reads_of_log assms(3)
    by auto
qed

theorem store_refines_event_log_witness:
  "snd (run store_exec [WriteEvent (JObj sample_event), ServerUp False, WriteEvent (JObj sample_event),
      ServerUp True, WriteEvent (JObj sample_event)] empty_store)
    = [None, None, Some ServiceUnavailable, None, Some (DuplicateEventError ''e1'')]"
proof -
  let ?cs = "[WriteEvent (JObj sample_event), ServerUp False, WriteEvent (JObj sample_event),
      ServerUp True, WriteEvent (JObj sample_event)]"
  have "reachable (engine empty_store) (graph empty_store)"
    using reachable.started[OF init_empty_graph] by simp
  moreover have "snd (run (log_exec (cypher_datetime sample_engine)) ?cs (abs_log empty_store))
      = [None, None, Some ServiceUnavailable, None, Some (DuplicateEventError ''e1'')]"
    by (simp add: log_write_def sample_params_eq settle_def log_append_def log_ids_def logged_row_def abs_log_def empty_graph_def)
  ultimately show ?thesis
    using store_refines_event_log[of empty_store ?cs, OF _ _ surjective_pairing] by simp
qed

text \<open>
  C29: a page of a user's events is the newest part of the history of the window, of at most the
  limit asked for and never more than five thousand; a page that is not marked truncated is the
  whole history.
\<close>

theorem event_page_is_newest:
  assumes "store_ok s" "list_user_events (get_user_history s) user tenant days limit = Inr pg"
  shows "\<exists>d hs. query_int ''query.days'' DEFAULT_EVENT_WINDOW_DAYS 1 None days = Inr d \<and>
    get_user_history s tenant user d None = Inr hs \<and> pg_events pg = take (length (pg_events pg)) hs \<and>
    int (length (pg_events pg)) \<le> pg_limit pg \<and> pg_limit pg \<le> 5000 \<and>
    (\<not> pg_truncated pg \<longrightarrow> pg_events pg = hs) \<and>
    (\<forall>h \<in> set (pg_events pg). \<forall>h' \<in> set (drop (length (pg_events pg)) hs).
       dt_instant (h_eventTimestamp h') \<le> dt_instant (h_eventTimestamp h))"
proof -
  obtain d n where q: "query_int ''query.days'' DEFAULT_EVENT_WINDOW_DAYS 1 None days = Inr d" and n: "1 \<le> n" "n \<le> 5000"
    and pg: "pg = \<lparr>pg_userId = user, pg_events = take (nat n) (USER_HISTORY (engine s) (clock s) tenant user d (graph s)),
      pg_limit = n, pg_truncated = (n \<le> int (length (USER_HISTORY (engine s) (clock s) tenant user d (graph s))))\<rparr>"
    using list_user_events_page[OF assms] by blast
  let ?hs = "USER_HISTORY (engine s) (clock s) tenant user d (graph s)"
  have t: "take (length (take (nat n) ?hs)) ?hs = take (nat n) ?hs" by (simp add: min_def)
  have dr: "set (drop (length (take (nat n) ?hs)) ?hs) \<subseteq> set (drop (nat n) ?hs)" by (simp add: min_def)
  show ?thesis
    using q n t dr get_user_history_eq[OF assms(1)] USER_HISTORY_newest[OF assms(1), where n = "nat n" and now = "clock s"]
    unfolding pg events_page.select_convs
    by (intro exI[of _ d] exI[of _ ?hs] conjI) (auto simp: min_def dest: subsetD)
qed

theorem event_page_is_newest_witness:
  "\<exists>pg. list_user_events (get_user_history sample_store) ''ann'' ''acme'' None (Some 1) = Inr pg \<and> pg_limit pg \<le> 5000"
proof -
  obtain pg where pg: "list_user_events (get_user_history sample_store) ''ann'' ''acme'' None (Some 1) = Inr pg"
    by (auto simp: list_user_events_def query_int_def DEFAULT_EVENT_WINDOW_DAYS_def MAX_EVENT_LIMIT_def
        get_user_history_limited[OF sample_store_ok])
  then show ?thesis using event_page_is_newest[OF sample_store_ok pg] by blast
qed

section \<open>Clients of the engine\<close>

text \<open>
  C30: the tools of the MCP server answer what the REST routes answer: the same predictions, as
  long as the configured history window is the tool's own fourteen days, and the same profile
  with the application's action types, with the route's 404 as an answer of its own.
\<close>

theorem mcp_agrees_with_rest:
  assumes "store_ok (x_graph_store X)" "build_lifespan cfg s = Inr X" "profile_generator_backend cfg = ''template''"
    "prediction_history_days cfg = 14"
  shows "resolve_user_intent X now tenant user text n = ebind
      (resolve_intent (\<lambda>t u d. get_user_history (x_graph_store X) t u d None) (get_canonical_user_id (x_graph_store X))
         (get_cross_app_history (x_graph_store X)) DEFAULT_MAPPINGS cfg now
         \<lparr>iq_tenant_id = tenant, iq_user_id = user, iq_user_id_type = typ,
          iq_trigger = Some \<lparr>t_source = src, t_text = Some text, t_timestamp = ts\<rparr>, iq_max_predictions = n\<rparr>)
      (\<lambda>r. Inr (ir_predictions r)) \<and>
    get_user_profile_tool X now tenant user = mcp_view (x_min_events X)
      (profile_route (\<lambda>t u d. get_user_history (x_graph_store X) t u d None) (get_user_event_count (x_graph_store X))
         (get_user_profile (x_graph_store X)) (generate (x_generator X)) cfg now user tenant)"
proof -
  have X: "x_generator X = TemplateGenerator" "x_min_events X = profile_min_events_to_generate cfg"
    using assms(2,3) by (auto simp: build_lifespan_def res_simps build_profile_generator_def)
  show ?thesis using resolve_user_intent_rest[OF assms(4)] profile_tool_rest[OF assms(1) X] by blast
qed

theorem mcp_agrees_with_rest_witness:
  "\<exists>X. build_lifespan default_settings empty_store = Inr X \<and>
     resolve_user_intent X sample_now ''acme'' ''ann'' ''sprint'' 3 = ebind
      (resolve_intent (\<lambda>t u d. get_user_history (x_graph_store X) t u d None) (get_canonical_user_id (x_graph_store X))
         (get_cross_app_history (x_graph_store X)) DEFAULT_MAPPINGS default_settings sample_now
         \<lparr>iq_tenant_id = ''acme'', iq_user_id = ''ann'', iq_user_id_type = ''email'',
          iq_trigger = Some \<lparr>t_source = ''chat'', t_text = Some ''sprint'', t_timestamp = None\<rparr>, iq_max_predictions = 3\<rparr>)
      (\<lambda>r. Inr (ir_predictions r))"
proof -
  let ?X = "\<lparr>x_graph_store = empty_store, x_generator = TemplateGenerator, x_min_events = 10\<rparr>"
  have i: "initialize empty_store = Inr empty_store"
    by (simp add: initialize_def run_all_ddl_done empty_store_def)
  have b: "build_lifespan default_settings empty_store = Inr ?X"
    by (simp add: build_lifespan_def i build_profile_generator_def default_settings_def)
  have o: "store_ok (x_graph_store ?X)" "profile_generator_backend default_settings = ''template''"
    "prediction_history_days default_settings = 14" by (simp_all add: default_settings_def)
  show ?thesis using mcp_agrees_with_rest[OF o(1) b o(2,3)] b by blast
qed

text \<open>
  C32: a Jira webhook that stands for an event is stored: when the connector's own names have the
  contract's form, the payload names its users and objects and lies no further in the future than
  the engine allows, and the tenant's budget admits the request, the route posts the event, the
  engine stores it under the connector's fresh id and nothing else, and the sender is told so.
\<close>

theorem jira_webhook_is_stored:
  assumes "transform i now payload (jh_tenant_id h) (jh_application_instance_id h) ''production'' = Inr (Some e)"
    "connector_ready h payload" "in_calendar (dt_instant now)" "store_ok (the_store a)" "validator_ok (c_validator C)"
    "payload_instant now payload - dt_instant now \<le> max_future_seconds (c_validator C) * 1000000"
    "reads_iso (engine (the_store a))" "i \<notin> stored_ids (the_store a)"
    "rate_limit (app_limits C) (dt_instant now) (post_request rid (jh_events_url h) (jh_tenant_id h) e) (a_counts a) = Inr (k, None)"
    "jh_events_url h = ''/v1/events''"
  shows "\<exists>a'. receive_jira_webhook (engine_post C now rid) h i now a (Body payload) =
      (a', Inr (JObj [(''status'', JStr ''forwarded''), (''eventId'', JStr i)])) \<and>
    store_ok (the_store a') \<and> stored_ids (the_store a') = insert i (stored_ids (the_store a))"
  by (rule receive_forwards[OF assms])

lemma sample_engine_reads_iso: "reads_iso sample_engine"
proof -
  have "fromisoformat (isoformat_utc (utc us)) \<noteq> None" if "in_calendar us" for us
    using fromisoformat_isoformat[OF that] by simp
  then show ?thesis by (simp add: reads_iso_def sample_engine_def zulu_isoformat)
qed

definition sample_handler :: jira_handler where
  "sample_handler = \<lparr>jh_events_url = ''/v1/events'', jh_tenant_id = ''acme'', jh_application_instance_id = ''jira-1''\<rparr>"

theorem jira_webhook_is_stored_witness:
  "\<exists>a'. receive_jira_webhook (engine_post sample_config sample_now ''r1'') sample_handler ''j1'' sample_now sample_app
      (Body sample_payload) = (a', Inr (JObj [(''status'', JStr ''forwarded''), (''eventId'', JStr ''j1'')])) \<and>
    stored_ids (the_store a') = {''j1'', ''e1''}"
proof -
  have t: "transform ''j1'' sample_now sample_payload (jh_tenant_id sample_handler) (jh_application_instance_id sample_handler)
      ''production'' = Inr (Some sample_jira_event)"
    using sample_transform by (simp add: sample_handler_def)
  have h: "connector_ready sample_handler sample_payload"
    using sample_payload_ok by (simp add: connector_ready_def sample_handler_def)
  have n: "payload_instant sample_now sample_payload = 1785574800000000"
    by (simp add: payload_instant_def sample_payload_def dget_def json_number_def) code_simp
  have d: "dt_instant sample_now = 1785576600000000" by (simp add: sample_now_def utc_def dt_instant_def)
  have m: "in_calendar (dt_instant sample_now)" by code_simp
  have s: "payload_instant sample_now sample_payload - dt_instant sample_now \<le> max_future_seconds (c_validator sample_config) * 1000000"
    unfolding n d by (simp add: sample_validator_def)
  obtain c where c: "rate_limit (app_limits sample_config) (dt_instant sample_now)
      (post_request ''r1'' (jh_events_url sample_handler) (jh_tenant_id sample_handler) sample_jira_event) (a_counts sample_app) = Inr (c, None)"
    by (simp add: rate_limit_def bucket_for_def EVENTS_PATHS_def extract_tenant_id_def Let_def sample_app_def prune_def
        app_limits_def default_settings_def counter_get_def dict_mod_def sample_handler_def)
  have x: "store_ok (the_store sample_app)" "reads_iso (engine (the_store sample_app))" "''j1'' \<notin> stored_ids (the_store sample_app)"
    by (simp_all add: sample_engine_reads_iso)
  show ?thesis
    using jira_webhook_is_stored[OF t h m x(1) _ s x(2,3) c] by (simp add: sample_handler_def) blast
qed

text \<open>
  C34: an event emitted by the SDK over a connection that loses requests or replies is stored
  exactly once as soon as one attempt of the budget goes through, whether or not a lost reply
  hid an earlier success: the store gains the event's id, the counter one, and the caller an
  answer.
\<close>

theorem sdk_delivers_once:
  assumes "store_ok (i_store st)" "validator_ok V" "validate V now (JObj (prepare_event i sent event)) = Inr ()"
    "time_accepted (i_store st) (JObj (prepare_event i sent event))"
    "id_of_event (JObj (prepare_event i sent event)) \<notin> stored_ids (i_store st)"
    "k \<le> length fs" "Delivered \<notin> set (take k fs)" "k < length fs \<longrightarrow> fs ! k = Delivered" "int k \<le> m" "m \<le> 3"
  shows "\<exists>st' r. emit (lossy_ingest V now rid) m i sent (fs, st) event =
      ((drop (Suc k) fs, st'), take k BACKOFF_SECONDS, Inr r) \<and> store_ok (i_store st') \<and>
    stored_ids (i_store st') = insert (id_of_event (JObj (prepare_event i sent event))) (stored_ids (i_store st)) \<and>
    i_count st' = i_count st + 1"
  by (rule emit_delivered_once[OF assms])

theorem sdk_delivers_once_witness:
  "\<exists>st' r. emit (lossy_ingest sample_validator sample_now ''r1'') 3 ''e1'' sample_now
      ([ReplyLost, RequestLost], \<lparr>i_store = empty_store, i_count = 0\<rparr>) sample_event =
     (([], st'), [1, 2], Inr r) \<and> stored_ids (i_store st') = {''e1''} \<and> i_count st' = 1"
proof -
  have p: "prepare_event ''e1'' sample_now sample_event = sample_event" by code_simp
  have i: "id_of_event (JObj sample_event) = ''e1''" by (simp add: id_of_event_def sample_event_def dget_def)
  have t: "time_accepted empty_store (JObj sample_event)" by (simp add: time_accepted_def sample_params_eq)
  show ?thesis
    using sdk_delivers_once[of "\<lparr>i_store = empty_store, i_count = 0\<rparr>" sample_validator sample_now "''e1''" sample_now
        sample_event 2 "[ReplyLost, RequestLost]" 3 "''r1''"]
    unfolding p i by (simp add: t sample_event_accepted BACKOFF_SECONDS_def numeral_2_eq_2) blast
qed

text \<open>
  C23: the task tracker answers a request for a task that does not exist with 404 and mirrors
  nothing. Otherwise, over a connection that loses at most three requests or replies before one
  gets through, the task is created, moved or assigned, no other task changes, the caller gets the
  answer of the route, and the engine stores the mirrored event exactly once, under the id the
  client drew: the tracker's events pass the contract, and its clock need only agree with the
  engine's within the skew.
\<close>

theorem task_requests_are_mirrored:
  assumes "tasks_ok tasks" "mirror_ready st V now tenant i sent" "gets_through k fs" "acting_user rq \<noteq> []"
  shows "case task_after rq tasks of
      None \<Rightarrow> handle_task (lossy_ingest V now rid) tenant i sent rq (tasks, fs, st) =
        ((tasks, fs, st), Inl (HTTPException 404 ''task not found''))
    | Some t \<Rightarrow> \<exists>tasks' st'. handle_task (lossy_ingest V now rid) tenant i sent rq (tasks, fs, st) =
        ((tasks', drop (Suc k) fs, st'), Inr (task_answer rq t)) \<and> tasks_ok tasks' \<and>
        (\<forall>j. get_task tasks' j = (if j = tk_task_id t then Inr t else get_task tasks j)) \<and>
        store_ok (i_store st') \<and> stored_ids (i_store st') = insert i (stored_ids (i_store st)) \<and>
        i_count st' = i_count st + 1"
proof (cases "task_after rq tasks")
  case None
  then show ?thesis using handle_task_unknown[OF None] by simp
next
  case (Some t)
  then show ?thesis using handle_task_mirrors[OF assms Some, of rid] by simp
qed

theorem task_requests_are_mirrored_witness:
  "\<exists>tasks' st'. handle_task (lossy_ingest sample_validator sample_now ''r1'') ''acme'' ''e1'' sample_now
      (NewTask ''write'' ''ann'') (empty_task_store, [ReplyLost], \<lparr>i_store = empty_store, i_count = 0\<rparr>) =
     ((tasks', [], st'), Inr (json_response 201 (JObj [(''taskId'', JStr ''TASK-1''), (''status'', JStr ''open'')]))) \<and>
    stored_ids (i_store st') = {''e1''} \<and> i_count st' = 1"
proof -
  let ?st = "\<lparr>i_store = empty_store, i_count = 0\<rparr>" and ?rq = "NewTask ''write'' ''ann''"
  have c: "contract_tenant ''acme''" "in_calendar (dt_instant sample_now)" by code_simp+
  have p: "fromisoformat (isoformat_utc sample_now) = Some (utc (dt_instant sample_now))"
    using fromisoformat_isoformat[OF c(2)] by (simp add: isoformat_utc_def)
  have t: "cypher_datetime sample_engine (isoformat_utc sample_now) \<noteq> None"
    unfolding sample_engine_def by (simp add: zulu_isoformat p)
  have r: "mirror_ready ?st sample_validator sample_now ''acme'' ''e1'' sample_now"
    using c t by (simp add: mirror_ready_def) (simp add: sample_validator_def)
  have a: "task_after ?rq empty_task_store = Some \<lparr>tk_task_id = ''TASK-1'', tk_title = ''write'',
      tk_status = ''open'', tk_assignee_id = None\<rparr>" by code_simp
  have g: "gets_through 1 [ReplyLost]" "acting_user ?rq \<noteq> []" by (simp_all add: gets_through_def)
  obtain tasks' st' where "handle_task (lossy_ingest sample_validator sample_now ''r1'') ''acme'' ''e1'' sample_now ?rq
      (empty_task_store, [ReplyLost], ?st) = ((tasks', drop (Suc 1) [ReplyLost], st'), Inr (json_response 201
        (JObj [(''taskId'', JStr ''TASK-1''), (''status'', JStr ''open'')])))"
    "stored_ids (i_store st') = insert ''e1'' (stored_ids (i_store ?st))" "i_count st' = i_count ?st + 1"
    using task_requests_are_mirrored[OF tasks_ok_empty r g, of "''r1''"]
    unfolding a option.case task_answer.simps task.simps by blast
  then show ?thesis by (intro exI conjI) (simp_all del: handle_task.simps)
qed

end
